theory Spec2Isabelle
  imports Complex_Main
begin

section \<open>Errors as values\<close>

text \<open>
  Every exception the source can raise on the paths studied here is a value of
  \<open>error\<close>; a computation that may raise returns \<open>error + 'a\<close> with \<open>Inl\<close> for the
  exception.  \<open>and_then\<close> sequences two such computations the way consecutive Python
  statements do: the second one runs only when the first one did not raise.
\<close>

datatype error =
    AssertionError string
  | IndexError
  | RuntimeError
  | ValueError
  | AttributeError string
  | FileNotFoundError string
  | ZeroDivisionError

definition and_then :: "error + 'a \<Rightarrow> ('a \<Rightarrow> error + 'b) \<Rightarrow> error + 'b" where
  "and_then r f = (case r of Inl e \<Rightarrow> Inl e | Inr v \<Rightarrow> f v)"

section \<open>Tensors: a shape and row-major storage\<close>

text \<open>
  A dense tensor is its shape together with its elements in row-major (contiguous)
  order, which is the layout \<open>view\<close> reinterprets.  \<open>ravel\<close> turns a multi-index into
  the storage offset and \<open>unravel\<close> is its inverse; \<open>item t idx\<close> reads one element and
  \<open>tabulate sh f\<close> builds the tensor of shape \<open>sh\<close> whose element at \<open>idx\<close> is \<open>f idx\<close>.
  The element type is arbitrary: the arithmetic of the working precision is whatever
  \<open>+\<close>, \<open>*\<close> and \<open>-\<close> mean on it, and no algebraic law is assumed of them.
\<close>

datatype 'a tensor = Tensor (shape: "nat list") (elems: "'a list")

fun ravel :: "nat list \<Rightarrow> nat list \<Rightarrow> nat" where
  "ravel (n # ns) (i # is) = i * prod_list ns + ravel ns is"
| "ravel _ _ = 0"

fun unravel :: "nat list \<Rightarrow> nat \<Rightarrow> nat list" where
  "unravel [] k = []"
| "unravel (n # ns) k = (k div prod_list ns) # unravel ns (k mod prod_list ns)"

definition valid_index :: "nat list \<Rightarrow> nat list \<Rightarrow> bool" where
  "valid_index sh idx = list_all2 (<) idx sh"

definition wf_tensor :: "'a tensor \<Rightarrow> bool" where
  "wf_tensor t = (length (elems t) = prod_list (shape t))"

definition item :: "'a tensor \<Rightarrow> nat list \<Rightarrow> 'a" where
  "item t idx = elems t ! ravel (shape t) idx"

definition tabulate :: "nat list \<Rightarrow> (nat list \<Rightarrow> 'a) \<Rightarrow> 'a tensor" where
  "tabulate sh f = Tensor sh (map (\<lambda>k. f (unravel sh k)) [0..<prod_list sh])"

text \<open>\<open>map_tensor f t\<close>, the map function of the datatype, applies \<open>f\<close> to every element.\<close>

definition sum_upto :: "nat \<Rightarrow> (nat \<Rightarrow> 'a) \<Rightarrow> 'a::{zero,plus}" where
  "sum_upto n f = fold (\<lambda>i acc. acc + f i) [0..<n] 0"

subsection \<open>The tensor operations of the library that the source calls\<close>

text \<open>
  Each operation follows the documented behaviour of the PyTorch function of the same
  name, including the shape checks that make it raise.  Storage is always contiguous
  here, so \<open>permute\<close> materialises its result and \<open>contiguous\<close> is the identity; the
  source calls \<open>view\<close> only on tensors that are contiguous in PyTorch as well (the output
  of a convolution, of \<open>repeat\<close>, or of \<open>contiguous\<close>).
\<close>

definition unsqueeze :: "nat \<Rightarrow> 'a tensor \<Rightarrow> 'a tensor" where
  "unsqueeze k t = Tensor (take k (shape t) @ 1 # drop k (shape t)) (elems t)"

definition squeeze :: "nat \<Rightarrow> 'a tensor \<Rightarrow> 'a tensor" where
  "squeeze k t =
     (if k < length (shape t) \<and> shape t ! k = 1
      then Tensor (take k (shape t) @ drop (Suc k) (shape t)) (elems t)
      else t)"

definition view :: "nat list \<Rightarrow> 'a tensor \<Rightarrow> error + 'a tensor" where
  "view sh t = (if prod_list sh = prod_list (shape t) then Inr (Tensor sh (elems t))
                else Inl RuntimeError)"

text \<open>\<open>view_infer sh t\<close> is \<open>t.view(*sh, -1)\<close>: the last size is inferred.\<close>

definition view_infer :: "nat list \<Rightarrow> 'a tensor \<Rightarrow> error + 'a tensor" where
  "view_infer sh t =
     (if prod_list sh \<noteq> 0 \<and> prod_list (shape t) mod prod_list sh = 0
      then Inr (Tensor (sh @ [prod_list (shape t) div prod_list sh]) (elems t))
      else Inl RuntimeError)"

fun first_index :: "nat list \<Rightarrow> nat \<Rightarrow> nat" where
  "first_index [] d = 0"
| "first_index (x # xs) d = (if x = d then 0 else Suc (first_index xs d))"

definition permute :: "nat list \<Rightarrow> 'a tensor \<Rightarrow> error + 'a tensor" where
  "permute dims t =
     (if length dims = length (shape t) \<and> distinct dims \<and> list_all (\<lambda>d. d < length dims) dims
      then Inr (tabulate (map (\<lambda>d. shape t ! d) dims)
                  (\<lambda>idx. item t (map (\<lambda>d. idx ! first_index dims d) [0..<length dims])))
      else Inl RuntimeError)"

text \<open>\<open>transpose_dims i j t\<close> is \<open>t.transpose(i, j)\<close>; a negative axis counts from the end.\<close>

definition norm_dim :: "nat \<Rightarrow> int \<Rightarrow> nat" where
  "norm_dim r d = (if d < 0 then nat (int r + d) else nat d)"

definition transpose_dims :: "int \<Rightarrow> int \<Rightarrow> 'a tensor \<Rightarrow> error + 'a tensor" where
  "transpose_dims i j t =
     (let r = length (shape t) in
      if - int r \<le> i \<and> i < int r \<and> - int r \<le> j \<and> j < int r
      then permute (([0..<r]) [norm_dim r i := norm_dim r j, norm_dim r j := norm_dim r i]) t
      else Inl IndexError)"

definition repeat :: "nat list \<Rightarrow> 'a tensor \<Rightarrow> error + 'a tensor" where
  "repeat reps t =
     (if length reps = length (shape t)
      then Inr (tabulate (map2 (*) reps (shape t))
                  (\<lambda>idx. item t (map2 (\<lambda>i n. i mod n) idx (shape t))))
      else Inl RuntimeError)"

text \<open>\<open>narrow ax start len t\<close> is the slice \<open>start : start + len\<close> of axis \<open>ax\<close>.\<close>

definition narrow :: "nat \<Rightarrow> nat \<Rightarrow> nat \<Rightarrow> 'a tensor \<Rightarrow> 'a tensor" where
  "narrow ax start len t =
     tabulate ((shape t) [ax := len]) (\<lambda>idx. item t (idx [ax := start + idx ! ax]))"

text \<open>
  A Python slice \<open>lo:hi\<close> of an axis of size \<open>n\<close>: negative bounds count from the end
  and both bounds are clamped to the axis.
\<close>

definition slice_bound :: "nat \<Rightarrow> int \<Rightarrow> nat" where
  "slice_bound n i = (if i < 0 then nat (max 0 (int n + i)) else min n (nat i))"

definition slice :: "nat \<Rightarrow> int \<Rightarrow> int \<Rightarrow> 'a tensor \<Rightarrow> 'a tensor" where
  "slice ax lo hi t =
     (let n = shape t ! ax; a = slice_bound n lo; b = slice_bound n hi
      in narrow ax a (b - a) t)"

text \<open>\<open>torch.split(t, sizes)\<close> along axis 0: the sizes must add up to the axis.\<close>

definition split_with_sizes :: "nat list \<Rightarrow> 'a tensor \<Rightarrow> error + 'a tensor list" where
  "split_with_sizes sizes t =
     (if shape t \<noteq> [] \<and> sum_list sizes = hd (shape t)
      then Inr (map (\<lambda>i. narrow 0 (sum_list (take i sizes)) (sizes ! i) t) [0..<length sizes])
      else Inl RuntimeError)"

text \<open>
  \<open>locate sizes v\<close> finds the block that holds position \<open>v\<close> of a concatenation of
  blocks of the given sizes, and the position inside that block.
\<close>

fun locate :: "nat list \<Rightarrow> nat \<Rightarrow> nat \<times> nat" where
  "locate [] v = (0, v)"
| "locate (n # ns) v =
     (if v < n then (0, v) else (case locate ns (v - n) of (i, u) \<Rightarrow> (Suc i, u)))"

definition cat :: "'a tensor list \<Rightarrow> nat \<Rightarrow> error + 'a tensor" where
  "cat ts ax =
     (case ts of
        [] \<Rightarrow> Inl RuntimeError
      | t0 # _ \<Rightarrow>
          if ax < length (shape t0)
             \<and> list_all (\<lambda>t. (shape t) [ax := 0] = (shape t0) [ax := 0]) ts
          then let sizes = map (\<lambda>t. shape t ! ax) ts in
               Inr (tabulate ((shape t0) [ax := sum_list sizes])
                      (\<lambda>idx. case locate sizes (idx ! ax) of
                                (i, u) \<Rightarrow> item (ts ! i) (idx [ax := u])))
          else Inl RuntimeError)"

text \<open>
  \<open>index_select t ax index\<close>: the index is an integer tensor of rank at most one (an
  index of higher rank and an axis that \<open>t\<close> does not have raise \<open>IndexError\<close>), every
  entry of which must lie inside the axis (an entry outside, a negative one included,
  raises \<open>RuntimeError\<close>).
\<close>

definition index_select :: "'a tensor \<Rightarrow> nat \<Rightarrow> int tensor \<Rightarrow> error + 'a tensor" where
  "index_select t ax index =
     (if 1 < length (shape index) \<or> \<not> ax < length (shape t) then Inl IndexError
      else if list_all (\<lambda>p. 0 \<le> p \<and> p < int (shape t ! ax)) (elems index)
      then Inr (tabulate ((shape t) [ax := length (elems index)])
                  (\<lambda>idx. item t (idx [ax := nat (elems index ! (idx ! ax))])))
      else Inl RuntimeError)"

text \<open>
  \<open>gather_rows t ids\<close> is the indexing expression \<open>t[:, ids]\<close> with an integer tensor
  \<open>ids\<close>: axis 1 of \<open>t\<close> is replaced by the axes of \<open>ids\<close>.  A negative index counts
  from the end of the axis; an index outside the axis raises.
\<close>

definition gather_rows :: "'a tensor \<Rightarrow> int tensor \<Rightarrow> error + 'a tensor" where
  "gather_rows t ids =
     (case shape t of
        n0 # n1 # rest \<Rightarrow>
          if list_all (\<lambda>p. - int n1 \<le> p \<and> p < int n1) (elems ids)
          then Inr (tabulate (n0 # shape ids @ rest)
                 (\<lambda>idx. let r = length (shape ids);
                             p = item ids (take r (tl idx));
                             q = (if p < 0 then nat (int n1 + p) else nat p)
                         in item t (hd idx # q # drop (Suc r) idx)))
          else Inl IndexError
      | _ \<Rightarrow> Inl IndexError)"

text \<open>
  \<open>embedding table ids\<close> is \<open>nn.Embedding\<close>: row \<open>ids[...]\<close> of the table for every
  entry of \<open>ids\<close>.
\<close>

definition embedding :: "'a tensor \<Rightarrow> int tensor \<Rightarrow> error + 'a tensor" where
  "embedding table ids =
     (case shape table of
        [v, h] \<Rightarrow>
          if list_all (\<lambda>p. 0 \<le> p \<and> p < int v) (elems ids)
          then Inr (tabulate (shape ids @ [h])
                 (\<lambda>idx. item table [nat (item ids (butlast idx)), last idx]))
          else Inl IndexError
      | _ \<Rightarrow> Inl RuntimeError)"

text \<open>
  Broadcasting of two shapes, aligned at the last axis: two sizes are compatible when
  they are equal or one of them is 1.
\<close>

fun broadcast_rev :: "nat list \<Rightarrow> nat list \<Rightarrow> nat list option" where
  "broadcast_rev [] ys = Some ys"
| "broadcast_rev xs [] = Some xs"
| "broadcast_rev (x # xs) (y # ys) =
     (if x = y \<or> x = 1 \<or> y = 1
      then map_option ((#) (if x = 1 then y else x)) (broadcast_rev xs ys)
      else None)"

definition broadcast_shape :: "nat list \<Rightarrow> nat list \<Rightarrow> nat list option" where
  "broadcast_shape a b = map_option rev (broadcast_rev (rev a) (rev b))"

definition broadcast_index :: "nat list \<Rightarrow> nat list \<Rightarrow> nat list" where
  "broadcast_index sh idx =
     map2 (\<lambda>i n. if n = 1 then 0 else i) (drop (length idx - length sh) idx) sh"

definition elementwise :: "('a \<Rightarrow> 'a \<Rightarrow> 'a) \<Rightarrow> 'a tensor \<Rightarrow> 'a tensor \<Rightarrow> error + 'a tensor" where
  "elementwise f a b =
     (case broadcast_shape (shape a) (shape b) of
        None \<Rightarrow> Inl RuntimeError
      | Some sh \<Rightarrow>
          Inr (tabulate sh (\<lambda>idx. f (item a (broadcast_index (shape a) idx))
                                    (item b (broadcast_index (shape b) idx)))))"

text \<open>
  A convolution with a \<open>1 \<times> 1\<close> kernel and no bias: the weight has shape
  \<open>[O, C, 1, 1]\<close>, the input \<open>[B, C, H, W]\<close>, the output \<open>[B, O, H, W]\<close>.  The library
  refuses a weight without output channels and an input with an empty spatial axis (the
  kernel would be larger than the input); an input without channels is accepted only
  when the batch is empty too.
\<close>

definition conv2d :: "'a::{zero,plus,times} tensor \<Rightarrow> 'a tensor \<Rightarrow> error + 'a tensor" where
  "conv2d w x =
     (case (shape w, shape x) of
        ([out, c, kh, kw], [b, c', h, wd]) \<Rightarrow>
          if c = c' \<and> kh = 1 \<and> kw = 1 \<and> 0 < out \<and> 0 < h \<and> 0 < wd \<and> (0 < c \<or> b = 0)
          then Inr (tabulate [b, out, h, wd]
                 (\<lambda>idx. sum_upto c (\<lambda>ci. item w [idx ! 1, ci, 0, 0]
                                          * item x [idx ! 0, ci, idx ! 2, idx ! 3])))
          else Inl RuntimeError
      | _ \<Rightarrow> Inl RuntimeError)"

text \<open>
  \<open>matmul\<close> of two rank-4 tensors with the same two leading (batch) axes, which is how
  the source calls it: \<open>[B, N, S, D] \<times> [B, N, D, T] \<rightarrow> [B, N, S, T]\<close>.
\<close>

definition matmul :: "'a::{zero,plus,times} tensor \<Rightarrow> 'a tensor \<Rightarrow> error + 'a tensor" where
  "matmul x y =
     (case (shape x, shape y) of
        ([b, n, s, d], [b', n', d', t]) \<Rightarrow>
          if b = b' \<and> n = n' \<and> d = d'
          then Inr (tabulate [b, n, s, t]
                 (\<lambda>idx. sum_upto d (\<lambda>k. item x [idx ! 0, idx ! 1, idx ! 2, k]
                                         * item y [idx ! 0, idx ! 1, k, idx ! 3])))
          else Inl RuntimeError
      | _ \<Rightarrow> Inl RuntimeError)"

text \<open>
  \<open>row_of t idx\<close> is the vector along the last axis that holds position \<open>idx\<close>, and
  \<open>along_last f t\<close> applies a vector function to every such vector, keeping the shape.
\<close>

definition row_of :: "'a tensor \<Rightarrow> nat list \<Rightarrow> 'a list" where
  "row_of t idx = map (\<lambda>j. item t (butlast idx @ [j])) [0..<last (shape t)]"

definition along_last :: "('a list \<Rightarrow> 'a list) \<Rightarrow> 'a tensor \<Rightarrow> 'a tensor" where
  "along_last f t = tabulate (shape t) (\<lambda>idx. f (row_of t idx) ! last idx)"

section \<open>Numeric kernels\<close>

text \<open>
  The numeric kernels of the library are parameters of the model: the normalisation
  \<open>F.layer_norm\<close> and the softmax on one vector along the last axis, the mean of a
  vector, the activation, the square and the reciprocal square root of one number,
  and the conversion of one number to the working precision \<open>MODEL_DTYPE\<close>.  A theorem
  stated for every \<open>'a kernels\<close> holds whatever rounding these kernels perform.
  \<open>.to(TEST_DEVICE)\<close> moves data between devices and changes no value.
\<close>

record 'a kernels =
  layer_norm_row :: "'a \<Rightarrow> 'a list \<Rightarrow> 'a list \<Rightarrow> 'a list"
  softmax_row :: "'a list \<Rightarrow> 'a list"
  mean_row :: "'a list \<Rightarrow> 'a"
  silu :: "'a \<Rightarrow> 'a"
  square :: "'a \<Rightarrow> 'a"
  rsqrt :: "'a \<Rightarrow> 'a"
  to_dtype :: "'a \<Rightarrow> 'a"

text \<open>\<open>F.layer_norm(x, normalized_shape, weight, bias=None, eps)\<close> for a rank-1
  \<open>normalized_shape\<close>: the last axis of \<open>x\<close> must have that size.\<close>

definition layer_norm ::
  "'a kernels \<Rightarrow> 'a tensor \<Rightarrow> nat list \<Rightarrow> 'a tensor \<Rightarrow> 'a \<Rightarrow> error + 'a tensor" where
  "layer_norm K x normalized_shape weight eps =
     (if length normalized_shape = 1 \<and> shape x \<noteq> [] \<and> [last (shape x)] = normalized_shape
         \<and> shape weight = normalized_shape
      then Inr (along_last (layer_norm_row K eps (elems weight)) x)
      else Inl RuntimeError)"

text \<open>\<open>x.mean(-1, keepdim=True)\<close>.\<close>

definition mean_keepdim :: "'a kernels \<Rightarrow> 'a tensor \<Rightarrow> 'a tensor" where
  "mean_keepdim K x =
     (if shape x = [] then Tensor [] [mean_row K (elems x)]
      else tabulate (butlast (shape x) @ [1]) (\<lambda>idx. mean_row K (row_of x idx)))"

definition softmax_last :: "'a kernels \<Rightarrow> 'a tensor \<Rightarrow> 'a tensor" where
  "softmax_last K t = along_last (softmax_row K) t"

section \<open>Function bodies with an early return\<close>

text \<open>
  A statement either returns a value, raises, or hands the local variables on to the
  next statement.  \<open>seq stmt rest\<close> runs \<open>stmt\<close> and then, only if it neither returned
  nor raised, the rest of the body.
\<close>

datatype ('s, 'v) flow = Return 'v | Raise error | Next 's

definition seq :: "('s \<Rightarrow> ('s, 'v) flow) \<Rightarrow> ('s \<Rightarrow> error + 'v) \<Rightarrow> 's \<Rightarrow> error + 'v" where
  "seq stmt rest st =
     (case stmt st of Return v \<Rightarrow> Inr v | Raise e \<Rightarrow> Inl e | Next st' \<Rightarrow> rest st')"

definition return_stmt :: "('s \<Rightarrow> error + 'v) \<Rightarrow> 's \<Rightarrow> ('s, 'v) flow" where
  "return_stmt f st = (case f st of Inl e \<Rightarrow> Raise e | Inr v \<Rightarrow> Return v)"

definition assign_stmt :: "('s \<Rightarrow> error + 's) \<Rightarrow> 's \<Rightarrow> ('s, 'v) flow" where
  "assign_stmt f st = (case f st of Inl e \<Rightarrow> Raise e | Inr st' \<Rightarrow> Next st')"

section \<open>Configuration\<close>

text \<open>
  The fields of \<open>QwenConfig\<close> that the model reads.  Sizes are natural numbers: a
  negative size makes the constructors of the library raise before any code studied
  here runs.
\<close>

record 'a QwenConfig =
  hidden_size :: nat
  intermediate_size :: nat
  max_position_embeddings :: nat
  num_attention_heads :: nat
  num_hidden_layers :: nat
  num_key_value_heads :: nat
  head_dim :: nat
  rms_norm_eps :: 'a
  rope_theta :: 'a
  vocab_size :: nat

section \<open>Normalisation: QwenRMSNorm and QwenHeadNorm\<close>

record 'a QwenRMSNorm =
  rms_weight :: "'a tensor"
  rms_eps :: 'a

record 'a QwenHeadNorm =
  hn_weight :: "'a tensor"
  hn_eps :: 'a

text \<open>The local variables of the two \<open>forward\<close> bodies.\<close>

record 'a norm_locals =
  nl_x :: "'a tensor"
  nl_mean :: "'a tensor"
  nl_variance :: "'a tensor"

definition norm_locals_init :: "'a tensor \<Rightarrow> 'a norm_locals" where
  "norm_locals_init x = \<lparr>nl_x = x, nl_mean = Tensor [] [], nl_variance = Tensor [] []\<rparr>"

text \<open>
  The statements that follow the first \<open>return\<close> in both bodies (the "true RMSNorm"
  formula): \<open>variance = x.pow(2).mean(-1, keepdim=True)\<close>,
  \<open>x = x * torch.rsqrt(variance + eps)\<close>, \<open>return (weight * x).to(MODEL_DTYPE)\<close>.
\<close>

definition rmsnorm_tail ::
  "'a::{plus,times} kernels \<Rightarrow> 'a tensor \<Rightarrow> 'a \<Rightarrow> 'a norm_locals \<Rightarrow> error + 'a tensor" where
  "rmsnorm_tail K weight eps =
     seq (assign_stmt (\<lambda>st. Inr (st\<lparr>nl_variance :=
            mean_keepdim K (map_tensor (square K) (nl_x st))\<rparr>)))
    (seq (assign_stmt (\<lambda>st.
            and_then (elementwise (*) (nl_x st)
                        (map_tensor (\<lambda>v. rsqrt K (v + eps)) (nl_variance st)))
              (\<lambda>x. Inr (st\<lparr>nl_x := x\<rparr>))))
         (\<lambda>st. and_then (elementwise (*) weight (nl_x st))
                  (\<lambda>y. Inr (map_tensor (to_dtype K) y))))"

text \<open>
  The body of \<open>forward\<close> up to and including its first \<open>return\<close>, followed by whatever
  statements \<open>rest\<close> stand after it.
\<close>

definition norm_body ::
  "'a::minus kernels \<Rightarrow> 'a tensor \<Rightarrow> 'a \<Rightarrow> ('a norm_locals \<Rightarrow> error + 'a tensor)
     \<Rightarrow> 'a norm_locals \<Rightarrow> error + 'a tensor" where
  "norm_body K weight eps rest =
     seq (assign_stmt (\<lambda>st. Inr (st\<lparr>nl_mean := mean_keepdim K (nl_x st)\<rparr>)))
    (seq (assign_stmt (\<lambda>st.
            and_then (elementwise (-) (nl_x st) (nl_mean st)) (\<lambda>x. Inr (st\<lparr>nl_x := x\<rparr>))))
    (seq (return_stmt (\<lambda>st.
            and_then (layer_norm K (nl_x st) (shape weight) weight eps)
              (\<lambda>y. Inr (map_tensor (to_dtype K) y))))
         rest))"

definition QwenRMSNorm_forward ::
  "'a::{plus,minus,times} kernels \<Rightarrow> 'a QwenRMSNorm \<Rightarrow> 'a tensor \<Rightarrow> error + 'a tensor" where
  "QwenRMSNorm_forward K m hidden_states =
     norm_body K (rms_weight m) (rms_eps m) (rmsnorm_tail K (rms_weight m) (rms_eps m))
       (norm_locals_init hidden_states)"

definition QwenHeadNorm_forward ::
  "'a::{plus,minus,times} kernels \<Rightarrow> 'a QwenHeadNorm \<Rightarrow> 'a tensor \<Rightarrow> error + 'a tensor" where
  "QwenHeadNorm_forward K m x =
     norm_body K (hn_weight m) (hn_eps m) (rmsnorm_tail K (hn_weight m) (hn_eps m))
       (norm_locals_init x)"

section \<open>Rotary position embedding\<close>

record 'a QwenRotaryEmbedding =
  rot_dim :: nat
  inv_freq :: "'a tensor"
  cos_cached :: "'a tensor"
  sin_cached :: "'a tensor"

text \<open>\<open>torch.arange(0, n, 2)\<close>.\<close>

definition arange_step2 :: "nat \<Rightarrow> nat list" where
  "arange_step2 n = map (\<lambda>i. 2 * i) [0..<(n + 1) div 2]"

text \<open>
  The floating-point operations of the constructor, which the source performs in single
  precision: the conversion of an integer (\<open>.float()\<close>, \<open>type_as\<close>, a Python scalar
  operand), division, power, the product of the outer product, cosine and sine.
\<close>

record 'a float_ops =
  from_nat :: "nat \<Rightarrow> 'a"
  fdiv :: "'a \<Rightarrow> 'a \<Rightarrow> 'a"
  fpow :: "'a \<Rightarrow> 'a \<Rightarrow> 'a"
  fmul :: "'a \<Rightarrow> 'a \<Rightarrow> 'a"
  fcos :: "'a \<Rightarrow> 'a"
  fsin :: "'a \<Rightarrow> 'a"

text \<open>
  The constructor.  The default of \<open>getattr(config, "head_dim", ...)\<close> is evaluated
  before the call, so \<open>config.hidden_size // config.num_attention_heads\<close> raises for a
  configuration without attention heads although its value is never used.
\<close>

definition QwenRotaryEmbedding_init ::
  "'a float_ops \<Rightarrow> 'a QwenConfig \<Rightarrow> error + 'a QwenRotaryEmbedding" where
  "QwenRotaryEmbedding_init F config =
     (if num_attention_heads config = 0 then Inl ZeroDivisionError
      else
        let d = head_dim config;
            freq = map (\<lambda>j. fdiv F (from_nat F 1)
                               (fpow F (rope_theta config) (fdiv F (from_nat F j) (from_nat F d))))
                     (arange_step2 d);
            inv = Tensor [length freq] freq;
            p = max_position_embeddings config;
            t = Tensor [p] (map (from_nat F) [0..<p]);
            freqs = tabulate [p, length freq]
                      (\<lambda>idx. fmul F (item t [idx ! 0]) (item inv [idx ! 1]))
        in and_then (cat [freqs, freqs] 1) (\<lambda>emb.
             Inr \<lparr>rot_dim = d, inv_freq = inv,
                  cos_cached = unsqueeze 0 (map_tensor (fcos F) emb),
                  sin_cached = unsqueeze 0 (map_tensor (fsin F) emb)\<rparr>))"

definition QwenRotaryEmbedding_forward ::
  "'a kernels \<Rightarrow> 'a QwenRotaryEmbedding \<Rightarrow> 'a tensor \<Rightarrow> int tensor option
     \<Rightarrow> error + ('a tensor \<times> 'a tensor)" where
  "QwenRotaryEmbedding_forward K m x position_ids =
     (case position_ids of
        Some pids \<Rightarrow>
          (let pos_ids = (if length (shape pids) = 1 then pids else squeeze 0 pids) in
           and_then (gather_rows (cos_cached m) pos_ids) (\<lambda>c.
           and_then (gather_rows (sin_cached m) pos_ids) (\<lambda>s.
           Inr (map_tensor (to_dtype K) c, map_tensor (to_dtype K) s))))
      | None \<Rightarrow>
          (if length (shape x) < 2 then Inl IndexError
           else let seq_len = shape x ! 1 in
             Inr (map_tensor (to_dtype K) (slice 1 0 (int seq_len) (cos_cached m)),
                  map_tensor (to_dtype K) (slice 1 0 (int seq_len) (sin_cached m)))))"

definition rotate_half :: "'a::uminus tensor \<Rightarrow> error + 'a tensor" where
  "rotate_half x =
     (if shape x = [] then Inl IndexError
      else let ax = length (shape x) - 1; n = last (shape x);
               x1 = slice ax 0 (int (n div 2)) x;
               x2 = slice ax (int (n div 2)) (int n) x
           in cat [map_tensor uminus x2, x1] ax)"

definition apply_rotary_pos_emb ::
  "'a::{plus,times,uminus} tensor \<Rightarrow> 'a tensor \<Rightarrow> 'a tensor \<Rightarrow> 'a tensor
     \<Rightarrow> error + ('a tensor \<times> 'a tensor)" where
  "apply_rotary_pos_emb q k cos_t sin_t =
     (let cos_u = unsqueeze 1 cos_t; sin_u = unsqueeze 1 sin_t in
      and_then (elementwise (*) q cos_u) (\<lambda>qc.
      and_then (rotate_half q) (\<lambda>rq.
      and_then (elementwise (*) rq sin_u) (\<lambda>qs.
      and_then (elementwise (+) qc qs) (\<lambda>q_embed.
      and_then (elementwise (*) k cos_u) (\<lambda>kc.
      and_then (rotate_half k) (\<lambda>rk.
      and_then (elementwise (*) rk sin_u) (\<lambda>ks.
      and_then (elementwise (+) kc ks) (\<lambda>k_embed.
      Inr (q_embed, k_embed))))))))))"

section \<open>Grouped-query expansion\<close>

definition repeat_kv :: "'a tensor \<Rightarrow> nat \<Rightarrow> error + 'a tensor" where
  "repeat_kv hidden_states n_rep =
     (if n_rep = 1 then Inr hidden_states
      else case shape hidden_states of
        [bsz, n_kv, seq_len, hdim] \<Rightarrow>
          and_then (repeat [1, 1, n_rep, 1, 1] (unsqueeze 2 hidden_states))
            (view [bsz, n_kv * n_rep, seq_len, hdim])
      | _ \<Rightarrow> Inl ValueError)"

section \<open>Feed-forward block\<close>

record 'a QwenMLP =
  gate_proj :: "'a tensor"
  up_proj :: "'a tensor"
  down_proj :: "'a tensor"

definition QwenMLP_forward ::
  "'a::{zero,plus,times} kernels \<Rightarrow> 'a QwenMLP \<Rightarrow> 'a tensor \<Rightarrow> error + 'a tensor" where
  "QwenMLP_forward K m x =
     and_then (permute [0, 2, 1] (map_tensor (to_dtype K) x)) (\<lambda>p.
     let x4 = unsqueeze 2 p in
     and_then (conv2d (gate_proj m) x4) (\<lambda>a.
     and_then (conv2d (up_proj m) x4) (\<lambda>b.
     let c = map_tensor (silu K) a in
     and_then (elementwise (*) c b) (\<lambda>d.
     and_then (conv2d (down_proj m) d) (\<lambda>e.
     permute [0, 2, 1] (squeeze 2 e))))))"

section \<open>Attention block\<close>

record 'a QwenAttention =
  attn_hidden_size :: nat
  attn_num_heads :: nat
  attn_num_kv_heads :: nat
  attn_head_dim :: nat
  rotary_emb :: "'a QwenRotaryEmbedding"
  q_proj :: "'a tensor"
  k_proj :: "'a tensor"
  v_proj :: "'a tensor"
  o_proj :: "'a tensor"
  q_norm :: "'a QwenHeadNorm"
  k_norm :: "'a QwenHeadNorm"
  attn_scale :: 'a

text \<open>The current-position argument: a Python integer or an integer tensor.\<close>

datatype current_pos = PosInt int | PosTensor "int tensor"

text \<open>\<open>proj(hs).view(bsz, heads, head_dim, seq_len).permute(0, 1, 3, 2)\<close>.\<close>

definition project_heads ::
  "'a::{zero,plus,times} tensor \<Rightarrow> 'a tensor \<Rightarrow> nat \<Rightarrow> nat \<Rightarrow> nat \<Rightarrow> nat \<Rightarrow> error + 'a tensor" where
  "project_heads w hs bsz heads hdim seq_len =
     and_then (conv2d w hs) (\<lambda>y.
     and_then (view [bsz, heads, hdim, seq_len] y) (permute [0, 1, 3, 2]))"

text \<open>\<open>causal_mask[:, :, :seq_len, :seq_len]\<close>: four indices need a tensor of rank 4 or more.\<close>

definition slice_mask :: "nat \<Rightarrow> 'a tensor \<Rightarrow> error + 'a tensor" where
  "slice_mask seq_len causal_mask =
     (if length (shape causal_mask) < 4 then Inl IndexError
      else Inr (slice 3 0 (int seq_len) (slice 2 0 (int seq_len) causal_mask)))"

definition QwenAttention_forward ::
  "'a::{zero,plus,times,minus,uminus} kernels \<Rightarrow> 'a QwenAttention \<Rightarrow> 'a tensor
     \<Rightarrow> 'a tensor option \<Rightarrow> int tensor option \<Rightarrow> current_pos option \<Rightarrow> error + 'a tensor" where
  "QwenAttention_forward K m hidden_states causal_mask position_ids current_pos =
     (case shape hidden_states of
        [bsz, seq_len, h] \<Rightarrow>
          and_then (permute [0, 2, 1] hidden_states) (\<lambda>p.
          let hs = unsqueeze 2 p in
          and_then (project_heads (q_proj m) hs bsz (attn_num_heads m) (attn_head_dim m) seq_len)
            (\<lambda>query_states.
          and_then (project_heads (k_proj m) hs bsz (attn_num_kv_heads m) (attn_head_dim m) seq_len)
            (\<lambda>key_states.
          and_then (project_heads (v_proj m) hs bsz (attn_num_kv_heads m) (attn_head_dim m) seq_len)
            (\<lambda>value_states.
          if attn_num_kv_heads m = 0 then Inl ZeroDivisionError
          else
          let n_rep = attn_num_heads m div attn_num_kv_heads m in
          and_then (repeat_kv key_states n_rep) (\<lambda>key_states.
          and_then (repeat_kv value_states n_rep) (\<lambda>value_states.
          and_then (QwenHeadNorm_forward K (q_norm m) query_states) (\<lambda>query_states.
          and_then (QwenHeadNorm_forward K (k_norm m) key_states) (\<lambda>key_states.
          and_then (QwenRotaryEmbedding_forward K (rotary_emb m) hidden_states position_ids)
            (\<lambda>(cos_t, sin_t).
          and_then (apply_rotary_pos_emb query_states key_states cos_t sin_t)
            (\<lambda>(query_states, key_states).
          and_then (transpose_dims (- 2) (- 1) key_states) (\<lambda>kt.
          and_then (matmul query_states kt) (\<lambda>qk.
          let attn_weights = map_tensor (\<lambda>v. v * attn_scale m) qk in
          and_then
            (case causal_mask of
               None \<Rightarrow> Inr attn_weights
             | Some cm \<Rightarrow>
                 and_then (slice_mask seq_len cm) (\<lambda>causal_mask_slice.
                 elementwise (+) attn_weights (map_tensor (to_dtype K) causal_mask_slice)))
            (\<lambda>attn_weights.
          let attn_weights = softmax_last K attn_weights in
          and_then (matmul attn_weights value_states) (\<lambda>attn_output.
          and_then (permute [0, 2, 1, 3] attn_output) (\<lambda>attn_output.
          and_then (view_infer [bsz, seq_len] attn_output) (\<lambda>attn_output.
          and_then (permute [0, 2, 1] attn_output) (\<lambda>ap.
          and_then (conv2d (o_proj m) (unsqueeze 2 ap)) (\<lambda>out.
          permute [0, 2, 1] (squeeze 2 out)))))))))))))))))))
      | _ \<Rightarrow> Inl ValueError)"

section \<open>Decoder layer and decoder stack\<close>

record 'a QwenDecoderLayer =
  self_attn :: "'a QwenAttention"
  mlp :: "'a QwenMLP"
  input_layernorm :: "'a QwenRMSNorm"
  post_attention_layernorm :: "'a QwenRMSNorm"

definition QwenDecoderLayer_forward ::
  "'a::{zero,plus,times,minus,uminus} kernels \<Rightarrow> 'a QwenDecoderLayer \<Rightarrow> 'a tensor
     \<Rightarrow> 'a tensor option \<Rightarrow> int tensor option \<Rightarrow> current_pos option \<Rightarrow> error + 'a tensor" where
  "QwenDecoderLayer_forward K m hidden_states causal_mask position_ids current_pos =
     (let residual = hidden_states in
      and_then (QwenRMSNorm_forward K (input_layernorm m) hidden_states) (\<lambda>hidden_states.
      and_then (QwenAttention_forward K (self_attn m) hidden_states causal_mask position_ids
                  current_pos) (\<lambda>hidden_states.
      and_then (elementwise (+) residual hidden_states) (\<lambda>hidden_states.
      let residual = hidden_states in
      and_then (QwenRMSNorm_forward K (post_attention_layernorm m) hidden_states)
        (\<lambda>hidden_states.
      and_then (QwenMLP_forward K (mlp m) hidden_states) (\<lambda>hidden_states.
      elementwise (+) residual hidden_states))))))"

record 'a QwenModel =
  embed_tokens :: "'a tensor"
  layers :: "'a QwenDecoderLayer list"
  norm :: "'a QwenRMSNorm"

text \<open>The loop \<open>for layer in self.layers\<close>.\<close>

fun run_layers ::
  "'a::{zero,plus,times,minus,uminus} kernels \<Rightarrow> 'a QwenDecoderLayer list \<Rightarrow> 'a tensor
     \<Rightarrow> 'a tensor option \<Rightarrow> int tensor option \<Rightarrow> current_pos option \<Rightarrow> error + 'a tensor" where
  "run_layers K [] hidden_states causal_mask position_ids current_pos = Inr hidden_states"
| "run_layers K (layer # rest) hidden_states causal_mask position_ids current_pos =
     and_then (QwenDecoderLayer_forward K layer hidden_states causal_mask position_ids current_pos)
       (\<lambda>hidden_states. run_layers K rest hidden_states causal_mask position_ids current_pos)"

definition QwenModel_forward ::
  "'a::{zero,plus,times,minus,uminus} kernels \<Rightarrow> 'a QwenModel \<Rightarrow> int tensor
     \<Rightarrow> 'a tensor option \<Rightarrow> int tensor option \<Rightarrow> current_pos option \<Rightarrow> bool
     \<Rightarrow> error + 'a tensor" where
  "QwenModel_forward K m input_ids causal_mask position_ids current_pos IN_PREFILL =
     and_then (embedding (embed_tokens m) input_ids) (\<lambda>hidden_states.
     and_then (run_layers K (layers m) hidden_states causal_mask position_ids current_pos)
       (\<lambda>hidden_states.
     if IN_PREFILL then Inr hidden_states
     else QwenRMSNorm_forward K (norm m) hidden_states))"

section \<open>Strings\<close>

definition starts_with :: "string \<Rightarrow> string \<Rightarrow> bool" where
  "starts_with s p = (take (length p) s = p)"

definition ends_with :: "string \<Rightarrow> string \<Rightarrow> bool" where
  "ends_with s p = (length p \<le> length s \<and> drop (length s - length p) s = p)"

text \<open>\<open>contains s sub\<close> is Python's \<open>sub in s\<close>.\<close>

fun contains :: "string \<Rightarrow> string \<Rightarrow> bool" where
  "contains [] sub = (sub = [])"
| "contains (c # cs) sub = (starts_with (c # cs) sub \<or> contains cs sub)"

text \<open>\<open>remove_all old s\<close> is \<open>s.replace(old, "")\<close> for a non-empty \<open>old\<close>: every
  occurrence is removed, scanning from the left.\<close>

function remove_all :: "string \<Rightarrow> string \<Rightarrow> string" where
  "remove_all old s =
     (if old = [] \<or> s = [] then s
      else if starts_with s old then remove_all old (drop (length old) s)
      else hd s # remove_all old (tl s))"
  by pat_completeness auto
termination
  by (relation "measure (\<lambda>(old, s). length s)") auto

definition digit_char :: "nat \<Rightarrow> char" where
  "digit_char n = ''0123456789'' ! n"

text \<open>The decimal numeral of a natural number, as an f-string prints it.\<close>

fun show_nat :: "nat \<Rightarrow> string" where
  "show_nat n = (if n < 10 then [digit_char n] else show_nat (n div 10) @ [digit_char (n mod 10)])"

section \<open>The causal-LM model\<close>

text \<open>The module-level constants.\<close>

definition ENABLE_CONV2D :: bool where "ENABLE_CONV2D = True"
definition ENABLE_VACAB_SPLIT :: bool where "ENABLE_VACAB_SPLIT = True"
definition ENABLE_VACAB_SPLIT8 :: bool where "ENABLE_VACAB_SPLIT8 = False"
definition ENABLE_VACAB_SPLIT16 :: bool where "ENABLE_VACAB_SPLIT16 = True"
definition ENABLE_LOGITS2 :: bool where "ENABLE_LOGITS2 = True"

text \<open>
  The vocabulary-head projections are attributes set by name (\<open>setattr\<close>), so the
  object holds them as a map from attribute names to weights of shape \<open>[out, in, 1, 1]\<close>.
\<close>

record 'a QwenForCausalLM =
  lm_config :: "'a QwenConfig"
  enable_coreml :: bool
  lm_model :: "'a QwenModel"
  lm_heads :: "string \<rightharpoonup> 'a tensor"

datatype print_event =
    Print string
  | PrintKeys string "string list"
  | PrintShape string "nat list"

text \<open>
  \<open>nn.Conv2d(cin, cout, 1, bias=False)\<close> creates a weight of shape \<open>[cout, cin, 1, 1]\<close>
  with initial values of its own choosing, here the function \<open>g\<close>.
\<close>

definition Conv2d_weight :: "(nat list \<Rightarrow> 'a) \<Rightarrow> nat \<Rightarrow> nat \<Rightarrow> 'a tensor" where
  "Conv2d_weight g cin cout = tabulate [cout, cin, 1, 1] g"

text \<open>The loop \<open>for i in range(n): setattr(self, f"{stem}{i+1}", nn.Conv2d(...))\<close>.\<close>

definition create_split_heads ::
  "(string \<Rightarrow> nat list \<Rightarrow> 'a) \<Rightarrow> string \<Rightarrow> nat \<Rightarrow> nat \<Rightarrow> nat \<Rightarrow> (string \<rightharpoonup> 'a tensor)" where
  "create_split_heads g stem n hidden vocab =
     (let vocab_split = vocab div n; vocab_remainder = vocab mod n in
      fold (\<lambda>i attrs.
              let split_size = vocab_split + (if i < vocab_remainder then 1 else 0);
                  name = stem @ show_nat (i + 1)
              in attrs (name \<mapsto> Conv2d_weight (g name) hidden split_size))
        [0..<n] Map.empty)"

text \<open>The part of \<open>QwenForCausalLM.__init__\<close> that creates the vocabulary head.\<close>

definition init_lm_heads ::
  "'a QwenConfig \<Rightarrow> (string \<Rightarrow> nat list \<Rightarrow> 'a) \<Rightarrow> (string \<rightharpoonup> 'a tensor) \<times> print_event list" where
  "init_lm_heads config g =
     (if ENABLE_CONV2D then
        if ENABLE_VACAB_SPLIT16 then
          (create_split_heads g ''lm_head16_'' 16 (hidden_size config) (vocab_size config),
           [Print ''Created lm_head16_1 through lm_head16_16''])
        else if ENABLE_VACAB_SPLIT8 then
          (create_split_heads g ''lm_head8_'' 8 (hidden_size config) (vocab_size config),
           [Print ''Created lm_head8_1 through lm_head8_8''])
        else if ENABLE_VACAB_SPLIT then
          (Map.empty
             (''lm_head2_1'' \<mapsto> Conv2d_weight (g ''lm_head2_1'') (hidden_size config)
                                  (vocab_size config div 2),
              ''lm_head2_2'' \<mapsto> Conv2d_weight (g ''lm_head2_2'') (hidden_size config)
                                  (vocab_size config div 2)),
           [Print ''Created lm_head2_1 and lm_head2_2''])
        else
          (Map.empty (''lm_head1'' \<mapsto> Conv2d_weight (g ''lm_head1'') (hidden_size config)
                                        (vocab_size config)),
           [Print ''Created lm_head1''])
      else
        (Map.empty (''lm_head'' \<mapsto> Conv2d_weight (g ''lm_head'') (hidden_size config)
                                     (vocab_size config)),
         [Print ''Created linear lm_head'']))"

definition QwenForCausalLM_init ::
  "'a QwenConfig \<Rightarrow> bool \<Rightarrow> 'a QwenModel \<Rightarrow> (string \<Rightarrow> nat list \<Rightarrow> 'a)
     \<Rightarrow> 'a QwenForCausalLM \<times> print_event list" where
  "QwenForCausalLM_init config coreml model g =
     (case init_lm_heads config g of
        (heads, out) \<Rightarrow>
          (\<lparr>lm_config = config, enable_coreml = coreml, lm_model = model, lm_heads = heads\<rparr>,
           out))"

text \<open>The result of \<open>forward\<close>: one logits tensor, or the tuple of the shard outputs.\<close>

datatype 'a logits = Logits "'a tensor" | LogitsTuple "'a tensor list"

text \<open>\<open>self.<name>(hidden_states).squeeze(2).transpose(1, 2)\<close>.\<close>

definition head_logits ::
  "(string \<rightharpoonup> 'a::{zero,plus,times} tensor) \<Rightarrow> 'a tensor \<Rightarrow> string \<Rightarrow> error + 'a tensor" where
  "head_logits attrs hidden_states name =
     (case attrs name of
        None \<Rightarrow> Inl (AttributeError name)
      | Some w \<Rightarrow>
          and_then (conv2d w hidden_states) (\<lambda>y. transpose_dims 1 2 (squeeze 2 y)))"

text \<open>Consecutive statements, each of which may raise: the first error wins.\<close>

fun collect :: "('x \<Rightarrow> error + 'y) \<Rightarrow> 'x list \<Rightarrow> error + 'y list" where
  "collect f [] = Inr []"
| "collect f (x # xs) = and_then (f x) (\<lambda>y. and_then (collect f xs) (\<lambda>ys. Inr (y # ys)))"

definition head16_names :: "string list" where
  "head16_names =
     [''lm_head16_1'', ''lm_head16_2'', ''lm_head16_3'', ''lm_head16_4'',
      ''lm_head16_5'', ''lm_head16_6'', ''lm_head16_7'', ''lm_head16_8'',
      ''lm_head16_9'', ''lm_head16_10'', ''lm_head16_11'', ''lm_head16_12'',
      ''lm_head16_13'', ''lm_head16_14'', ''lm_head16_15'', ''lm_head16_16'']"

definition head8_names :: "string list" where
  "head8_names =
     [''lm_head8_1'', ''lm_head8_2'', ''lm_head8_3'', ''lm_head8_4'',
      ''lm_head8_5'', ''lm_head8_6'', ''lm_head8_7'', ''lm_head8_8'']"

text \<open>
  The shard branches of \<open>forward\<close>: every shard is applied in order, then the outputs
  are returned as a tuple (\<open>enable_coreml and ENABLE_LOGITS2\<close>) or concatenated along
  axis 2.
\<close>

definition split_head_forward ::
  "'a::{zero,plus,times} QwenForCausalLM \<Rightarrow> string list \<Rightarrow> 'a tensor \<Rightarrow> error + 'a logits" where
  "split_head_forward m names hidden_states =
     and_then (collect (head_logits (lm_heads m) hidden_states) names) (\<lambda>ls.
       if enable_coreml m \<and> ENABLE_LOGITS2 then Inr (LogitsTuple ls)
       else and_then (cat ls 2) (\<lambda>logits. Inr (Logits logits)))"

text \<open>The part of \<open>forward\<close> that projects to the vocabulary.\<close>

definition lm_head_forward ::
  "'a::{zero,plus,times} kernels \<Rightarrow> 'a QwenForCausalLM \<Rightarrow> 'a tensor \<Rightarrow> error + 'a logits" where
  "lm_head_forward K m hidden_states =
     (if ENABLE_CONV2D then
        and_then (permute [0, 2, 1] hidden_states) (\<lambda>p.
        let hidden_states = map_tensor (to_dtype K) (unsqueeze 2 p) in
        if ENABLE_VACAB_SPLIT16 then split_head_forward m head16_names hidden_states
        else if ENABLE_VACAB_SPLIT8 then split_head_forward m head8_names hidden_states
        else if ENABLE_VACAB_SPLIT then
          split_head_forward m [''lm_head2_1'', ''lm_head2_2''] hidden_states
        else
          and_then (head_logits (lm_heads m) hidden_states ''lm_head1'')
            (\<lambda>logits. Inr (Logits logits)))
      else
        and_then (permute [0, 2, 1] hidden_states) (\<lambda>p.
        case lm_heads m ''lm_head'' of
          None \<Rightarrow> Inl (AttributeError ''lm_head'')
        | Some w \<Rightarrow>
            and_then (conv2d w (unsqueeze 2 p)) (\<lambda>logits.
            and_then (permute [0, 2, 1] (squeeze 2 logits)) (\<lambda>logits. Inr (Logits logits)))))"

text \<open>The assertions at the head of \<open>forward\<close>.\<close>

definition forward_asserts :: "int tensor \<Rightarrow> int tensor option \<Rightarrow> bool \<Rightarrow> error + unit" where
  "forward_asserts input_ids position_ids IN_PREFILL =
     (if length (shape input_ids) \<noteq> 2 then Inl (AssertionError ''input_ids must be 2D'')
      else if \<not> IN_PREFILL then
        (case position_ids of
           None \<Rightarrow> Inl (AttributeError ''ndim'')
         | Some p \<Rightarrow>
             if length (shape p) = 1 \<or> length (shape p) = 2 then Inr ()
             else Inl (AssertionError ''position_ids must be 1D or 2D''))
      else
        (case position_ids of
           None \<Rightarrow> Inl (AttributeError ''shape'')
         | Some p \<Rightarrow>
             if shape p = [] then Inl IndexError
             else if last (shape p) = last (shape input_ids) then Inr ()
             else Inl (AssertionError ''position_ids length must match input_ids in prefill'')))"

text \<open>The extraction of the hidden state at the current position.\<close>

definition select_current_pos ::
  "'a tensor \<Rightarrow> bool \<Rightarrow> current_pos option \<Rightarrow> error + 'a tensor" where
  "select_current_pos hidden_states IN_PREFILL current_pos =
     (if \<not> IN_PREFILL \<and> current_pos \<noteq> None then
        (let pos_tensor =
           (case the current_pos of
              PosTensor t \<Rightarrow> if length (shape t) > 0 then t else unsqueeze 0 t
            | PosInt p \<Rightarrow> Tensor [1] [p])
         in index_select hidden_states 1 pos_tensor)
      else Inr hidden_states)"

definition QwenForCausalLM_forward ::
  "'a::{zero,plus,times,minus,uminus} kernels \<Rightarrow> 'a QwenForCausalLM \<Rightarrow> int tensor
     \<Rightarrow> 'a tensor option \<Rightarrow> int tensor option \<Rightarrow> 'a tensor option \<Rightarrow> current_pos option
     \<Rightarrow> bool \<Rightarrow> error + 'a logits" where
  "QwenForCausalLM_forward K m input_ids update_mask position_ids causal_mask current_pos
       IN_PREFILL =
     and_then (forward_asserts input_ids position_ids IN_PREFILL) (\<lambda>_.
     and_then (QwenModel_forward K (lm_model m) input_ids causal_mask position_ids current_pos
                 IN_PREFILL) (\<lambda>hidden_states.
     and_then (select_current_pos hidden_states IN_PREFILL current_pos) (\<lambda>hidden_states.
     lm_head_forward K m hidden_states)))"

subsection \<open>The prefill entry point\<close>

text \<open>
  The interpreter state that \<open>prefill_kv_cache\<close> touches: the gradient mode, which
  \<open>with torch.no_grad()\<close> switches off and restores, and a log of the calls of the
  decoder stack, each with its \<open>IN_PREFILL\<close> flag and the gradient mode it ran under.
\<close>

record exec_state =
  grad_enabled :: bool
  stack_calls :: "(bool \<times> bool) list"

definition call_model ::
  "'a::{zero,plus,times,minus,uminus} kernels \<Rightarrow> 'a QwenModel \<Rightarrow> int tensor
     \<Rightarrow> 'a tensor option \<Rightarrow> int tensor option \<Rightarrow> current_pos option \<Rightarrow> bool
     \<Rightarrow> exec_state \<Rightarrow> (error + 'a tensor) \<times> exec_state" where
  "call_model K m input_ids causal_mask position_ids current_pos IN_PREFILL st =
     (QwenModel_forward K m input_ids causal_mask position_ids current_pos IN_PREFILL,
      st\<lparr>stack_calls := stack_calls st @ [(IN_PREFILL, grad_enabled st)]\<rparr>)"

text \<open>\<open>None\<close>, the value of a Python function that ends without \<open>return\<close>, is \<open>()\<close>.\<close>

definition prefill_kv_cache ::
  "'a::{zero,plus,times,minus,uminus} kernels \<Rightarrow> 'a QwenForCausalLM \<Rightarrow> int tensor
     \<Rightarrow> int tensor option \<Rightarrow> current_pos option \<Rightarrow> 'a tensor option
     \<Rightarrow> exec_state \<Rightarrow> (error + unit) \<times> exec_state" where
  "prefill_kv_cache K m input_ids position_ids start_pos causal_mask st =
     (if length (shape input_ids) < 2 then (Inl IndexError, st)
      else
        let seq_len = shape input_ids ! 1 in
        case (case causal_mask of
                None \<Rightarrow> Inr None
              | Some cm \<Rightarrow> if length (shape cm) < 4 then Inl IndexError
                           else Inr (Some (slice 2 0 (int seq_len) cm))) of
          Inl e \<Rightarrow> (Inl e, st)
        | Inr causal_slice \<Rightarrow>
            (let saved = grad_enabled st;
                 (r, st') = call_model K (lm_model m) input_ids causal_slice position_ids
                              start_pos True (st\<lparr>grad_enabled := False\<rparr>);
                 st'' = st'\<lparr>grad_enabled := saved\<rparr>
             in (case r of Inl e \<Rightarrow> Inl e | Inr _ \<Rightarrow> Inr (), st'')))"


declare show_nat.simps [simp del]
declare remove_all.simps [simp del]

section \<open>Weight loading\<close>

text \<open>
  A checkpoint directory is what the loader sees of it: for a path that is a
  directory, the listing of its files, each with the tensors \<open>safetensors\<close> reads from
  it (in the file's order).  A dictionary is an association list in insertion order
  with unique keys.
\<close>

type_synonym 'a state_dict = "(string \<times> 'a tensor) list"

type_synonym 'a filesystem = "string \<Rightarrow> (string \<times> 'a state_dict) list option"

definition dict_set :: "('k \<times> 'v) list \<Rightarrow> 'k \<Rightarrow> 'v \<Rightarrow> ('k \<times> 'v) list" where
  "dict_set d k v =
     (if k \<in> set (map fst d) then map (\<lambda>(k', v'). if k' = k then (k', v) else (k', v')) d
      else d @ [(k, v)])"

definition dict_update :: "('k \<times> 'v) list \<Rightarrow> ('k \<times> 'v) list \<Rightarrow> ('k \<times> 'v) list" where
  "dict_update d new = fold (\<lambda>(k, v) acc. dict_set acc k v) new d"

text \<open>The loop over \<open>os.listdir(model_path)\<close> that fills \<open>state_dict\<close>.\<close>

definition read_checkpoint :: "(string \<times> 'a state_dict) list \<Rightarrow> 'a state_dict" where
  "read_checkpoint listing =
     fold (\<lambda>(file, content) sd.
             if ends_with file ''.safetensors'' then dict_update sd content else sd)
       listing []"

definition proj_names :: "string list" where
  "proj_names = [''q_proj.weight'', ''k_proj.weight'', ''v_proj.weight'', ''o_proj.weight'',
                 ''gate_proj.weight'', ''up_proj.weight'', ''down_proj.weight'']"

text \<open>\<open>v.view(v.shape[0], v.shape[1], 1, 1)\<close>.\<close>

definition view_as_conv :: "'a tensor \<Rightarrow> error + 'a tensor" where
  "view_as_conv v =
     (if length (shape v) < 2 then Inl IndexError
      else view [shape v ! 0, shape v ! 1, 1, 1] v)"

text \<open>The loop that builds \<open>conv_state\<close>.\<close>

fun build_conv_state :: "'a state_dict \<Rightarrow> 'a state_dict \<Rightarrow> error + 'a state_dict" where
  "build_conv_state [] conv_state = Inr conv_state"
| "build_conv_state ((k, v) # rest) conv_state =
     (let new_k = (if starts_with k ''model.'' then remove_all ''model.'' k else k) in
      if contains new_k ''lm_head.weight'' then build_conv_state rest conv_state
      else if list_ex (contains new_k) proj_names then
        and_then (view_as_conv v) (\<lambda>w. build_conv_state rest (dict_set conv_state new_k w))
      else build_conv_state rest (dict_set conv_state new_k v))"

text \<open>
  \<open>Module.load_state_dict(incoming, strict=False)\<close> on a module whose own parameters
  and buffers are \<open>own\<close>: a tensor of a different shape than the parameter it is
  assigned to raises; otherwise the matching entries are copied into the parameters,
  each value converted to the precision of its parameter (\<open>conv k\<close> for the parameter
  \<open>k\<close>), and the keys the checkpoint lacks (missing) and the keys the module lacks
  (unexpected) are reported.
\<close>

definition load_state_dict ::
  "(string \<Rightarrow> 'a \<Rightarrow> 'a) \<Rightarrow> 'a state_dict \<Rightarrow> 'a state_dict
     \<Rightarrow> error + ('a state_dict \<times> string list \<times> string list)" where
  "load_state_dict conv own incoming =
     (if list_ex (\<lambda>(k, p). case map_of incoming k of
                              Some v \<Rightarrow> shape v \<noteq> shape p | None \<Rightarrow> False) own
      then Inl RuntimeError
      else Inr (map (\<lambda>(k, p). (k, case map_of incoming k of
                                      Some v \<Rightarrow> map_tensor (conv k) v | None \<Rightarrow> p)) own,
                filter (\<lambda>k. map_of incoming k = None) (map fst own),
                filter (\<lambda>k. map_of own k = None) (map fst incoming)))"

subsection \<open>The parameters of the decoder stack by name\<close>

definition QwenAttention_state_dict :: "string \<Rightarrow> 'a QwenAttention \<Rightarrow> 'a state_dict" where
  "QwenAttention_state_dict prefix a =
     [(prefix @ ''rotary_emb.inv_freq'', inv_freq (rotary_emb a)),
      (prefix @ ''q_proj.weight'', q_proj a),
      (prefix @ ''k_proj.weight'', k_proj a),
      (prefix @ ''v_proj.weight'', v_proj a),
      (prefix @ ''o_proj.weight'', o_proj a),
      (prefix @ ''q_norm.weight'', hn_weight (q_norm a)),
      (prefix @ ''k_norm.weight'', hn_weight (k_norm a))]"

definition QwenMLP_state_dict :: "string \<Rightarrow> 'a QwenMLP \<Rightarrow> 'a state_dict" where
  "QwenMLP_state_dict prefix m =
     [(prefix @ ''gate_proj.weight'', gate_proj m),
      (prefix @ ''up_proj.weight'', up_proj m),
      (prefix @ ''down_proj.weight'', down_proj m)]"

definition QwenDecoderLayer_state_dict :: "string \<Rightarrow> 'a QwenDecoderLayer \<Rightarrow> 'a state_dict" where
  "QwenDecoderLayer_state_dict prefix l =
     QwenAttention_state_dict (prefix @ ''self_attn.'') (self_attn l)
     @ QwenMLP_state_dict (prefix @ ''mlp.'') (mlp l)
     @ [(prefix @ ''input_layernorm.weight'', rms_weight (input_layernorm l)),
        (prefix @ ''post_attention_layernorm.weight'', rms_weight (post_attention_layernorm l))]"

definition layer_prefix :: "nat \<Rightarrow> string" where
  "layer_prefix i = ''layers.'' @ show_nat i @ ''.''"

definition QwenModel_state_dict :: "'a QwenModel \<Rightarrow> 'a state_dict" where
  "QwenModel_state_dict m =
     (''embed_tokens.weight'', embed_tokens m)
     # concat (map (\<lambda>(i, l). QwenDecoderLayer_state_dict (layer_prefix i) l)
                 (enumerate 0 (layers m)))
     @ [(''norm.weight'', rms_weight (norm m))]"

definition param :: "'a state_dict \<Rightarrow> string \<Rightarrow> 'a tensor \<Rightarrow> 'a tensor" where
  "param sd name old = (case map_of sd name of Some t \<Rightarrow> t | None \<Rightarrow> old)"

definition QwenDecoderLayer_assign ::
  "'a state_dict \<Rightarrow> string \<Rightarrow> 'a QwenDecoderLayer \<Rightarrow> 'a QwenDecoderLayer" where
  "QwenDecoderLayer_assign sd prefix l =
     (let a = self_attn l; ap = prefix @ ''self_attn.''; mp = prefix @ ''mlp.'' in
      l\<lparr>self_attn := a
           \<lparr>rotary_emb := (rotary_emb a)
              \<lparr>inv_freq := param sd (ap @ ''rotary_emb.inv_freq'') (inv_freq (rotary_emb a))\<rparr>,
            q_proj := param sd (ap @ ''q_proj.weight'') (q_proj a),
            k_proj := param sd (ap @ ''k_proj.weight'') (k_proj a),
            v_proj := param sd (ap @ ''v_proj.weight'') (v_proj a),
            o_proj := param sd (ap @ ''o_proj.weight'') (o_proj a),
            q_norm := (q_norm a)
              \<lparr>hn_weight := param sd (ap @ ''q_norm.weight'') (hn_weight (q_norm a))\<rparr>,
            k_norm := (k_norm a)
              \<lparr>hn_weight := param sd (ap @ ''k_norm.weight'') (hn_weight (k_norm a))\<rparr>\<rparr>,
        mlp := (mlp l)
           \<lparr>gate_proj := param sd (mp @ ''gate_proj.weight'') (gate_proj (mlp l)),
            up_proj := param sd (mp @ ''up_proj.weight'') (up_proj (mlp l)),
            down_proj := param sd (mp @ ''down_proj.weight'') (down_proj (mlp l))\<rparr>,
        input_layernorm := (input_layernorm l)
           \<lparr>rms_weight := param sd (prefix @ ''input_layernorm.weight'')
                             (rms_weight (input_layernorm l))\<rparr>,
        post_attention_layernorm := (post_attention_layernorm l)
           \<lparr>rms_weight := param sd (prefix @ ''post_attention_layernorm.weight'')
                             (rms_weight (post_attention_layernorm l))\<rparr>\<rparr>)"

definition QwenModel_assign :: "'a state_dict \<Rightarrow> 'a QwenModel \<Rightarrow> 'a QwenModel" where
  "QwenModel_assign sd m =
     m\<lparr>embed_tokens := param sd ''embed_tokens.weight'' (embed_tokens m),
       layers := map (\<lambda>(i, l). QwenDecoderLayer_assign sd (layer_prefix i) l)
                   (enumerate 0 (layers m)),
       norm := (norm m)\<lparr>rms_weight := param sd ''norm.weight'' (rms_weight (norm m))\<rparr>\<rparr>"

text \<open>
  The parameters held in the model's precision: the weights of the \<open>nn.Conv2d\<close>
  projections, created with \<open>dtype=MODEL_DTYPE\<close>.  The embedding, the norm weights and
  the rotary buffer are created in the library's default single precision.
\<close>

definition QwenDecoderLayer_half_params :: "string \<Rightarrow> string list" where
  "QwenDecoderLayer_half_params prefix =
     map (\<lambda>n. prefix @ ''self_attn.'' @ n)
       [''q_proj.weight'', ''k_proj.weight'', ''v_proj.weight'', ''o_proj.weight'']
     @ map (\<lambda>n. prefix @ ''mlp.'' @ n)
         [''gate_proj.weight'', ''up_proj.weight'', ''down_proj.weight'']"

definition QwenModel_half_params :: "'a QwenModel \<Rightarrow> string list" where
  "QwenModel_half_params m =
     concat (map (\<lambda>(i, l). QwenDecoderLayer_half_params (layer_prefix i))
               (enumerate 0 (layers m)))"

subsection \<open>QwenModel.load_pretrained_weights\<close>

text \<open>\<open>to_single\<close> is the conversion of a checkpoint value to single precision.\<close>

definition QwenModel_load_pretrained_weights ::
  "'a kernels \<Rightarrow> ('a \<Rightarrow> 'a) \<Rightarrow> 'a QwenModel \<Rightarrow> 'a filesystem \<Rightarrow> string
     \<Rightarrow> error + (bool \<times> 'a QwenModel \<times> print_event list)" where
  "QwenModel_load_pretrained_weights K to_single m fs model_path =
     (case fs model_path of
        None \<Rightarrow> Inl (FileNotFoundError model_path)
      | Some listing \<Rightarrow>
          (let state_dict = read_checkpoint listing in
           and_then (build_conv_state state_dict []) (\<lambda>conv_state.
           and_then (load_state_dict
                       (\<lambda>k. if k \<in> set (QwenModel_half_params m) then to_dtype K else to_single)
                       (QwenModel_state_dict m) conv_state)
             (\<lambda>(assigned, missing0, unexpected).
           let missing = filter (\<lambda>k. \<not> contains k ''rotary_emb.inv_freq'') missing0;
               out = (if missing \<noteq> [] \<or> unexpected \<noteq> []
                      then [PrintKeys ''Missing keys'' missing,
                            PrintKeys ''Unexpected keys'' unexpected]
                      else [])
           in Inr (missing = [] \<and> unexpected = [], QwenModel_assign assigned m, out)))))"

subsection \<open>QwenForCausalLM.load_pretrained_weights\<close>

text \<open>
  \<open>dst.copy_(src)\<close>: the source must be broadcastable to the shape of the destination,
  which keeps its shape and its precision: every value copied is converted to the
  precision of the destination, here by \<open>cast\<close>.
\<close>

definition copy_into :: "('a \<Rightarrow> 'a) \<Rightarrow> 'a tensor \<Rightarrow> 'a tensor \<Rightarrow> error + 'a tensor" where
  "copy_into cast dst src =
     (if broadcast_shape (shape src) (shape dst) = Some (shape dst)
      then Inr (tabulate (shape dst) (\<lambda>idx. cast (item src (broadcast_index (shape src) idx))))
      else Inl RuntimeError)"

text \<open>The loop \<open>for i, split in enumerate(splits): getattr(self, name).weight.data.copy_(split)\<close>.\<close>

fun copy_splits ::
  "('a \<Rightarrow> 'a) \<Rightarrow> string \<Rightarrow> (nat \<times> 'a tensor) list \<Rightarrow> (string \<rightharpoonup> 'a tensor)
     \<Rightarrow> print_event list \<Rightarrow> error + ((string \<rightharpoonup> 'a tensor) \<times> print_event list)" where
  "copy_splits cast stem [] attrs out = Inr (attrs, out)"
| "copy_splits cast stem ((i, split) # rest) attrs out =
     (let name = stem @ show_nat (i + 1) in
      case attrs name of
        None \<Rightarrow> Inl (AttributeError name)
      | Some dst \<Rightarrow>
          and_then (copy_into cast dst split) (\<lambda>w.
            copy_splits cast stem rest (attrs (name \<mapsto> w))
              (out @ [PrintShape (''Loaded '' @ name @ ''.weight with shape'') (shape split)])))"

definition split_sizes :: "nat \<Rightarrow> nat \<Rightarrow> nat list" where
  "split_sizes n vocab =
     (let vocab_split = vocab div n; vocab_remainder = vocab mod n in
      map (\<lambda>i. vocab_split + (if i < vocab_remainder then 1 else 0)) [0..<n])"

definition load_split_heads ::
  "('a \<Rightarrow> 'a) \<Rightarrow> string \<Rightarrow> nat \<Rightarrow> nat \<Rightarrow> 'a tensor \<Rightarrow> (string \<rightharpoonup> 'a tensor)
     \<Rightarrow> error + ((string \<rightharpoonup> 'a tensor) \<times> print_event list)" where
  "load_split_heads cast stem n vocab reshaped_weight attrs =
     and_then (split_with_sizes (split_sizes n vocab) reshaped_weight) (\<lambda>splits.
       copy_splits cast stem (enumerate 0 splits) attrs [])"

text \<open>The branch \<open>if lm_head_weight is not None\<close> of the loader.  The head projections
  are created with \<open>dtype=MODEL_DTYPE\<close>, so \<open>copy_\<close> converts to the model's precision.\<close>

definition load_lm_head ::
  "'a kernels \<Rightarrow> 'a QwenForCausalLM \<Rightarrow> 'a tensor
     \<Rightarrow> error + ((string \<rightharpoonup> 'a tensor) \<times> print_event list)" where
  "load_lm_head K m lm_head_weight =
     (if ENABLE_CONV2D then
        and_then (view_as_conv lm_head_weight) (\<lambda>reshaped_weight.
        if ENABLE_VACAB_SPLIT16 then
          load_split_heads (to_dtype K) ''lm_head16_'' 16 (vocab_size (lm_config m))
            reshaped_weight (lm_heads m)
        else if ENABLE_VACAB_SPLIT8 then
          load_split_heads (to_dtype K) ''lm_head8_'' 8 (vocab_size (lm_config m))
            reshaped_weight (lm_heads m)
        else if ENABLE_VACAB_SPLIT then
          (let vocab_split = vocab_size (lm_config m) div 2 in
           and_then (split_with_sizes [vocab_split, vocab_size (lm_config m) - vocab_split]
                       reshaped_weight) (\<lambda>splits.
           case (lm_heads m ''lm_head2_1'', lm_heads m ''lm_head2_2'') of
             (Some d1, Some d2) \<Rightarrow>
               and_then (copy_into (to_dtype K) d1 (splits ! 0)) (\<lambda>w1.
               and_then (copy_into (to_dtype K) d2 (splits ! 1)) (\<lambda>w2.
               Inr ((lm_heads m) (''lm_head2_1'' \<mapsto> w1, ''lm_head2_2'' \<mapsto> w2),
                    [Print ''Loaded lm_head2_1.weight and lm_head2_2.weight''])))
           | (None, _) \<Rightarrow> Inl (AttributeError ''lm_head2_1'')
           | (_, None) \<Rightarrow> Inl (AttributeError ''lm_head2_2'')))
        else
          (case lm_heads m ''lm_head1'' of
             None \<Rightarrow> Inl (AttributeError ''lm_head1'')
           | Some d \<Rightarrow>
               and_then (copy_into (to_dtype K) d reshaped_weight) (\<lambda>w.
               Inr ((lm_heads m) (''lm_head1'' \<mapsto> w), [Print ''Loaded lm_head1.weight'']))))
      else
        (case lm_heads m ''lm_head'' of
           None \<Rightarrow> Inl (AttributeError ''lm_head'')
         | Some d \<Rightarrow>
             and_then (view_as_conv lm_head_weight) (\<lambda>w.
             and_then (copy_into (to_dtype K) d w) (\<lambda>w'.
             Inr ((lm_heads m) (''lm_head'' \<mapsto> w'), [])))))"

definition QwenForCausalLM_load_pretrained_weights ::
  "'a kernels \<Rightarrow> ('a \<Rightarrow> 'a) \<Rightarrow> 'a QwenForCausalLM \<Rightarrow> 'a filesystem \<Rightarrow> string
     \<Rightarrow> error + (bool \<times> 'a QwenForCausalLM \<times> print_event list)" where
  "QwenForCausalLM_load_pretrained_weights K to_single m fs model_path =
     and_then (QwenModel_load_pretrained_weights K to_single (lm_model m) fs model_path)
       (\<lambda>(ok, model', out).
     let m' = m\<lparr>lm_model := model'\<rparr> in
     if \<not> ok then Inr (False, m', out)
     else
       (case fs model_path of
          None \<Rightarrow> Inl (FileNotFoundError model_path)
        | Some listing \<Rightarrow>
            (let state_dict = read_checkpoint listing in
             case map_of state_dict ''lm_head.weight'' of
               Some lm_head_weight \<Rightarrow>
                 and_then (load_lm_head K m' lm_head_weight) (\<lambda>(heads, out2).
                   Inr (True, m'\<lparr>lm_heads := heads\<rparr>, out @ out2))
             | None \<Rightarrow>
                 Inr (False, m',
                      out @ [Print ''Warning: lm_head.weight not found in model weights'']))))"

subsection \<open>The single unsplit head\<close>

text \<open>
  The head as one projection, which is the last \<open>else\<close> branch of the three places above
  taken together: the constructor creates \<open>lm_head1 = nn.Conv2d(hidden_size, vocab_size, 1)\<close>
  (with initial weights \<open>g\<close>), the loader copies the whole reshaped weight into it, and
  \<open>forward\<close> returns \<open>lm_head1(hidden_states).squeeze(2).transpose(1, 2)\<close>.
\<close>

definition unsplit_projection ::
  "'a::{zero,plus,times} kernels \<Rightarrow> (nat list \<Rightarrow> 'a) \<Rightarrow> nat \<Rightarrow> nat \<Rightarrow> 'a tensor \<Rightarrow> 'a tensor
     \<Rightarrow> error + 'a logits" where
  "unsplit_projection K g hidden vocab lm_head_weight hidden_states =
     and_then (view_as_conv lm_head_weight) (\<lambda>reshaped_weight.
     and_then (copy_into (to_dtype K) (Conv2d_weight g hidden vocab) reshaped_weight) (\<lambda>w.
     and_then (permute [0, 2, 1] hidden_states) (\<lambda>p.
     and_then (head_logits (Map.empty (''lm_head1'' \<mapsto> w))
                 (map_tensor (to_dtype K) (unsqueeze 2 p)) ''lm_head1'')
       (\<lambda>logits. Inr (Logits logits)))))"


section \<open>A small instance\<close>

text \<open>
  A concrete instance on which the definitions above are run: kernels over the
  integers (any functions of the right types are kernels), a configuration with
  hidden size 2 and a vocabulary of 3 tokens, a decoder stack with no layers, and the
  causal-LM object that the constructor builds from them with zero initial weights.
\<close>

definition toy_kernels :: "int kernels" where
  "toy_kernels =
     \<lparr>layer_norm_row = (\<lambda>eps w row. map2 (*) row w),
      softmax_row = (\<lambda>row. row),
      mean_row = (\<lambda>row. sum_list row div int (length row)),
      silu = (\<lambda>x. x),
      square = (\<lambda>x. x * x),
      rsqrt = (\<lambda>x. x),
      to_dtype = (\<lambda>x. x)\<rparr>"

definition toy_config :: "int QwenConfig" where
  "toy_config =
     \<lparr>hidden_size = 2, intermediate_size = 2, max_position_embeddings = 4,
      num_attention_heads = 1, num_hidden_layers = 0, num_key_value_heads = 1,
      head_dim = 2, rms_norm_eps = 0, rope_theta = 1, vocab_size = 3\<rparr>"

definition toy_model :: "int QwenModel" where
  "toy_model =
     \<lparr>embed_tokens = Tensor [3, 2] [1, 2, 3, 4, 5, 6],
      layers = [],
      norm = \<lparr>rms_weight = Tensor [2] [1, 1], rms_eps = 0\<rparr>\<rparr>"

definition toy_lm :: "int QwenForCausalLM" where
  "toy_lm = fst (QwenForCausalLM_init toy_config False toy_model (\<lambda>name idx. 0))"


text \<open>A decoder layer with one query head and one key/value head of dimension 2, and the
  stack and causal-LM object that hold it.\<close>

definition toy_layer :: "int QwenDecoderLayer" where
  "toy_layer =
     \<lparr>self_attn =
        \<lparr>attn_hidden_size = 2, attn_num_heads = 1, attn_num_kv_heads = 1, attn_head_dim = 2,
         rotary_emb = \<lparr>rot_dim = 2, inv_freq = Tensor [1] [1],
                        cos_cached = Tensor [1, 4, 2] [1, 1, 2, 2, 3, 3, 4, 4],
                        sin_cached = Tensor [1, 4, 2] [0, 0, 1, 1, 2, 2, 3, 3]\<rparr>,
         q_proj = Tensor [2, 2, 1, 1] [1, 0, 0, 1],
         k_proj = Tensor [2, 2, 1, 1] [1, 1, 0, 1],
         v_proj = Tensor [2, 2, 1, 1] [2, 0, 0, 1],
         o_proj = Tensor [2, 2, 1, 1] [1, 0, 1, 1],
         q_norm = \<lparr>hn_weight = Tensor [2] [1, 2], hn_eps = 0\<rparr>,
         k_norm = \<lparr>hn_weight = Tensor [2] [2, 1], hn_eps = 0\<rparr>,
         attn_scale = 1\<rparr>,
      mlp = \<lparr>gate_proj = Tensor [2, 2, 1, 1] [1, 0, 0, 1],
              up_proj = Tensor [2, 2, 1, 1] [1, 1, 1, 0],
              down_proj = Tensor [2, 2, 1, 1] [0, 1, 1, 0]\<rparr>,
      input_layernorm = \<lparr>rms_weight = Tensor [2] [1, 1], rms_eps = 0\<rparr>,
      post_attention_layernorm = \<lparr>rms_weight = Tensor [2] [1, 1], rms_eps = 0\<rparr>\<rparr>"

definition toy_model1 :: "int QwenModel" where
  "toy_model1 = toy_model\<lparr>layers := [toy_layer]\<rparr>"

definition toy_lm1 :: "int QwenForCausalLM" where
  "toy_lm1 = toy_lm\<lparr>lm_model := toy_model1\<rparr>"

text \<open>A configuration over the real numbers, for the constructor of the rotary tables.\<close>

definition toy_rotary_config :: "real QwenConfig" where
  "toy_rotary_config =
     \<lparr>hidden_size = 2, intermediate_size = 2, max_position_embeddings = 2,
      num_attention_heads = 1, num_hidden_layers = 1, num_key_value_heads = 1,
      head_dim = 2, rms_norm_eps = 0, rope_theta = 4, vocab_size = 3\<rparr>"

section \<open>The kernels over the real numbers\<close>

text \<open>
  The kernels in exact real arithmetic, from the documentation of the library:
  \<open>F.layer_norm\<close> with a weight and no bias is
  \<open>(x - E[x]) / sqrt (Var[x] + eps) * weight\<close> with the biased variance, the softmax is
  \<open>exp x / \<Sum> exp\<close>, and SiLU is \<open>x * sigmoid x\<close>.  The conversion to the working
  precision stays a parameter.
\<close>

definition real_mean :: "real list \<Rightarrow> real" where
  "real_mean row = sum_list row / real (length row)"

definition real_layer_norm_row :: "real \<Rightarrow> real list \<Rightarrow> real list \<Rightarrow> real list" where
  "real_layer_norm_row eps w row =
     (let mu = real_mean row; var = real_mean (map (\<lambda>x. (x - mu)\<^sup>2) row) in
      map2 (\<lambda>x g. (x - mu) / sqrt (var + eps) * g) row w)"

definition real_kernels :: "(real \<Rightarrow> real) \<Rightarrow> real kernels" where
  "real_kernels cast =
     \<lparr>layer_norm_row = real_layer_norm_row,
      softmax_row = (\<lambda>row. map (\<lambda>x. exp x / sum_list (map exp row)) row),
      mean_row = real_mean,
      silu = (\<lambda>x. x * (1 / (1 + exp (- x)))),
      square = (\<lambda>x. x\<^sup>2),
      rsqrt = (\<lambda>x. 1 / sqrt x),
      to_dtype = cast\<rparr>"

text \<open>The floating-point operations in exact real arithmetic; \<open>theta powr e\<close> is
  \<open>theta ** e\<close> for a positive base.\<close>

definition real_float_ops :: "real float_ops" where
  "real_float_ops =
     \<lparr>from_nat = real, fdiv = (/), fpow = (powr), fmul = (*), fcos = cos, fsin = sin\<rparr>"

section \<open>An instance with a vocabulary of seventeen tokens\<close>

text \<open>
  The decoder stack with the one layer above and an embedding for seventeen tokens; the
  causal-LM object that the constructor builds around it, whose sixteen shards have two
  rows for the first and one row for each of the others; a head weight of seventeen
  rows; and the object after the loader has copied that weight into the shards.
  \<open>coarse_kernels\<close> converts to a precision that holds the even numbers only.
\<close>

definition vocab17_config :: "int QwenConfig" where
  "vocab17_config = toy_config\<lparr>num_hidden_layers := 1, vocab_size := 17\<rparr>"

definition vocab17_model :: "int QwenModel" where
  "vocab17_model =
     \<lparr>embed_tokens = Tensor [17, 2] (map int [0..<34]),
      layers = [toy_layer],
      norm = \<lparr>rms_weight = Tensor [2] [1, 1], rms_eps = 0\<rparr>\<rparr>"

definition vocab17_empty :: "int QwenForCausalLM" where
  "vocab17_empty = fst (QwenForCausalLM_init vocab17_config False vocab17_model (\<lambda>name idx. 0))"

definition vocab17_head :: "int tensor" where
  "vocab17_head = Tensor [17, 2] (map (\<lambda>i. int i + 1) [0..<34])"

definition vocab17_lm :: "int QwenForCausalLM" where
  "vocab17_lm =
     (case load_lm_head toy_kernels vocab17_empty vocab17_head of
        Inr (heads, out) \<Rightarrow> vocab17_empty\<lparr>lm_heads := heads\<rparr>
      | Inl e \<Rightarrow> vocab17_empty)"

definition coarse_kernels :: "int kernels" where
  "coarse_kernels = toy_kernels\<lparr>to_dtype := (\<lambda>x. 2 * (x div 2))\<rparr>"



section \<open>Index arithmetic and tensor extensionality\<close>

lemma ravel_less: "valid_index sh idx \<Longrightarrow> ravel sh idx < prod_list sh"
proof (induction sh idx rule: ravel.induct)
  case (1 n ns i "is")
  then have i: "i < n" and v: "valid_index ns is" by (simp_all add: valid_index_def)
  have r: "ravel ns is < prod_list ns" using 1 v by simp
  have "i * prod_list ns + ravel ns is < (Suc i) * prod_list ns" using r by simp
  also have "\<dots> \<le> n * prod_list ns" using i by (simp add: Suc_leI mult_le_mono1 del: mult_Suc)
  finally show ?case by simp
qed (auto simp: valid_index_def)

lemma unravel_ravel: "valid_index sh idx \<Longrightarrow> unravel sh (ravel sh idx) = idx"
proof (induction sh idx rule: ravel.induct)
  case (1 n ns i "is")
  then have v: "valid_index ns is" by (simp add: valid_index_def)
  have r: "ravel ns is < prod_list ns" using v by (rule ravel_less)
  show ?case using 1 v r by simp
qed (auto simp: valid_index_def)

lemma valid_unravel: "k < prod_list sh \<Longrightarrow> valid_index sh (unravel sh k)"
proof (induction sh arbitrary: k)
  case Nil then show ?case by (simp add: valid_index_def)
next
  case (Cons n ns)
  have p: "0 < prod_list ns" using Cons.prems by (cases "prod_list ns = 0") auto
  have "k div prod_list ns < n" using Cons.prems p by (simp add: less_mult_imp_div_less mult.commute)
  moreover have "valid_index ns (unravel ns (k mod prod_list ns))" using p by (intro Cons.IH) simp
  ultimately show ?case by (simp add: valid_index_def)
qed

lemma ravel_unravel: "k < prod_list sh \<Longrightarrow> ravel sh (unravel sh k) = k"
proof (induction sh arbitrary: k)
  case Nil then show ?case by simp
next
  case (Cons n ns)
  have p: "0 < prod_list ns" using Cons.prems by (cases "prod_list ns = 0") auto
  have "ravel ns (unravel ns (k mod prod_list ns)) = k mod prod_list ns" using p by (intro Cons.IH) simp
  then show ?case by simp
qed

lemma shape_tabulate [simp]: "shape (tabulate sh f) = sh"
  by (simp add: tabulate_def)

lemma wf_tabulate [simp]: "wf_tensor (tabulate sh f)"
  by (simp add: tabulate_def wf_tensor_def)

lemma item_tabulate: "valid_index sh idx \<Longrightarrow> item (tabulate sh f) idx = f idx"
  by (simp add: item_def tabulate_def ravel_less unravel_ravel)

lemma tensor_eqI:
  assumes "wf_tensor a" "wf_tensor b" "shape a = shape b"
    and "\<And>idx. valid_index (shape a) idx \<Longrightarrow> item a idx = item b idx"
  shows "a = b"
proof -
  have "elems a = elems b"
  proof (rule nth_equalityI)
    show "length (elems a) = length (elems b)" using assms(1-3) by (simp add: wf_tensor_def)
  next
    fix k assume "k < length (elems a)"
    then have k: "k < prod_list (shape a)" using assms(1) by (simp add: wf_tensor_def)
    have "item a (unravel (shape a) k) = item b (unravel (shape a) k)"
      using assms(4) valid_unravel [OF k] by simp
    then show "elems a ! k = elems b ! k"
      using k assms(3) by (simp add: item_def ravel_unravel)
  qed
  then show ?thesis using assms(3) by (simp add: tensor.expand)
qed

lemma valid_index_Cons [simp]:
  "valid_index (n # ns) (i # is) = (i < n \<and> valid_index ns is)"
  by (simp add: valid_index_def)

lemma valid_index_Nil [simp]: "valid_index [] []"
  by (simp add: valid_index_def)

lemma valid_index_length: "valid_index sh idx \<Longrightarrow> length idx = length sh"
  by (simp add: valid_index_def list_all2_lengthD)

lemma valid_index_nth: "valid_index sh idx \<Longrightarrow> k < length sh \<Longrightarrow> idx ! k < sh ! k"
  by (simp add: valid_index_def list_all2_nthD2)

section \<open>Grouped-query expansion replicates contiguously\<close>

lemma mult_add_less: "(i::nat) < a \<Longrightarrow> j < n \<Longrightarrow> i * n + j < a * n"
proof -
  assume i: "i < a" and j: "j < n"
  have "i * n + j < Suc i * n" using j by simp
  also have "\<dots> \<le> a * n" using i by (simp add: Suc_leI mult_le_mono1 del: mult_Suc)
  finally show ?thesis .
qed

lemma repeat_kv_item:
  assumes sh: "shape t = [B, Nkv, S, D]"
    and n: "n_rep \<noteq> 1"
    and b: "b < B" and i: "i < Nkv" and j: "j < n_rep" and s: "s < S" and d: "d < D"
  shows "\<exists>r. repeat_kv t n_rep = Inr r \<and> shape r = [B, Nkv * n_rep, S, D] \<and> wf_tensor r
           \<and> item r [b, i * n_rep + j, s, d] = item t [b, i, s, d]"
proof -
  let ?u = "unsqueeze 2 t"
  let ?sh5 = "[B, Nkv, n_rep, S, D]"
  let ?r5 = "tabulate ?sh5 (\<lambda>idx. item ?u (map2 (\<lambda>i n. i mod n) idx (shape ?u)))"
  have shu: "shape ?u = [B, Nkv, 1, S, D]" using sh by (simp add: unsqueeze_def)
  have rep: "repeat [1, 1, n_rep, 1, 1] ?u = Inr ?r5"
    by (simp add: repeat_def shu)
  let ?r = "Tensor [B, Nkv * n_rep, S, D] (elems ?r5)"
  have v: "repeat_kv t n_rep = Inr ?r"
    using n sh rep by (simp add: repeat_kv_def and_then_def view_def)
  have wfr: "wf_tensor ?r"
    by (simp add: wf_tensor_def tabulate_def)
  have "item ?r [b, i * n_rep + j, s, d] = item ?r5 [b, i, j, s, d]"
    by (simp add: item_def algebra_simps)
  also have "\<dots> = item ?u [b, i, 0, s, d]"
    using b i j s d by (simp add: item_tabulate shu)
  also have "\<dots> = item t [b, i, s, d]"
    by (simp add: item_def shu sh unsqueeze_def)
  finally show ?thesis using v wfr by simp
qed

lemma repeat_kv_result:
  assumes sh: "shape t = [B, Nkv, S, D]" and n: "n_rep \<noteq> 1"
  shows "repeat_kv t n_rep =
     Inr (Tensor [B, Nkv * n_rep, S, D]
            (elems (tabulate [B, Nkv, n_rep, S, D]
               (\<lambda>idx. item (unsqueeze 2 t) (map2 (\<lambda>i n. i mod n) idx [B, Nkv, 1, S, D])))))"
  using sh n by (simp add: repeat_kv_def and_then_def view_def repeat_def unsqueeze_def)

text \<open>
  Claim C4.  For a tensor of shape \<open>[B, Nkv, S, D]\<close> and every repetition factor
  \<open>n_rep\<close>, \<open>repeat_kv\<close> returns a tensor of shape \<open>[B, Nkv * n_rep, S, D]\<close> in which
  the data of kv-head \<open>i\<close> stands at the head indices \<open>i * n_rep + j\<close> for \<open>j < n_rep\<close>
  (contiguous replication, not interleaving); with \<open>n_rep = 1\<close> the input is returned
  unchanged.
\<close>

theorem repeat_kv_contiguous:
  assumes sh: "shape t = [B, Nkv, S, D]" and wf: "wf_tensor t"
  shows "(\<exists>r. repeat_kv t n_rep = Inr r \<and> shape r = [B, Nkv * n_rep, S, D] \<and> wf_tensor r
            \<and> (\<forall>b<B. \<forall>i<Nkv. \<forall>j<n_rep. \<forall>s<S. \<forall>d<D.
                 item r [b, i * n_rep + j, s, d] = item t [b, i, s, d]))
         \<and> repeat_kv t 1 = Inr t"
proof (cases "n_rep = 1")
  case True
  then show ?thesis using sh wf by (auto simp: repeat_kv_def)
next
  case False
  let ?r = "Tensor [B, Nkv * n_rep, S, D]
            (elems (tabulate [B, Nkv, n_rep, S, D]
               (\<lambda>idx. item (unsqueeze 2 t) (map2 (\<lambda>i n. i mod n) idx [B, Nkv, 1, S, D]))))"
  have r: "repeat_kv t n_rep = Inr ?r" using repeat_kv_result [OF sh False] .
  have "item ?r [b, i * n_rep + j, s, d] = item t [b, i, s, d]"
    if "b < B" "i < Nkv" "j < n_rep" "s < S" "d < D" for b i j s d
    using repeat_kv_item [OF sh False that] r by simp
  moreover have "wf_tensor ?r" by (simp add: wf_tensor_def tabulate_def)
  ultimately show ?thesis using r by (simp add: repeat_kv_def)
qed

theorem repeat_kv_contiguous_witness:
  "repeat_kv (Tensor [1, 2, 1, 2] [10, 11, 20, 21 :: int]) 2
       = Inr (Tensor [1, 4, 1, 2] [10, 11, 10, 11, 20, 21, 20, 21])
   \<and> item (Tensor [1, 4, 1, 2] [10, 11, 10, 11, 20, 21, 20, 21 :: int]) [0, 3, 0, 1]
       = item (Tensor [1, 2, 1, 2] [10, 11, 20, 21 :: int]) [0, 1, 0, 1]"
proof -
  let ?t = "Tensor [1, 2, 1, 2] [10, 11, 20, 21 :: int]"
  let ?r = "Tensor [1, 4, 1, 2] [10, 11, 10, 11, 20, 21, 20, 21 :: int]"
  have sh: "shape ?t = [1, 2, 1, 2]" by simp
  have wf: "wf_tensor ?t" by (simp add: wf_tensor_def)
  have ev: "repeat_kv ?t 2 = Inr ?r"
    by code_simp
  have "\<forall>b<1. \<forall>i<2. \<forall>j<2. \<forall>s<1. \<forall>d<2. item ?r [b, i * 2 + j, s, d] = item ?t [b, i, s, d]"
    using repeat_kv_contiguous [OF sh wf, of 2] unfolding ev by simp
  from this [rule_format, of 0 1 1 0 1] have "item ?r [0, 3, 0, 1] = item ?t [0, 1, 0, 1]"
    by simp
  then show ?thesis using ev by simp
qed

section \<open>Validation of the arguments of forward\<close>

lemma and_then_Inl [simp]: "and_then (Inl e) f = Inl e"
  by (simp add: and_then_def)

lemma and_then_Inr [simp]: "and_then (Inr v) f = f v"
  by (simp add: and_then_def)

text \<open>
  Claim C7.  \<open>forward\<close> raises at once, with the assertion's message, when the token
  ids are not of rank 2; outside prefill also when the position ids are of neither
  rank 1 nor rank 2; in prefill when the last size of the position ids differs from
  that of the token ids.  The assertions pass exactly on the remaining inputs, and
  whatever they raise is what \<open>forward\<close> raises.
\<close>

theorem forward_validation:
  "(length (shape input_ids) \<noteq> 2 \<longrightarrow>
      QwenForCausalLM_forward K m input_ids um pos cm cur pf
        = Inl (AssertionError ''input_ids must be 2D''))
   \<and> (length (shape input_ids) = 2 \<and> \<not> pf \<and> pos = Some p
        \<and> length (shape p) \<noteq> 1 \<and> length (shape p) \<noteq> 2 \<longrightarrow>
      QwenForCausalLM_forward K m input_ids um pos cm cur pf
        = Inl (AssertionError ''position_ids must be 1D or 2D''))
   \<and> (length (shape input_ids) = 2 \<and> pf \<and> pos = Some p \<and> shape p \<noteq> []
        \<and> last (shape p) \<noteq> last (shape input_ids) \<longrightarrow>
      QwenForCausalLM_forward K m input_ids um pos cm cur pf
        = Inl (AssertionError ''position_ids length must match input_ids in prefill''))
   \<and> ((forward_asserts input_ids pos pf = Inr ()) =
        (length (shape input_ids) = 2
         \<and> (\<exists>q. pos = Some q
               \<and> (if pf then shape q \<noteq> [] \<and> last (shape q) = last (shape input_ids)
                   else length (shape q) = 1 \<or> length (shape q) = 2))))
   \<and> (\<forall>e. forward_asserts input_ids pos pf = Inl e \<longrightarrow>
         QwenForCausalLM_forward K m input_ids um pos cm cur pf = Inl e)"
  by (auto simp: QwenForCausalLM_forward_def forward_asserts_def split: option.splits)

theorem forward_validation_witness:
  "QwenForCausalLM_forward toy_kernels toy_lm (Tensor [3] [0, 1, 2]) None
       (Some (Tensor [3] [0, 1, 2])) None (Some (PosInt 0)) False
     = Inl (AssertionError ''input_ids must be 2D'')
   \<and> QwenForCausalLM_forward toy_kernels toy_lm (Tensor [1, 3] [0, 1, 2]) None
       (Some (Tensor [1, 1, 3] [0, 1, 2])) None (Some (PosInt 0)) False
     = Inl (AssertionError ''position_ids must be 1D or 2D'')
   \<and> QwenForCausalLM_forward toy_kernels toy_lm (Tensor [1, 3] [0, 1, 2]) None
       (Some (Tensor [2] [0, 1])) None (Some (PosInt 0)) True
     = Inl (AssertionError ''position_ids length must match input_ids in prefill'')
   \<and> forward_asserts (Tensor [1, 3] [0, 1, 2]) (Some (Tensor [3] [0, 1, 2])) False = Inr ()
   \<and> forward_asserts (Tensor [1, 3] [0, 1, 2]) (Some (Tensor [3] [0, 1, 2])) True = Inr ()"
proof -
  have a: "QwenForCausalLM_forward toy_kernels toy_lm (Tensor [3] [0, 1, 2]) None
       (Some (Tensor [3] [0, 1, 2])) None (Some (PosInt 0)) False
     = Inl (AssertionError ''input_ids must be 2D'')"
    using forward_validation [where input_ids = "Tensor [3] [0, 1, 2]" and K = toy_kernels
        and m = toy_lm and um = None and pos = "Some (Tensor [3] [0, 1, 2])" and cm = None
        and cur = "Some (PosInt 0)" and pf = False]
    by simp
  have b: "QwenForCausalLM_forward toy_kernels toy_lm (Tensor [1, 3] [0, 1, 2]) None
       (Some (Tensor [1, 1, 3] [0, 1, 2])) None (Some (PosInt 0)) False
     = Inl (AssertionError ''position_ids must be 1D or 2D'')"
    using forward_validation [where input_ids = "Tensor [1, 3] [0, 1, 2]" and K = toy_kernels
        and m = toy_lm and um = None and pos = "Some (Tensor [1, 1, 3] [0, 1, 2])"
        and p = "Tensor [1, 1, 3] [0, 1, 2]" and cm = None
        and cur = "Some (PosInt 0)" and pf = False]
    by simp
  have c: "QwenForCausalLM_forward toy_kernels toy_lm (Tensor [1, 3] [0, 1, 2]) None
       (Some (Tensor [2] [0, 1])) None (Some (PosInt 0)) True
     = Inl (AssertionError ''position_ids length must match input_ids in prefill'')"
    using forward_validation [where input_ids = "Tensor [1, 3] [0, 1, 2]" and K = toy_kernels
        and m = toy_lm and um = None and pos = "Some (Tensor [2] [0, 1])"
        and p = "Tensor [2] [0, 1]" and cm = None
        and cur = "Some (PosInt 0)" and pf = True]
    by simp
  have d: "forward_asserts (Tensor [1, 3] [0, 1, 2]) (Some (Tensor [3] [0, 1, 2])) False = Inr ()"
    using forward_validation [where input_ids = "Tensor [1, 3] [0, 1, 2]" and K = toy_kernels
        and m = toy_lm and um = None and pos = "Some (Tensor [3] [0, 1, 2])" and cm = None
        and cur = None and pf = False]
    by simp
  have e: "forward_asserts (Tensor [1, 3] [0, 1, 2]) (Some (Tensor [3] [0, 1, 2])) True = Inr ()"
    using forward_validation [where input_ids = "Tensor [1, 3] [0, 1, 2]" and K = toy_kernels
        and m = toy_lm and um = None and pos = "Some (Tensor [3] [0, 1, 2])" and cm = None
        and cur = None and pf = True]
    by simp
  show ?thesis using a b c d e by blast
qed

section \<open>Extraction of the current position\<close>

lemma tabulate_cong:
  assumes "\<And>idx. valid_index sh idx \<Longrightarrow> f idx = g idx"
  shows "tabulate sh f = tabulate sh g"
  unfolding tabulate_def using assms valid_unravel by simp

lemma valid_index3:
  "valid_index [a, b, c] idx \<Longrightarrow> \<exists>i j k. idx = [i, j, k] \<and> i < a \<and> j < b \<and> k < c"
  by (cases idx; simp add: valid_index_def list_all2_Cons2) (auto simp: list_all2_Cons2)

lemma index_select_one:
  assumes sh: "shape hs = [B, S, H]" and p: "0 \<le> p" "p < int S"
  shows "index_select hs 1 (Tensor [1] [p]) = Inr (slice 1 p (p + 1) hs)"
proof -
  have a: "slice_bound S p = nat p" using p by (simp add: slice_bound_def)
  have b: "slice_bound S (p + 1) = nat p + 1" using p by (simp add: slice_bound_def)
  have "tabulate [B, 1, H] (\<lambda>idx. item hs (idx [1 := nat ([p] ! (idx ! 1))]))
        = tabulate [B, 1, H] (\<lambda>idx. item hs (idx [1 := nat p + idx ! 1]))"
  proof (rule tabulate_cong)
    fix idx assume "valid_index [B, 1, H] idx"
    then obtain i j k where "idx = [i, j, k]" "j < 1"
      using valid_index3 [of B 1 H idx] by auto
    then show "item hs (idx [1 := nat ([p] ! (idx ! 1))]) = item hs (idx [1 := nat p + idx ! 1])"
      by simp
  qed
  then show ?thesis using sh p a b
    by (simp add: index_select_def slice_def narrow_def Let_def)
qed

lemma forward_after_stack:
  assumes "forward_asserts input_ids pos pf = Inr ()"
    and "QwenModel_forward K (lm_model m) input_ids cm pos cur pf = Inr hs"
  shows "QwenForCausalLM_forward K m input_ids um pos cm cur pf
           = and_then (select_current_pos hs pf cur) (lm_head_forward K m)"
  using assms by (simp add: QwenForCausalLM_forward_def)

text \<open>
  Claim C3.  In a call of \<open>forward\<close> outside prefill whose assertions pass, let the
  decoder stack return \<open>hidden_states\<close> of shape \<open>[B, S, H]\<close> and let the current
  position \<open>p\<close> (a Python integer, a 0-dimensional or a one-element tensor) lie inside the
  sequence.  Then what \<open>forward\<close> returns is the vocabulary projection of the one row
  that \<open>index_select\<close>, called on axis 1 with the run-time value of \<open>p\<close>, takes out of
  \<open>hidden_states\<close>: a \<open>[B, 1, H]\<close> tensor equal to the slice \<open>hidden_states[:, p:p+1, :]\<close>.
\<close>

theorem forward_selects_current_row:
  fixes K :: "'a::{zero,plus,times,minus,uminus} kernels"
  assumes asserts: "forward_asserts input_ids pos False = Inr ()"
    and stack: "QwenModel_forward K (lm_model m) input_ids cm pos (Some cur) False = Inr hs"
    and sh: "shape hs = [B, S, H]" and p: "0 \<le> p" "p < int S"
    and cur: "cur = PosInt p \<or> cur = PosTensor (Tensor [] [p]) \<or> cur = PosTensor (Tensor [1] [p])"
  shows "QwenForCausalLM_forward K m input_ids um pos cm (Some cur) False
           = lm_head_forward K m (slice 1 p (p + 1) hs)
         \<and> select_current_pos hs False (Some cur) = index_select hs 1 (Tensor [1] [p])
         \<and> index_select hs 1 (Tensor [1] [p]) = Inr (slice 1 p (p + 1) hs)
         \<and> shape (slice 1 p (p + 1) hs) = [B, 1, H]
         \<and> (\<forall>b<B. \<forall>h<H. item (slice 1 p (p + 1) hs) [b, 0, h] = item hs [b, nat p, h])"
proof -
  have a: "slice_bound S p = nat p" using p by (simp add: slice_bound_def)
  have b: "slice_bound S (p + 1) = nat p + 1" using p by (simp add: slice_bound_def)
  have sl: "slice 1 p (p + 1) hs = tabulate [B, 1, H] (\<lambda>idx. item hs (idx [1 := nat p + idx ! 1]))"
    using sh a b by (simp add: slice_def narrow_def Let_def)
  have 1: "select_current_pos hs False (Some cur) = index_select hs 1 (Tensor [1] [p])"
    using cur by (auto simp: select_current_pos_def unsqueeze_def)
  have 2: "index_select hs 1 (Tensor [1] [p]) = Inr (slice 1 p (p + 1) hs)"
    by (rule index_select_one [OF sh p])
  have 0: "QwenForCausalLM_forward K m input_ids um pos cm (Some cur) False
           = lm_head_forward K m (slice 1 p (p + 1) hs)"
    unfolding forward_after_stack [OF asserts stack] 1 2 by simp
  have 3: "shape (slice 1 p (p + 1) hs) = [B, 1, H]" unfolding sl by simp
  have 4: "item (slice 1 p (p + 1) hs) [b, 0, h] = item hs [b, nat p, h]" if "b < B" "h < H" for b h
    unfolding sl using that by (simp add: item_tabulate)
  show ?thesis using 0 1 2 3 4 by blast
qed

theorem forward_selects_current_row_witness:
  "QwenForCausalLM_forward toy_kernels vocab17_lm (Tensor [1, 2] [0, 2]) None
       (Some (Tensor [2] [0, 1])) (Some (Tensor [1, 1, 3, 3] [0, - 9, - 9, 0, 0, - 9, 0, 0, 0]))
       (Some (PosInt 1)) False
     = lm_head_forward toy_kernels vocab17_lm (Tensor [1, 1, 2] [0, 1])
   \<and> lm_head_forward toy_kernels vocab17_lm (Tensor [1, 1, 2] [0, 1])
     = Inr (Logits (Tensor [1, 1, 17] [2, 4, 6, 8, 10, 12, 14, 16, 18, 20, 22, 24, 26, 28, 30, 32, 34]))
   \<and> QwenModel_forward toy_kernels (lm_model vocab17_lm) (Tensor [1, 2] [0, 2])
       (Some (Tensor [1, 1, 3, 3] [0, - 9, - 9, 0, 0, - 9, 0, 0, 0])) (Some (Tensor [2] [0, 1]))
       (Some (PosInt 1)) False
     = Inr (Tensor [1, 2, 2] [- 4, 4, 0, 1])
   \<and> index_select (Tensor [1, 2, 2] [- 4, 4, 0, 1 :: int]) 1 (Tensor [1] [1])
     = Inr (Tensor [1, 1, 2] [0, 1])"
proof -
  let ?ids = "Tensor [1, 2] [0, 2 :: int]"
  let ?pos = "Some (Tensor [2] [0, 1 :: int])"
  let ?cm = "Some (Tensor [1, 1, 3, 3] [0, - 9, - 9, 0, 0, - 9, 0, 0, 0 :: int])"
  let ?hs = "Tensor [1, 2, 2] [- 4, 4, 0, 1 :: int]"
  have asserts: "forward_asserts ?ids ?pos False = Inr ()" by code_simp
  have stack: "QwenModel_forward toy_kernels (lm_model vocab17_lm) ?ids ?cm ?pos
                 (Some (PosInt 1)) False = Inr ?hs"
    by code_simp
  have sh: "shape ?hs = [1, 2, 2]" by simp
  have sl: "slice 1 1 (1 + 1) ?hs = Tensor [1, 1, 2] [0, 1]" by code_simp
  have hd: "lm_head_forward toy_kernels vocab17_lm (Tensor [1, 1, 2] [0, 1])
              = Inr (Logits (Tensor [1, 1, 17] [2, 4, 6, 8, 10, 12, 14, 16, 18, 20, 22, 24, 26, 28, 30, 32, 34]))"
    by code_simp
  note th = forward_selects_current_row [where K = toy_kernels and m = vocab17_lm
      and um = None and cur = "PosInt 1" and p = 1, OF asserts stack sh]
  have a: "QwenForCausalLM_forward toy_kernels vocab17_lm ?ids None ?pos ?cm
             (Some (PosInt 1)) False
           = lm_head_forward toy_kernels vocab17_lm (Tensor [1, 1, 2] [0, 1])"
    using th [THEN conjunct1] unfolding sl by simp
  have b: "index_select ?hs 1 (Tensor [1] [1]) = Inr (Tensor [1, 1, 2] [0, 1])"
    using th [THEN conjunct2, THEN conjunct2, THEN conjunct1] unfolding sl by simp
  show ?thesis using a hd stack b by blast
qed

section \<open>The two modes of the decoder stack and the prefill entry point\<close>

lemma and_then_assoc: "and_then (and_then r f) g = and_then r (\<lambda>x. and_then (f x) g)"
  by (cases r) simp_all

lemma run_layers_snoc:
  "run_layers K (ls @ [l]) h cm pos cur
     = and_then (run_layers K ls h cm pos cur) (\<lambda>h'. QwenDecoderLayer_forward K l h' cm pos cur)"
proof (induction ls arbitrary: h)
  case Nil
  show ?case by (cases "QwenDecoderLayer_forward K l h cm pos cur") simp_all
next
  case (Cons a ls)
  show ?case by (simp add: Cons.IH and_then_assoc)
qed

lemma prefill_kv_cache_run:
  assumes "2 \<le> length (shape ids)" and "\<And>c. cmask = Some c \<Longrightarrow> 4 \<le> length (shape c)"
  shows "prefill_kv_cache K lm ids pos start cmask st =
           (case QwenModel_forward K (lm_model lm) ids
                   (map_option (slice 2 0 (int (shape ids ! 1))) cmask) pos start True of
              Inl e \<Rightarrow> Inl e | Inr _ \<Rightarrow> Inr (),
            st\<lparr>stack_calls := stack_calls st @ [(True, False)]\<rparr>)"
proof (cases cmask)
  case None
  then show ?thesis using assms(1)
    by (simp add: prefill_kv_cache_def call_model_def Let_def)
next
  case (Some c)
  then have "4 \<le> length (shape c)" using assms(2) by simp
  then show ?thesis using assms(1) Some
    by (simp add: prefill_kv_cache_def call_model_def Let_def)
qed

text \<open>
  Claim C6.  In prefill mode the decoder stack returns the output of its layers (of
  the last layer, when there is one) with no final normalisation; in normal mode it
  returns the final normalisation of that same value.  The prefill entry point calls
  the stack exactly once, in prefill mode and with gradient tracking switched off,
  restores the gradient mode, discards the hidden state and returns no value.
\<close>

theorem decoder_stack_modes:
  "QwenModel_forward K m ids cm pos cur True
     = and_then (embedding (embed_tokens m) ids) (\<lambda>h. run_layers K (layers m) h cm pos cur)
   \<and> (layers m = ls @ [l] \<longrightarrow>
        QwenModel_forward K m ids cm pos cur True
          = and_then (embedding (embed_tokens m) ids) (\<lambda>h.
            and_then (run_layers K ls h cm pos cur) (\<lambda>h'.
            QwenDecoderLayer_forward K l h' cm pos cur)))
   \<and> QwenModel_forward K m ids cm pos cur False
       = and_then (QwenModel_forward K m ids cm pos cur True) (QwenRMSNorm_forward K (norm m))
   \<and> (2 \<le> length (shape ids) \<and> (\<forall>c. cmask = Some c \<longrightarrow> 4 \<le> length (shape c)) \<longrightarrow>
        prefill_kv_cache K lm ids pos start cmask st =
          (case QwenModel_forward K (lm_model lm) ids
                  (map_option (slice 2 0 (int (shape ids ! 1))) cmask) pos start True of
             Inl e \<Rightarrow> Inl e | Inr _ \<Rightarrow> Inr (),
           st\<lparr>stack_calls := stack_calls st @ [(True, False)]\<rparr>))"
proof -
  have 1: "QwenModel_forward K m ids cm pos cur True
     = and_then (embedding (embed_tokens m) ids) (\<lambda>h. run_layers K (layers m) h cm pos cur)"
    by (cases "embedding (embed_tokens m) ids")
       (auto simp: QwenModel_forward_def and_then_def split: sum.splits)
  have 2: "QwenModel_forward K m ids cm pos cur True
          = and_then (embedding (embed_tokens m) ids) (\<lambda>h.
            and_then (run_layers K ls h cm pos cur) (\<lambda>h'.
            QwenDecoderLayer_forward K l h' cm pos cur))" if "layers m = ls @ [l]"
    using 1 that by (simp add: run_layers_snoc)
  have 3: "QwenModel_forward K m ids cm pos cur False
       = and_then (QwenModel_forward K m ids cm pos cur True) (QwenRMSNorm_forward K (norm m))"
    by (auto simp: QwenModel_forward_def and_then_def split: sum.splits)
  have 4: "prefill_kv_cache K lm ids pos start cmask st =
          (case QwenModel_forward K (lm_model lm) ids
                  (map_option (slice 2 0 (int (shape ids ! 1))) cmask) pos start True of
             Inl e \<Rightarrow> Inl e | Inr _ \<Rightarrow> Inr (),
           st\<lparr>stack_calls := stack_calls st @ [(True, False)]\<rparr>)"
    if "2 \<le> length (shape ids)" "\<forall>c. cmask = Some c \<longrightarrow> 4 \<le> length (shape c)"
    using prefill_kv_cache_run [of ids cmask] that by blast
  show ?thesis using 1 2 3 4 by blast
qed

theorem decoder_stack_modes_witness:
  "QwenModel_forward toy_kernels toy_model1 (Tensor [1, 2] [0, 2])
       (Some (Tensor [1, 1, 3, 3] [0, - 9, - 9, 0, 0, - 9, 0, 0, 0]))
       (Some (Tensor [2] [0, 1])) None True
     = QwenDecoderLayer_forward toy_kernels toy_layer (Tensor [1, 2, 2] [1, 2, 5, 6])
         (Some (Tensor [1, 1, 3, 3] [0, - 9, - 9, 0, 0, - 9, 0, 0, 0]))
         (Some (Tensor [2] [0, 1])) None
   \<and> QwenModel_forward toy_kernels toy_model1 (Tensor [1, 2] [0, 2])
       (Some (Tensor [1, 1, 3, 3] [0, - 9, - 9, 0, 0, - 9, 0, 0, 0]))
       (Some (Tensor [2] [0, 1])) None True
     = Inr (Tensor [1, 2, 2] [- 15, - 7, 5, 6])
   \<and> QwenModel_forward toy_kernels toy_model1 (Tensor [1, 2] [0, 2])
       (Some (Tensor [1, 1, 3, 3] [0, - 9, - 9, 0, 0, - 9, 0, 0, 0]))
       (Some (Tensor [2] [0, 1])) None False
     = QwenRMSNorm_forward toy_kernels (norm toy_model1) (Tensor [1, 2, 2] [- 15, - 7, 5, 6])
   \<and> prefill_kv_cache toy_kernels toy_lm1 (Tensor [1, 2] [0, 2]) (Some (Tensor [2] [0, 1]))
       (Some (PosInt 0)) (Some (Tensor [1, 1, 3, 3] [0, - 9, - 9, 0, 0, - 9, 0, 0, 0]))
       \<lparr>grad_enabled = True, stack_calls = []\<rparr>
     = (Inr (), \<lparr>grad_enabled = True, stack_calls = [(True, False)]\<rparr>)"
proof -
  let ?ids = "Tensor [1, 2] [0, 2 :: int]"
  let ?cm = "Tensor [1, 1, 3, 3] [0, - 9, - 9, 0, 0, - 9, 0, 0, 0 :: int]"
  let ?pos = "Some (Tensor [2] [0, 1 :: int])"
  let ?st = "\<lparr>grad_enabled = True, stack_calls = []\<rparr>"
  note th = decoder_stack_modes [where K = toy_kernels and m = toy_model1 and ids = ?ids
      and cm = "Some ?cm" and pos = ?pos and cur = None and ls = "[]" and l = toy_layer
      and cmask = "Some ?cm" and lm = toy_lm1 and start = "Some (PosInt 0)" and st = ?st]
  have emb: "embedding (embed_tokens toy_model1) ?ids = Inr (Tensor [1, 2, 2] [1, 2, 5, 6])"
    by code_simp
  have ly: "layers toy_model1 = [] @ [toy_layer]" by (simp add: toy_model1_def)
  have ev: "QwenModel_forward toy_kernels toy_model1 ?ids (Some ?cm) ?pos None True
              = Inr (Tensor [1, 2, 2] [- 15, - 7, 5, 6])"
    by code_simp
  have evp: "QwenModel_forward toy_kernels (lm_model toy_lm1) ?ids
               (map_option (slice 2 0 (int (shape ?ids ! 1))) (Some ?cm)) ?pos
               (Some (PosInt 0)) True
              = Inr (Tensor [1, 2, 2] [- 15, - 7, 5, 6])"
    by code_simp
  have hyp: "2 \<le> length (shape ?ids) \<and> (\<forall>c. Some ?cm = Some c \<longrightarrow> 4 \<le> length (shape c))"
    by simp
  note th2 = th [THEN conjunct2, THEN conjunct1, THEN mp, OF ly]
  note th3 = th [THEN conjunct2, THEN conjunct2, THEN conjunct1]
  note th4 = th [THEN conjunct2, THEN conjunct2, THEN conjunct2, THEN mp, OF hyp]
  have a: "QwenModel_forward toy_kernels toy_model1 ?ids (Some ?cm) ?pos None True
     = QwenDecoderLayer_forward toy_kernels toy_layer (Tensor [1, 2, 2] [1, 2, 5, 6])
         (Some ?cm) ?pos None"
    by (simp only: th2 emb and_then_Inr run_layers.simps)
  have c: "QwenModel_forward toy_kernels toy_model1 ?ids (Some ?cm) ?pos None False
     = QwenRMSNorm_forward toy_kernels (norm toy_model1) (Tensor [1, 2, 2] [- 15, - 7, 5, 6])"
    by (simp only: th3 ev and_then_Inr)
  have d: "prefill_kv_cache toy_kernels toy_lm1 ?ids ?pos (Some (PosInt 0)) (Some ?cm) ?st
     = (Inr (), \<lparr>grad_enabled = True, stack_calls = [(True, False)]\<rparr>)"
    unfolding th4 evp by simp
  show ?thesis using a ev c d by blast
qed

section \<open>Lemmas on the tensor operations\<close>

lemma upt_3: "[0..<3] = [0, 1, 2]" by (simp add: upt_rec numeral_3_eq_3)
lemma upt_4: "[0..<4] = [0, 1, 2, 3]" by (simp add: upt_rec eval_nat_numeral)

lemma valid_index4:
  "valid_index [a, b, c, d] idx \<Longrightarrow>
     \<exists>i j k l. idx = [i, j, k, l] \<and> i < a \<and> j < b \<and> k < c \<and> l < d"
  by (cases idx; simp add: valid_index_def list_all2_Cons2) (auto simp: list_all2_Cons2)

lemma map_tensor_eq: "map_tensor f t = Tensor (shape t) (map f (elems t))"
  by (cases t) simp

lemma item_map_tensor:
  "wf_tensor t \<Longrightarrow> valid_index (shape t) idx \<Longrightarrow> item (map_tensor f t) idx = f (item t idx)"
  by (simp add: item_def map_tensor_eq wf_tensor_def ravel_less)

lemma shape_map_tensor [simp]: "shape (map_tensor f t) = shape t"
  by (simp add: map_tensor_eq)

lemma wf_map_tensor [simp]: "wf_tensor (map_tensor f t) = wf_tensor t"
  by (simp add: map_tensor_eq wf_tensor_def)

lemma permute021:
  "shape t = [B, S, H] \<Longrightarrow>
   permute [0, 2, 1] t = Inr (tabulate [B, H, S] (\<lambda>idx. item t [idx ! 0, idx ! 2, idx ! 1]))"
  by (simp add: permute_def upt_3 numeral_2_eq_2)

lemma item_unsqueeze2:
  "shape t = [a, b, c] \<Longrightarrow> item (unsqueeze 2 t) [i, j, 0, k] = item t [i, j, k]"
  by (simp add: item_def unsqueeze_def)

lemma shape_unsqueeze2: "shape t = [a, b, c] \<Longrightarrow> shape (unsqueeze 2 t) = [a, b, 1, c]"
  by (simp add: unsqueeze_def)

lemma wf_unsqueeze [simp]: "wf_tensor (unsqueeze k t) = wf_tensor t"
proof -
  have "prod_list (take k (shape t) @ 1 # drop k (shape t)) = prod_list (shape t)"
    by (metis append_take_drop_id mult.left_neutral prod_list.Cons prod_list.append)
  then show ?thesis by (simp add: wf_tensor_def unsqueeze_def)
qed

lemma conv2d_formula:
  "shape w = [n, c, 1, 1] \<Longrightarrow> shape x = [b, c, h, wd] \<Longrightarrow> 0 < n \<Longrightarrow> 0 < c \<Longrightarrow> 0 < h
   \<Longrightarrow> 0 < wd \<Longrightarrow>
   conv2d w x = Inr (tabulate [b, n, h, wd]
                 (\<lambda>idx. sum_upto c (\<lambda>ci. item w [idx ! 1, ci, 0, 0]
                                          * item x [idx ! 0, ci, idx ! 2, idx ! 3])))"
  by (simp add: conv2d_def)

lemma squeeze2_tabulate:
  "squeeze 2 (tabulate [b, n, 1, s] f) = Tensor [b, n, s] (elems (tabulate [b, n, 1, s] f))"
  by (simp add: squeeze_def)

lemma item_squeeze2_tabulate:
  assumes "i < b" "j < n" "k < s"
  shows "item (Tensor [b, n, s] (elems (tabulate [b, n, 1, s] f))) [i, j, k] = f [i, j, 0, k]"
proof -
  have "item (Tensor [b, n, s] (elems (tabulate [b, n, 1, s] f))) [i, j, k]
          = item (tabulate [b, n, 1, s] f) [i, j, 0, k]"
    by (simp add: item_def)
  then show ?thesis using assms by (simp add: item_tabulate)
qed

lemma transpose12_rank3:
  "shape t = [a, b, c] \<Longrightarrow>
   transpose_dims 1 2 t = Inr (tabulate [a, c, b] (\<lambda>idx. item t [idx ! 0, idx ! 2, idx ! 1]))"
  by (simp add: transpose_dims_def norm_dim_def permute_def upt_3 Let_def numeral_2_eq_2)

lemma sum_upto_cong: "(\<And>i. i < n \<Longrightarrow> f i = g i) \<Longrightarrow> sum_upto n f = sum_upto n g"
  unfolding sum_upto_def by (rule fold_cong) auto

lemma head_logits_formula:
  assumes w: "attrs name = Some w" and shw: "shape w = [n, H, 1, 1]"
    and shs: "shape hs = [B, S, H]" and pos: "0 < n" "0 < H" "0 < S"
  shows "head_logits attrs
           (map_tensor cast (unsqueeze 2
              (tabulate [B, H, S] (\<lambda>idx. item hs [idx ! 0, idx ! 2, idx ! 1])))) name
         = Inr (tabulate [B, S, n]
             (\<lambda>idx. sum_upto H (\<lambda>c. item w [idx ! 2, c, 0, 0]
                                      * cast (item hs [idx ! 0, idx ! 1, c]))))"
proof -
  let ?P = "tabulate [B, H, S] (\<lambda>idx. item hs [idx ! 0, idx ! 2, idx ! 1])"
  let ?x = "map_tensor cast (unsqueeze 2 ?P)"
  let ?G = "\<lambda>idx. sum_upto H (\<lambda>ci. item w [idx ! 1, ci, 0, 0]
                                    * item ?x [idx ! 0, ci, idx ! 2, idx ! 3])"
  let ?T = "Tensor [B, n, S] (elems (tabulate [B, n, 1, S] ?G))"
  have shx: "shape ?x = [B, H, 1, S]" by (simp add: unsqueeze_def)
  have conv: "conv2d w ?x = Inr (tabulate [B, n, 1, S] ?G)"
    using conv2d_formula [OF shw shx pos(1,2) _ pos(3)] by simp
  have tr: "transpose_dims 1 2 ?T
              = Inr (tabulate [B, S, n] (\<lambda>idx. item ?T [idx ! 0, idx ! 2, idx ! 1]))"
    by (rule transpose12_rank3) simp
  have itx: "item ?x [b, c, 0, s] = cast (item hs [b, s, c])" if "b < B" "c < H" "s < S" for b c s
  proof -
    have wfu: "wf_tensor (unsqueeze 2 ?P)" by simp
    have shu: "shape (unsqueeze 2 ?P) = [B, H, 1, S]" by (simp add: unsqueeze_def)
    have "valid_index (shape (unsqueeze 2 ?P)) [b, c, 0, s]" unfolding shu using that by simp
    then have "item ?x [b, c, 0, s] = cast (item (unsqueeze 2 ?P) [b, c, 0, s])"
      using wfu by (intro item_map_tensor)
    also have "\<dots> = cast (item ?P [b, c, s])" by (simp add: item_unsqueeze2 [of _ B H S])
    also have "\<dots> = cast (item hs [b, s, c])" using that by (simp add: item_tabulate)
    finally show ?thesis .
  qed
  have eq: "tabulate [B, S, n] (\<lambda>idx. item ?T [idx ! 0, idx ! 2, idx ! 1])
        = tabulate [B, S, n]
             (\<lambda>idx. sum_upto H (\<lambda>c. item w [idx ! 2, c, 0, 0]
                                      * cast (item hs [idx ! 0, idx ! 1, c])))"
  proof (rule tabulate_cong)
    fix idx assume "valid_index [B, S, n] idx"
    then obtain b s v where idx: "idx = [b, s, v]" and b: "b < B" and s: "s < S" and v: "v < n"
      using valid_index3 [of B S n idx] by auto
    have "item ?T [b, v, s] = ?G [b, v, 0, s]"
      using item_squeeze2_tabulate [OF b v s, where f = ?G] by simp
    also have "\<dots> = sum_upto H (\<lambda>c. item w [v, c, 0, 0] * cast (item hs [b, s, c]))"
    proof (rule sum_upto_cong)
      fix i assume "i < H"
      from itx [OF b this s]
      show "item w [[b, v, 0, s] ! 1, i, 0, 0]
              * item ?x [[b, v, 0, s] ! 0, i, [b, v, 0, s] ! 2, [b, v, 0, s] ! 3]
            = item w [v, i, 0, 0] * cast (item hs [b, s, i])"
        by simp
    qed
    finally show "item ?T [idx ! 0, idx ! 2, idx ! 1]
        = sum_upto H (\<lambda>c. item w [idx ! 2, c, 0, 0] * cast (item hs [idx ! 0, idx ! 1, c]))"
      by (simp add: idx)
  qed
  have "head_logits attrs ?x name
          = and_then (conv2d w ?x) (\<lambda>y. transpose_dims 1 2 (squeeze 2 y))"
    by (simp only: head_logits_def w option.simps)
  also have "\<dots> = transpose_dims 1 2 (squeeze 2 (tabulate [B, n, 1, S] ?G))"
    by (simp only: conv and_then_Inr)
  also have "\<dots> = transpose_dims 1 2 ?T"
    by (simp only: squeeze2_tabulate)
  also have "\<dots> = Inr (tabulate [B, S, n] (\<lambda>idx. item ?T [idx ! 0, idx ! 2, idx ! 1]))"
    by (simp only: tr)
  finally show ?thesis by (simp only: eq)
qed

lemma sum_list_split_aux:
  "sum_list (map (\<lambda>i. q + (if i < r then 1 else (0::nat))) [0..<n]) = n * q + min r n"
  by (induction n) auto

lemma sum_list_split_sizes: "0 < n \<Longrightarrow> sum_list (split_sizes n V) = V"
proof -
  assume n: "0 < n"
  have "V mod n < n" using n by simp
  then have "min (V mod n) n = V mod n" by simp
  then show ?thesis
    by (simp add: split_sizes_def Let_def sum_list_split_aux)
qed

lemma length_split_sizes [simp]: "length (split_sizes n V) = n"
  by (simp add: split_sizes_def Let_def)

lemma locate_correct:
  "v < sum_list sizes \<Longrightarrow>
   (case locate sizes v of (i, u) \<Rightarrow>
      i < length sizes \<and> u < sizes ! i \<and> sum_list (take i sizes) + u = v)"
proof (induction sizes arbitrary: v)
  case Nil
  then show ?case by simp
next
  case (Cons n ns)
  show ?case
  proof (cases "v < n")
    case True
    then show ?thesis by simp
  next
    case False
    then have "v - n < sum_list ns" using Cons.prems by simp
    from Cons.IH [OF this] False show ?thesis
      by (auto split: prod.splits)
  qed
qed

lemma broadcast_rev_same: "broadcast_rev xs xs = Some xs"
  by (induction xs) auto

lemma broadcast_shape_same: "broadcast_shape sh sh = Some sh"
  by (simp add: broadcast_shape_def broadcast_rev_same)

lemma broadcast_index_same: "valid_index sh idx \<Longrightarrow> broadcast_index sh idx = idx"
proof -
  assume v: "valid_index sh idx"
  then have len: "length idx = length sh" by (rule valid_index_length)
  have "map2 (\<lambda>i n. if n = 1 then 0 else i) idx sh = idx"
  proof (rule nth_equalityI)
    show "length (map2 (\<lambda>i n. if n = 1 then 0 else i) idx sh) = length idx" using len by simp
  next
    fix k assume "k < length (map2 (\<lambda>i n. if n = 1 then 0 else i) idx sh)"
    then have k: "k < length sh" using len by simp
    then have "idx ! k < sh ! k" using v by (rule valid_index_nth [rotated])
    then show "map2 (\<lambda>i n. if n = 1 then 0 else i) idx sh ! k = idx ! k"
      using k len by auto
  qed
  then show ?thesis using len by (simp add: broadcast_index_def)
qed

lemma copy_into_same_shape:
  assumes "shape dst = shape src"
  shows "copy_into cast dst src = Inr (tabulate (shape src) (\<lambda>idx. cast (item src idx)))"
proof -
  have "tabulate (shape src) (\<lambda>idx. cast (item src (broadcast_index (shape src) idx)))
          = tabulate (shape src) (\<lambda>idx. cast (item src idx))"
    by (rule tabulate_cong) (simp add: broadcast_index_same)
  then show ?thesis using assms by (simp add: copy_into_def broadcast_shape_same)
qed

lemma fold_upd_other:
  "k \<notin> (\<lambda>(i, sp). nm i) ` set xs \<Longrightarrow>
   fold (\<lambda>(i, sp) a. a (nm i \<mapsto> sp)) xs attrs k = attrs k"
  by (induction xs arbitrary: attrs) (auto split: prod.splits)

lemma fold_upd_lookup:
  "distinct (map (\<lambda>(i, sp). nm i) xs) \<Longrightarrow> (i, sp) \<in> set xs \<Longrightarrow>
   fold (\<lambda>(i, sp) a. a (nm i \<mapsto> sp)) xs attrs (nm i) = Some sp"
proof (induction xs arbitrary: attrs)
  case Nil
  then show ?case by simp
next
  case (Cons x xs)
  obtain j sq where x: "x = (j, sq)" by (cases x)
  show ?case
  proof (cases "(i, sp) = x")
    case True
    then have ni: "nm i \<notin> (\<lambda>(i, sp). nm i) ` set xs" and ij: "j = i" "sq = sp"
      using Cons.prems(1) by (auto simp: x)
    have "fold (\<lambda>(i, sp) a. a (nm i \<mapsto> sp)) (x # xs) attrs
            = fold (\<lambda>(i, sp) a. a (nm i \<mapsto> sp)) xs (attrs (nm i \<mapsto> sp))"
      by (simp only: fold_simps o_apply x ij prod.case)
    then show ?thesis by (simp only: fold_upd_other [OF ni] fun_upd_same)
  next
    case False
    then have "(i, sp) \<in> set xs" using Cons.prems(2) by simp
    moreover have "distinct (map (\<lambda>(i, sp). nm i) xs)" using Cons.prems(1) by simp
    ultimately show ?thesis using Cons.IH by (simp add: x)
  qed
qed

lemma copy_splits_ok:
  assumes "distinct (map (\<lambda>(i, sp). stem @ show_nat (i + 1)) xs)"
    and "\<forall>(i, sp)\<in>set xs. \<exists>d. attrs (stem @ show_nat (i + 1)) = Some d \<and> shape d = shape sp"
  shows "\<exists>out'. copy_splits cast stem xs attrs out
           = Inr (fold (\<lambda>(i, sp) a. a (stem @ show_nat (i + 1) \<mapsto> sp))
                    (map (\<lambda>(i, sp). (i, tabulate (shape sp) (\<lambda>idx. cast (item sp idx)))) xs)
                    attrs, out')"
  using assms
proof (induction xs arbitrary: attrs out)
  case Nil
  then show ?case by simp
next
  case (Cons x xs)
  obtain i sp where x: "x = (i, sp)" by (cases x)
  let ?name = "stem @ show_nat (i + 1)"
  let ?c = "\<lambda>sp. tabulate (shape sp) (\<lambda>idx. cast (item sp idx))"
  from Cons.prems(2) obtain d where d: "attrs ?name = Some d" "shape d = shape sp"
    by (auto simp: x)
  have cp: "copy_into cast d sp = Inr (?c sp)" using d(2) by (rule copy_into_same_shape)
  have dist: "distinct (map (\<lambda>(i, sp). stem @ show_nat (i + 1)) xs)"
    using Cons.prems(1) by simp
  have notin: "?name \<notin> (\<lambda>(i, sp). stem @ show_nat (i + 1)) ` set xs"
    using Cons.prems(1) by (simp add: x)
  have rest: "\<forall>(j, sq)\<in>set xs. \<exists>d'. (attrs (?name \<mapsto> ?c sp)) (stem @ show_nat (j + 1)) = Some d'
             \<and> shape d' = shape sq"
  proof (clarify)
    fix j sq assume in_xs: "(j, sq) \<in> set xs"
    then have "stem @ show_nat (j + 1) \<noteq> ?name" using notin by force
    moreover obtain d' where "attrs (stem @ show_nat (j + 1)) = Some d'" "shape d' = shape sq"
      using Cons.prems(2) in_xs by fastforce
    ultimately show "\<exists>d'. (attrs (?name \<mapsto> ?c sp)) (stem @ show_nat (j + 1)) = Some d'
             \<and> shape d' = shape sq"
      by simp
  qed
  let ?out = "out @ [PrintShape (''Loaded '' @ ?name @ ''.weight with shape'') (shape sp)]"
  have step: "copy_splits cast stem (x # xs) attrs out
                = copy_splits cast stem xs (attrs (?name \<mapsto> ?c sp)) ?out"
    unfolding x by (simp only: copy_splits.simps Let_def d option.case cp and_then_Inr)
  have fstep: "fold (\<lambda>(i, sp) a. a (stem @ show_nat (i + 1) \<mapsto> sp))
                 (map (\<lambda>(i, sp). (i, ?c sp)) (x # xs)) attrs
                = fold (\<lambda>(i, sp) a. a (stem @ show_nat (i + 1) \<mapsto> sp))
                    (map (\<lambda>(i, sp). (i, ?c sp)) xs) (attrs (?name \<mapsto> ?c sp))"
    by (simp only: list.map fold_simps o_apply x prod.case)
  from Cons.IH [OF dist rest, of ?out]
  show ?case unfolding step fstep .
qed

lemma collect_map:
  "(\<And>x. x \<in> set xs \<Longrightarrow> f (nm x) = Inr (g x)) \<Longrightarrow> collect f (map nm xs) = Inr (map g xs)"
  by (induction xs) simp_all

lemma cat2_formula:
  assumes ne: "ts \<noteq> []" and sh: "\<And>t. t \<in> set ts \<Longrightarrow> \<exists>k. shape t = [B, S, k]"
  shows "cat ts 2 = Inr (tabulate [B, S, sum_list (map (\<lambda>t. shape t ! 2) ts)]
            (\<lambda>idx. case locate (map (\<lambda>t. shape t ! 2) ts) (idx ! 2) of
                      (i, u) \<Rightarrow> item (ts ! i) (idx [2 := u])))"
proof -
  obtain t0 rest where ts: "ts = t0 # rest" using ne by (cases ts) auto
  obtain k0 where k0: "shape t0 = [B, S, k0]" using sh [of t0] ts by auto
  have all: "list_all (\<lambda>t. (shape t) [2 := 0] = (shape t0) [2 := 0]) ts"
    unfolding list_all_iff
  proof
    fix t assume "t \<in> set ts"
    then obtain k where "shape t = [B, S, k]" using sh by blast
    then show "(shape t) [2 := 0] = (shape t0) [2 := 0]" by (simp add: k0)
  qed
  have "(shape t0) [2 := sum_list (map (\<lambda>t. shape t ! 2) ts)]
          = [B, S, sum_list (map (\<lambda>t. shape t ! 2) ts)]"
    by (simp add: k0)
  moreover have "list_all (\<lambda>t. (shape t) [2 := 0] = (shape t0) [2 := 0]) rest"
    using all ts by simp
  ultimately show ?thesis using k0 unfolding cat_def ts
    by (simp add: Let_def)
qed

lemma enumerate_map_upt: "enumerate 0 (map f [0..<n]) = map (\<lambda>i. (i, f i)) [0..<n]"
  by (simp add: enumerate_eq_zip zip_map2 zip_same_conv_map)

section \<open>The partitioned vocabulary head\<close>

lemma item_narrow0:
  assumes "shape R = [V, H, 1, 1]" "u < len" "c < H"
  shows "item (narrow 0 start len R) [u, c, 0, 0] = item R [start + u, c, 0, 0]"
  using assms by (simp add: narrow_def item_tabulate)

lemma item_conv_view:
  "shape W = [V, H] \<Longrightarrow> item (Tensor [V, H, 1, 1] (elems W)) [v, c, 0, 0] = item W [v, c]"
  by (simp add: item_def)

lemma split_head_forward_formula:
  fixes cast :: "'a::{zero,plus,times} \<Rightarrow> 'a"
  assumes n: "0 < n" and names: "length names = n" and sizes: "length sizes = n"
    and heads: "\<And>i. i < n \<Longrightarrow> lm_heads m (names ! i) = Some (w i)
                   \<and> shape (w i) = [sizes ! i, H, 1, 1]"
    and pos: "\<And>i. i < n \<Longrightarrow> 0 < sizes ! i" and H: "0 < H" and S: "0 < S"
    and shs: "shape hs = [B, S, H]" and core: "\<not> enable_coreml m"
  shows "split_head_forward m names
           (map_tensor cast (unsqueeze 2
              (tabulate [B, H, S] (\<lambda>idx. item hs [idx ! 0, idx ! 2, idx ! 1]))))
         = Inr (Logits (tabulate [B, S, sum_list sizes]
             (\<lambda>idx. case locate sizes (idx ! 2) of
                       (i, u) \<Rightarrow> sum_upto H (\<lambda>c. item (w i) [u, c, 0, 0]
                                                  * cast (item hs [idx ! 0, idx ! 1, c])))))"
proof -
  let ?x = "map_tensor cast (unsqueeze 2
                  (tabulate [B, H, S] (\<lambda>idx. item hs [idx ! 0, idx ! 2, idx ! 1])))"
  let ?T = "\<lambda>i. tabulate [B, S, sizes ! i]
             (\<lambda>idx. sum_upto H (\<lambda>c. item (w i) [idx ! 2, c, 0, 0]
                                      * cast (item hs [idx ! 0, idx ! 1, c])))"
  have hl: "head_logits (lm_heads m) ?x (names ! i) = Inr (?T i)" if "i \<in> set [0..<n]" for i
  proof -
    have i: "i < n" using that by simp
    from heads [OF i] have a: "lm_heads m (names ! i) = Some (w i)"
      and b: "shape (w i) = [sizes ! i, H, 1, 1]" by simp_all
    from head_logits_formula [where attrs = "lm_heads m" and name = "names ! i" and w = "w i"
        and n = "sizes ! i" and H = H and hs = hs and B = B and S = S and cast = cast,
        OF a b shs pos [OF i] H S]
    show ?thesis .
  qed
  have nm: "map ((!) names) [0..<n] = names" unfolding names [symmetric] by (rule map_nth)
  have "collect (head_logits (lm_heads m) ?x) (map ((!) names) [0..<n]) = Inr (map ?T [0..<n])"
    by (rule collect_map) (rule hl)
  then have coll: "collect (head_logits (lm_heads m) ?x) names = Inr (map ?T [0..<n])"
    by (simp only: nm)
  have ne: "map ?T [0..<n] \<noteq> []" using n by simp
  have shT: "\<exists>k. shape t = [B, S, k]" if "t \<in> set (map ?T [0..<n])" for t
    using that by auto
  have szs: "map (\<lambda>t. shape t ! 2) (map ?T [0..<n]) = sizes"
    by (rule nth_equalityI) (simp_all add: sizes)
  have catf: "cat (map ?T [0..<n]) 2 = Inr (tabulate [B, S, sum_list sizes]
            (\<lambda>idx. case locate sizes (idx ! 2) of
                      (i, u) \<Rightarrow> item (map ?T [0..<n] ! i) (idx [2 := u])))"
    using cat2_formula [OF ne shT] unfolding szs by simp
  have eq: "tabulate [B, S, sum_list sizes]
            (\<lambda>idx. case locate sizes (idx ! 2) of
                      (i, u) \<Rightarrow> item (map ?T [0..<n] ! i) (idx [2 := u]))
        = tabulate [B, S, sum_list sizes]
            (\<lambda>idx. case locate sizes (idx ! 2) of
                       (i, u) \<Rightarrow> sum_upto H (\<lambda>c. item (w i) [u, c, 0, 0]
                                                  * cast (item hs [idx ! 0, idx ! 1, c])))"
  proof (rule tabulate_cong)
    fix idx assume "valid_index [B, S, sum_list sizes] idx"
    then obtain b s v where idx: "idx = [b, s, v]" and b: "b < B" and s: "s < S"
      and v: "v < sum_list sizes"
      using valid_index3 [of B S "sum_list sizes" idx] by auto
    obtain i u where loc: "locate sizes v = (i, u)" by (cases "locate sizes v")
    from locate_correct [OF v] loc
    have i: "i < n" and u: "u < sizes ! i" by (simp_all add: sizes)
    have "item (map ?T [0..<n] ! i) [b, s, u]
            = sum_upto H (\<lambda>c. item (w i) [u, c, 0, 0] * cast (item hs [b, s, c]))"
      using i b s u by (simp add: item_tabulate)
    then show "(case locate sizes (idx ! 2) of
                      (i, u) \<Rightarrow> item (map ?T [0..<n] ! i) (idx [2 := u]))
        = (case locate sizes (idx ! 2) of
                       (i, u) \<Rightarrow> sum_upto H (\<lambda>c. item (w i) [u, c, 0, 0]
                                                  * cast (item hs [idx ! 0, idx ! 1, c])))"
      by (simp add: idx loc)
  qed
  have "split_head_forward m names ?x
            = and_then (collect (head_logits (lm_heads m) ?x) names)
                (\<lambda>ls. and_then (cat ls 2) (\<lambda>logits. Inr (Logits logits)))"
    using core by (simp add: split_head_forward_def)
  then show ?thesis by (simp only: coll and_then_Inr catf eq)
qed

lemma load_split_heads_result:
  assumes n: "0 < n"
    and names: "names = map (\<lambda>i. stem @ show_nat (i + 1)) [0..<n]"
    and dist: "distinct names"
    and heads: "\<And>i. i < n \<Longrightarrow> \<exists>d. attrs (names ! i) = Some d
                   \<and> shape d = [split_sizes n V ! i, H, 1, 1]"
  shows "\<exists>heads out.
           load_split_heads cast stem n V (Tensor [V, H, 1, 1] es) attrs = Inr (heads, out)
           \<and> (\<forall>i<n. heads (names ! i)
                  = Some (tabulate [split_sizes n V ! i, H, 1, 1]
                      (\<lambda>idx. cast (item (narrow 0 (sum_list (take i (split_sizes n V)))
                                            (split_sizes n V ! i) (Tensor [V, H, 1, 1] es)) idx))))
           \<and> (\<forall>k. k \<notin> set names \<longrightarrow> heads k = attrs k)"
proof -
  let ?R = "Tensor [V, H, 1, 1] es"
  let ?sizes = "split_sizes n V"
  let ?nm = "\<lambda>i. stem @ show_nat (i + 1)"
  let ?piece = "\<lambda>i. narrow 0 (sum_list (take i ?sizes)) (?sizes ! i) ?R"
  let ?c = "\<lambda>sp. tabulate (shape sp) (\<lambda>idx. cast (item sp idx))"
  let ?xs = "map (\<lambda>i. (i, ?piece i)) [0..<n]"
  let ?ys = "map (\<lambda>(i, sp). (i, ?c sp)) ?xs"
  let ?F = "\<lambda>(i, sp) a. a (stem @ show_nat (i + 1) \<mapsto> sp)"
  let ?heads = "fold ?F ?ys attrs"
  have sum: "sum_list ?sizes = V" using n by (rule sum_list_split_sizes)
  have split: "split_with_sizes ?sizes ?R = Inr (map ?piece [0..<n])"
    by (simp add: split_with_sizes_def sum)
  have nmi: "names ! i = ?nm i" if "i < n" for i using that by (simp add: names)
  have map_names: "map (\<lambda>(i, sp). ?nm i) ?xs = names"
    by (simp add: names comp_def)
  have map_names': "map (\<lambda>(i, sp). ?nm i) ?ys = names"
    by (simp add: names comp_def)
  have shp: "shape (?piece i) = [?sizes ! i, H, 1, 1]" for i
    by (simp add: narrow_def)
  have pre: "\<forall>(i, sp)\<in>set ?xs. \<exists>d. attrs (?nm i) = Some d \<and> shape d = shape sp"
  proof (clarify)
    fix i sp assume "(i, sp) \<in> set ?xs"
    then have i: "i < n" and sp: "sp = ?piece i" by auto
    from heads [OF i] obtain d where "attrs (?nm i) = Some d"
        "shape d = [?sizes ! i, H, 1, 1]" using nmi [OF i] by auto
    then show "\<exists>d. attrs (?nm i) = Some d \<and> shape d = shape sp"
      unfolding sp by (simp add: narrow_def)
  qed
  have dist': "distinct (map (\<lambda>(i, sp). ?nm i) ?xs)" unfolding map_names by (rule dist)
  have dist'': "distinct (map (\<lambda>(i, sp). ?nm i) ?ys)" unfolding map_names' by (rule dist)
  from copy_splits_ok [OF dist' pre, of cast "[]"]
  obtain out' where cs: "copy_splits cast stem ?xs attrs [] = Inr (?heads, out')" by blast
  have load: "load_split_heads cast stem n V ?R attrs = Inr (?heads, out')"
    by (simp only: load_split_heads_def split and_then_Inr enumerate_map_upt cs)
  have look: "?heads (names ! i) = Some (tabulate [?sizes ! i, H, 1, 1]
                   (\<lambda>idx. cast (item (?piece i) idx)))" if "i < n" for i
  proof -
    have "(i, ?c (?piece i)) \<in> set ?ys" using that by (auto simp: image_iff)
    from fold_upd_lookup [where nm = ?nm, OF dist'' this]
    have "?heads (?nm i) = Some (?c (?piece i))" .
    then show ?thesis unfolding nmi [OF that] shp .
  qed
  have other: "?heads k = attrs k" if "k \<notin> set names" for k
  proof -
    have "k \<notin> (\<lambda>(i, sp). ?nm i) ` set ?ys"
      unfolding set_map [symmetric] map_names' by (rule that)
    then show ?thesis by (rule fold_upd_other)
  qed
  show ?thesis using load look other by blast
qed

lemma head16_names_eq:
  "head16_names = map (\<lambda>i. ''lm_head16_'' @ show_nat (i + 1)) [0..<16]"
  by code_simp

lemma distinct_head16_names: "distinct head16_names"
  by code_simp

lemma split_sizes_nth:
  "i < n \<Longrightarrow> split_sizes n V ! i = V div n + (if i < V mod n then 1 else 0)"
  by (simp add: split_sizes_def Let_def)

lemma split_sizes_pos: "0 < n \<Longrightarrow> n \<le> V \<Longrightarrow> i < n \<Longrightarrow> 0 < split_sizes n V ! i"
proof -
  assume "0 < n" "n \<le> V" "i < n"
  then have "0 < V div n" by (simp add: div_greater_zero_iff)
  then show ?thesis using \<open>i < n\<close> by (simp add: split_sizes_nth)
qed

lemma unsplit_projection_formula:
  fixes K :: "'a::{zero,plus,times} kernels"
  assumes shW: "shape W = [V, H]" and shs: "shape hs = [B, S, H]"
    and pos: "0 < V" "0 < H" "0 < S"
  shows "unsplit_projection K g H V W hs
           = Inr (Logits (tabulate [B, S, V]
               (\<lambda>idx. sum_upto H (\<lambda>c. to_dtype K (item W [idx ! 2, c])
                                        * to_dtype K (item hs [idx ! 0, idx ! 1, c])))))"
proof -
  let ?R = "Tensor [V, H, 1, 1] (elems W)"
  let ?w = "tabulate [V, H, 1, 1] (\<lambda>idx. to_dtype K (item ?R idx))"
  let ?x = "map_tensor (to_dtype K) (unsqueeze 2
                  (tabulate [B, H, S] (\<lambda>idx. item hs [idx ! 0, idx ! 2, idx ! 1])))"
  have vw: "view_as_conv W = Inr ?R"
    using shW by (simp add: view_as_conv_def view_def)
  have cp: "copy_into (to_dtype K) (Conv2d_weight g H V) ?R = Inr ?w"
    using copy_into_same_shape [of "Conv2d_weight g H V" ?R "to_dtype K"]
    by (simp add: Conv2d_weight_def)
  have hl: "head_logits (Map.empty (''lm_head1'' \<mapsto> ?w)) ?x ''lm_head1''
              = Inr (tabulate [B, S, V]
                  (\<lambda>idx. sum_upto H (\<lambda>c. item ?w [idx ! 2, c, 0, 0]
                                           * to_dtype K (item hs [idx ! 0, idx ! 1, c]))))"
    by (rule head_logits_formula [OF _ _ shs pos]) simp_all
  have eq: "tabulate [B, S, V]
                  (\<lambda>idx. sum_upto H (\<lambda>c. item ?w [idx ! 2, c, 0, 0]
                                           * to_dtype K (item hs [idx ! 0, idx ! 1, c])))
            = tabulate [B, S, V]
               (\<lambda>idx. sum_upto H (\<lambda>c. to_dtype K (item W [idx ! 2, c])
                                        * to_dtype K (item hs [idx ! 0, idx ! 1, c])))"
  proof (rule tabulate_cong)
    fix idx assume "valid_index [B, S, V] idx"
    then obtain b s v where idx: "idx = [b, s, v]" and v: "v < V"
      using valid_index3 [of B S V idx] by auto
    have "sum_upto H (\<lambda>c. item ?w [v, c, 0, 0] * to_dtype K (item hs [b, s, c]))
            = sum_upto H (\<lambda>c. to_dtype K (item W [v, c]) * to_dtype K (item hs [b, s, c]))"
    proof (rule sum_upto_cong)
      fix c assume c: "c < H"
      have "item ?w [v, c, 0, 0] = to_dtype K (item ?R [v, c, 0, 0])"
        using v c by (simp add: item_tabulate)
      also have "\<dots> = to_dtype K (item W [v, c])"
        using shW by (simp only: item_conv_view)
      finally show "item ?w [v, c, 0, 0] * to_dtype K (item hs [b, s, c])
                      = to_dtype K (item W [v, c]) * to_dtype K (item hs [b, s, c])"
        by simp
    qed
    then show "sum_upto H (\<lambda>c. item ?w [idx ! 2, c, 0, 0]
                                  * to_dtype K (item hs [idx ! 0, idx ! 1, c]))
            = sum_upto H (\<lambda>c. to_dtype K (item W [idx ! 2, c])
                                  * to_dtype K (item hs [idx ! 0, idx ! 1, c]))"
      by (simp add: idx)
  qed
  show ?thesis
    unfolding unsplit_projection_def
    by (simp only: vw cp and_then_Inr permute021 [OF shs] hl eq)
qed

text \<open>
  Claim C1.  Let the checkpoint's head weight \<open>W\<close> have shape \<open>[V, H]\<close> with at least
  sixteen rows and at least one column, and let the model hold the sixteen shard
  projections the constructor creates for a vocabulary of \<open>V\<close> tokens.  Loading \<open>W\<close>
  gives shard \<open>i\<close> the contiguous block of \<open>V div 16 + (if i < V mod 16 then 1 else 0)\<close>
  rows of \<open>W\<close> that follows the blocks of the shards before it, converted to the model's
  precision, and projecting hidden states \<open>[B, S, H]\<close> with \<open>0 < S\<close> through the shards
  and concatenating the sixteen outputs along the vocabulary axis yields exactly the
  logits of the single unsplit projection loaded with the same weight,
  \<open>logits[b, s, v] = \<Sum>c. cast W[v, c] * cast hidden[b, s, c]\<close>.  No law of the arithmetic
  is used.
\<close>

theorem partitioned_head_equals_unsplit:
  fixes K :: "'a::{zero,plus,times} kernels"
  assumes shW: "shape W = [V, H]"
    and vocab: "vocab_size (lm_config m) = V"
    and heads: "\<forall>i<16. \<exists>d. lm_heads m (head16_names ! i) = Some d
                  \<and> shape d = [V div 16 + (if i < V mod 16 then 1 else 0), H, 1, 1]"
    and shs: "shape hs = [B, S, H]"
    and core: "\<not> enable_coreml m"
    and V: "16 \<le> V" and H: "0 < H" and S: "0 < S"
  shows "\<exists>heads out.
           load_lm_head K m W = Inr (heads, out)
           \<and> lm_head_forward K (m\<lparr>lm_heads := heads\<rparr>) hs
               = Inr (Logits (tabulate [B, S, V]
                   (\<lambda>idx. sum_upto H (\<lambda>c. to_dtype K (item W [idx ! 2, c])
                                           * to_dtype K (item hs [idx ! 0, idx ! 1, c])))))
           \<and> lm_head_forward K (m\<lparr>lm_heads := heads\<rparr>) hs = unsplit_projection K g H V W hs
           \<and> (\<forall>i<16. \<exists>w. heads (head16_names ! i) = Some w
                  \<and> shape w = [V div 16 + (if i < V mod 16 then 1 else 0), H, 1, 1]
                  \<and> (\<forall>u < V div 16 + (if i < V mod 16 then 1 else 0). \<forall>c<H.
                        item w [u, c, 0, 0]
                          = to_dtype K (item W [sum_list (take i (split_sizes 16 V)) + u, c])))"
proof -
  let ?R = "Tensor [V, H, 1, 1] (elems W)"
  let ?sizes = "split_sizes 16 V"
  let ?piece = "\<lambda>i. narrow 0 (sum_list (take i ?sizes)) (?sizes ! i) ?R"
  let ?w = "\<lambda>i. tabulate [?sizes ! i, H, 1, 1] (\<lambda>idx. to_dtype K (item (?piece i) idx))"
  let ?x = "map_tensor (to_dtype K) (unsqueeze 2
                  (tabulate [B, H, S] (\<lambda>idx. item hs [idx ! 0, idx ! 2, idx ! 1])))"
  have hd: "\<exists>d. lm_heads m (head16_names ! i) = Some d
              \<and> shape d = [?sizes ! i, H, 1, 1]" if "i < 16" for i
    using heads that by (simp add: split_sizes_nth)
  from load_split_heads_result [where n = 16 and names = head16_names
      and stem = "''lm_head16_''" and cast = "to_dtype K" and attrs = "lm_heads m" and V = V
      and H = H and es = "elems W", OF _ head16_names_eq distinct_head16_names hd]
  obtain hs' out where
    load: "load_split_heads (to_dtype K) ''lm_head16_'' 16 V ?R (lm_heads m) = Inr (hs', out)"
    and look: "\<forall>i<16. hs' (head16_names ! i) = Some (?w i)"
    by auto
  have vw: "view_as_conv W = Inr ?R"
    using shW by (simp add: view_as_conv_def view_def)
  have 1: "load_lm_head K m W = Inr (hs', out)"
    using load vocab
    by (simp add: load_lm_head_def ENABLE_CONV2D_def ENABLE_VACAB_SPLIT16_def vw)
  have piece: "item (?w i) [u, c, 0, 0] = to_dtype K (item W [sum_list (take i ?sizes) + u, c])"
    if "u < ?sizes ! i" "c < H" for i u c
  proof -
    have "item (?w i) [u, c, 0, 0] = to_dtype K (item (?piece i) [u, c, 0, 0])"
      using that by (simp add: item_tabulate)
    also have "item (?piece i) [u, c, 0, 0] = item ?R [sum_list (take i ?sizes) + u, c, 0, 0]"
      by (rule item_narrow0 [OF _ that]) simp
    also have "\<dots> = item W [sum_list (take i ?sizes) + u, c]"
      using shW by (rule item_conv_view)
    finally show ?thesis .
  qed
  have sum: "sum_list ?sizes = V" by (rule sum_list_split_sizes) simp
  have fw0: "split_head_forward (m\<lparr>lm_heads := hs'\<rparr>) head16_names ?x
         = Inr (Logits (tabulate [B, S, sum_list ?sizes]
             (\<lambda>idx. case locate ?sizes (idx ! 2) of
                       (i, u) \<Rightarrow> sum_upto H (\<lambda>c. item (?w i) [u, c, 0, 0]
                                                  * to_dtype K (item hs [idx ! 0, idx ! 1, c])))))"
  proof (rule split_head_forward_formula [where n = 16])
    show "lm_heads (m\<lparr>lm_heads := hs'\<rparr>) (head16_names ! i) = Some (?w i)
            \<and> shape (?w i) = [?sizes ! i, H, 1, 1]" if "i < 16" for i
      using look that by simp
    show "0 < ?sizes ! i" if "i < 16" for i
      using that V by (intro split_sizes_pos) simp_all
  qed (simp_all add: head16_names_def H S shs core)
  have eq: "tabulate [B, S, sum_list ?sizes]
             (\<lambda>idx. case locate ?sizes (idx ! 2) of
                       (i, u) \<Rightarrow> sum_upto H (\<lambda>c. item (?w i) [u, c, 0, 0]
                                                  * to_dtype K (item hs [idx ! 0, idx ! 1, c])))
        = tabulate [B, S, V]
            (\<lambda>idx. sum_upto H (\<lambda>c. to_dtype K (item W [idx ! 2, c])
                                    * to_dtype K (item hs [idx ! 0, idx ! 1, c])))"
    unfolding sum
  proof (rule tabulate_cong)
    fix idx assume "valid_index [B, S, V] idx"
    then obtain b s v where idx: "idx = [b, s, v]" and v: "v < V"
      using valid_index3 [of B S V idx] by auto
    obtain i u where loc: "locate ?sizes v = (i, u)" by (cases "locate ?sizes v")
    have "v < sum_list ?sizes" using v sum by simp
    from locate_correct [OF this] loc
    have u: "u < ?sizes ! i" and off: "sum_list (take i ?sizes) + u = v"
      by simp_all
    have "sum_upto H (\<lambda>c. item (?w i) [u, c, 0, 0] * to_dtype K (item hs [b, s, c]))
            = sum_upto H (\<lambda>c. to_dtype K (item W [v, c]) * to_dtype K (item hs [b, s, c]))"
    proof (rule sum_upto_cong)
      fix c assume c: "c < H"
      show "item (?w i) [u, c, 0, 0] * to_dtype K (item hs [b, s, c])
              = to_dtype K (item W [v, c]) * to_dtype K (item hs [b, s, c])"
        by (simp only: piece [OF u c] off)
    qed
    then show "(case locate ?sizes (idx ! 2) of
                       (i, u) \<Rightarrow> sum_upto H (\<lambda>c. item (?w i) [u, c, 0, 0]
                                                  * to_dtype K (item hs [idx ! 0, idx ! 1, c])))
        = sum_upto H (\<lambda>c. to_dtype K (item W [idx ! 2, c])
                            * to_dtype K (item hs [idx ! 0, idx ! 1, c]))"
      by (simp add: idx loc)
  qed
  have "lm_head_forward K (m\<lparr>lm_heads := hs'\<rparr>) hs
          = and_then (permute [0, 2, 1] hs) (\<lambda>p.
              split_head_forward (m\<lparr>lm_heads := hs'\<rparr>) head16_names
                (map_tensor (to_dtype K) (unsqueeze 2 p)))"
    by (simp add: lm_head_forward_def ENABLE_CONV2D_def ENABLE_VACAB_SPLIT16_def Let_def)
  then have 2: "lm_head_forward K (m\<lparr>lm_heads := hs'\<rparr>) hs
               = Inr (Logits (tabulate [B, S, V]
                   (\<lambda>idx. sum_upto H (\<lambda>c. to_dtype K (item W [idx ! 2, c])
                                           * to_dtype K (item hs [idx ! 0, idx ! 1, c])))))"
    by (simp only: permute021 [OF shs] and_then_Inr fw0 eq)
  have 3: "lm_head_forward K (m\<lparr>lm_heads := hs'\<rparr>) hs = unsplit_projection K g H V W hs"
    unfolding 2 using unsplit_projection_formula [OF shW shs _ H S, of K g] V by simp
  have 4: "\<exists>w. hs' (head16_names ! i) = Some w
                  \<and> shape w = [V div 16 + (if i < V mod 16 then 1 else 0), H, 1, 1]
                  \<and> (\<forall>u < V div 16 + (if i < V mod 16 then 1 else 0). \<forall>c<H.
                        item w [u, c, 0, 0]
                          = to_dtype K (item W [sum_list (take i ?sizes) + u, c]))"
    if i: "i < 16" for i
  proof -
    have a: "hs' (head16_names ! i) = Some (?w i)" using look i by simp
    have b: "shape (?w i) = [V div 16 + (if i < V mod 16 then 1 else 0), H, 1, 1]"
      using i by (simp add: split_sizes_nth)
    have c: "item (?w i) [u, c, 0, 0] = to_dtype K (item W [sum_list (take i ?sizes) + u, c])"
      if "u < V div 16 + (if i < V mod 16 then 1 else 0)" "c < H" for u c
    proof -
      have u: "u < ?sizes ! i" using that(1) i by (simp add: split_sizes_nth)
      show ?thesis by (rule piece [OF u that(2)])
    qed
    show ?thesis using a b c by blast
  qed
  show ?thesis using 1 2 3 4 by blast
qed

lemma fold_upd_dom:
  "dom (fold (\<lambda>(i, sp) a. a (nm i \<mapsto> sp)) xs attrs) = dom attrs \<union> (\<lambda>(i, sp). nm i) ` set xs"
  by (induction xs arbitrary: attrs) (auto split: prod.splits)

lemma create_split_heads_fold:
  "create_split_heads g stem n hidden vocab
     = fold (\<lambda>(i, sp) a. a (stem @ show_nat (i + 1) \<mapsto> sp))
         (map (\<lambda>i. (i, Conv2d_weight (g (stem @ show_nat (i + 1))) hidden
                        (vocab div n + (if i < vocab mod n then 1 else 0)))) [0..<n])
         Map.empty"
  by (simp add: create_split_heads_def Let_def fold_map comp_def)

lemma create_split_heads_dom:
  "dom (create_split_heads g stem n hidden vocab)
     = set (map (\<lambda>i. stem @ show_nat (i + 1)) [0..<n])"
  unfolding create_split_heads_fold fold_upd_dom by (auto simp: image_iff)

lemma create_split_heads_lookup:
  assumes "distinct (map (\<lambda>i. stem @ show_nat (i + 1)) [0..<n])" "i < n"
  shows "create_split_heads g stem n hidden vocab (stem @ show_nat (i + 1))
           = Some (Conv2d_weight (g (stem @ show_nat (i + 1))) hidden
                     (vocab div n + (if i < vocab mod n then 1 else 0)))"
proof -
  let ?xs = "map (\<lambda>i. (i, Conv2d_weight (g (stem @ show_nat (i + 1))) hidden
                        (vocab div n + (if i < vocab mod n then 1 else 0)))) [0..<n]"
  have d: "distinct (map (\<lambda>(i, sp). stem @ show_nat (i + 1)) ?xs)"
    using assms(1) by (simp add: comp_def)
  have m: "(i, Conv2d_weight (g (stem @ show_nat (i + 1))) hidden
                        (vocab div n + (if i < vocab mod n then 1 else 0))) \<in> set ?xs"
    using assms(2) by simp
  from fold_upd_lookup [where nm = "\<lambda>i. stem @ show_nat (i + 1)", OF d m]
  show ?thesis unfolding create_split_heads_fold .
qed

lemma init_lm_heads_16:
  "fst (init_lm_heads config g)
     = create_split_heads g ''lm_head16_'' 16 (hidden_size config) (vocab_size config)"
  by (simp add: init_lm_heads_def ENABLE_CONV2D_def ENABLE_VACAB_SPLIT16_def)

lemma init_lm_heads_shapes:
  assumes "i < 16"
  shows "\<exists>w. fst (init_lm_heads config g) (head16_names ! i) = Some w
           \<and> shape w = [vocab_size config div 16 + (if i < vocab_size config mod 16 then 1 else 0),
                          hidden_size config, 1, 1]"
proof -
  have nm: "head16_names ! i = ''lm_head16_'' @ show_nat (i + 1)"
    using assms by (simp add: head16_names_eq del: upt_Suc)
  have d: "distinct (map (\<lambda>i. ''lm_head16_'' @ show_nat (i + 1)) [0..<16])"
    using distinct_head16_names by (simp only: head16_names_eq)
  let ?w = "Conv2d_weight (g (''lm_head16_'' @ show_nat (i + 1))) (hidden_size config)
              (vocab_size config div 16 + (if i < vocab_size config mod 16 then 1 else 0))"
  have "create_split_heads g ''lm_head16_'' 16 (hidden_size config) (vocab_size config)
          (''lm_head16_'' @ show_nat (i + 1)) = Some ?w"
    by (rule create_split_heads_lookup [OF d assms])
  moreover have "shape ?w = [vocab_size config div 16
                               + (if i < vocab_size config mod 16 then 1 else 0),
                             hidden_size config, 1, 1]"
    by (simp only: Conv2d_weight_def shape_tabulate)
  ultimately show ?thesis unfolding init_lm_heads_16 nm by blast
qed

lemma collect_cong:
  "(\<And>x. x \<in> set xs \<Longrightarrow> f x = g x) \<Longrightarrow> collect f xs = collect g xs"
  by (induction xs) simp_all

lemma lm_head_forward_16:
  "lm_head_forward K m hs
     = and_then (permute [0, 2, 1] hs) (\<lambda>p.
         split_head_forward m head16_names (map_tensor (to_dtype K) (unsqueeze 2 p)))"
  by (simp add: lm_head_forward_def ENABLE_CONV2D_def ENABLE_VACAB_SPLIT16_def Let_def)

lemma split_head_forward_cong:
  assumes "\<And>n. n \<in> set names \<Longrightarrow> lm_heads m' n = lm_heads m n"
    and "enable_coreml m' = enable_coreml m"
  shows "split_head_forward m' names x = split_head_forward m names x"
proof -
  have "collect (head_logits (lm_heads m') x) names = collect (head_logits (lm_heads m) x) names"
    by (rule collect_cong) (simp add: head_logits_def assms(1))
  then show ?thesis by (simp add: split_head_forward_def assms(2))
qed

lemma split_head_forward_single:
  "\<not> enable_coreml m \<Longrightarrow> split_head_forward m names x = Inr r \<Longrightarrow> \<exists>t. r = Logits t"
  by (auto simp: split_head_forward_def and_then_def split: sum.splits)

lemma and_then_eq_Inr: "(and_then r f = Inr y) = (\<exists>x. r = Inr x \<and> f x = Inr y)"
  by (cases r) simp_all

lemma collect_Inr:
  "collect f xs = Inr ys \<Longrightarrow> length ys = length xs \<and> (\<forall>i<length xs. f (xs ! i) = Inr (ys ! i))"
proof (induction xs arbitrary: ys)
  case Nil
  then show ?case by simp
next
  case (Cons x xs)
  from Cons.prems obtain y zs where y: "f x = Inr y" and zs: "collect f xs = Inr zs"
    and ys: "ys = y # zs"
    by (auto simp: and_then_eq_Inr)
  from Cons.IH [OF zs] have "length zs = length xs" "\<forall>i<length xs. f (xs ! i) = Inr (zs ! i)"
    by simp_all
  then show ?case using y ys by (auto simp: nth_Cons split: nat.splits)
qed

lemma lm_heads_init:
  "lm_heads (fst (QwenForCausalLM_init config coreml model g)) = fst (init_lm_heads config g)"
  "enable_coreml (fst (QwenForCausalLM_init config coreml model g)) = coreml"
  "lm_config (fst (QwenForCausalLM_init config coreml model g)) = config"
  by (simp_all add: QwenForCausalLM_init_def split: prod.splits)

text \<open>
  Claim C10.  With the module constants as they are, the constructor creates exactly
  the sixteen attributes \<open>lm_head16_1\<close> .. \<open>lm_head16_16\<close>, shard \<open>i\<close> with
  \<open>vocab_size div 16 + (if i < vocab_size mod 16 then 1 else 0)\<close> output rows; the
  projection in \<open>forward\<close> and the head loader are their sixteen-way branches for every
  model and input, so their results depend on no other head attribute; and whatever a
  model with \<open>enable_coreml = False\<close> returns from \<open>forward\<close> is one logits tensor, the
  concatenation along axis 2 of the outputs of the sixteen shards, in order, on the
  hidden states that the decoder stack and the position selection produced, never the
  tuple of the shard outputs.  A model fresh from the constructor with at least sixteen
  tokens does return such a tensor, of shape \<open>[B, S, vocab_size]\<close>, on every non-empty
  hidden state of shape \<open>[B, S, hidden_size]\<close>.
\<close>

theorem sixteen_way_head_only:
  fixes K :: "'a::{zero,plus,times,minus,uminus} kernels"
  shows
  "dom (fst (init_lm_heads config g)) = set head16_names
   \<and> length head16_names = 16 \<and> distinct head16_names
   \<and> (\<forall>i<16. \<exists>w. fst (init_lm_heads config g) (head16_names ! i) = Some w
          \<and> shape w = [vocab_size config div 16
                          + (if i < vocab_size config mod 16 then 1 else 0),
                        hidden_size config, 1, 1])
   \<and> lm_head_forward K m hs
       = and_then (permute [0, 2, 1] hs) (\<lambda>p.
           split_head_forward m head16_names (map_tensor (to_dtype K) (unsqueeze 2 p)))
   \<and> ((\<forall>n\<in>set head16_names. lm_heads m' n = lm_heads m n)
        \<and> enable_coreml m' = enable_coreml m
        \<longrightarrow> lm_head_forward K m' hs = lm_head_forward K m hs)
   \<and> load_lm_head K m w
       = and_then (view_as_conv w) (\<lambda>r.
           load_split_heads (to_dtype K) ''lm_head16_'' 16 (vocab_size (lm_config m)) r
             (lm_heads m))
   \<and> enable_coreml (fst (QwenForCausalLM_init config False model g)) = False
   \<and> (\<not> enable_coreml m \<longrightarrow>
        (\<forall>r. QwenForCausalLM_forward K m ids um pos cm cur pf = Inr r \<longrightarrow>
           (\<exists>h0 h p outs t.
              QwenModel_forward K (lm_model m) ids cm pos cur pf = Inr h0
              \<and> select_current_pos h0 pf cur = Inr h
              \<and> permute [0, 2, 1] h = Inr p
              \<and> length outs = 16
              \<and> (\<forall>i<16. head_logits (lm_heads m) (map_tensor (to_dtype K) (unsqueeze 2 p))
                           (head16_names ! i) = Inr (outs ! i))
              \<and> cat outs 2 = Inr t \<and> r = Logits t)))
   \<and> (16 \<le> vocab_size config \<and> 0 < hidden_size config \<and> 0 < S
        \<and> shape hs = [B, S, hidden_size config] \<longrightarrow>
        (\<exists>t. lm_head_forward K (fst (QwenForCausalLM_init config False model g)) hs
                = Inr (Logits t)
              \<and> shape t = [B, S, vocab_size config]))"
proof -
  have 1: "dom (fst (init_lm_heads config g)) = set head16_names"
    unfolding init_lm_heads_16 create_split_heads_dom by (simp only: head16_names_eq)
  have 2: "length head16_names = 16" by (simp add: head16_names_def)
  have 4: "lm_head_forward K m' hs = lm_head_forward K m hs"
    if "\<forall>n\<in>set head16_names. lm_heads m' n = lm_heads m n" "enable_coreml m' = enable_coreml m"
    unfolding lm_head_forward_16
    using split_head_forward_cong [of head16_names m' m] that by simp
  have 5: "load_lm_head K m w
       = and_then (view_as_conv w) (\<lambda>r.
           load_split_heads (to_dtype K) ''lm_head16_'' 16 (vocab_size (lm_config m)) r
             (lm_heads m))"
    by (simp add: load_lm_head_def ENABLE_CONV2D_def ENABLE_VACAB_SPLIT16_def)
  have 6: "enable_coreml (fst (QwenForCausalLM_init config False model g)) = False"
    by (simp add: lm_heads_init)
  have 7: "\<exists>h0 h p outs t.
              QwenModel_forward K (lm_model m) ids cm pos cur pf = Inr h0
              \<and> select_current_pos h0 pf cur = Inr h
              \<and> permute [0, 2, 1] h = Inr p
              \<and> length outs = 16
              \<and> (\<forall>i<16. head_logits (lm_heads m) (map_tensor (to_dtype K) (unsqueeze 2 p))
                           (head16_names ! i) = Inr (outs ! i))
              \<and> cat outs 2 = Inr t \<and> r = Logits t"
    if nc: "\<not> enable_coreml m"
      and fw: "QwenForCausalLM_forward K m ids um pos cm cur pf = Inr r" for r
  proof -
    from fw obtain h0 h where
      h0: "QwenModel_forward K (lm_model m) ids cm pos cur pf = Inr h0"
      and h: "select_current_pos h0 pf cur = Inr h"
      and lh: "lm_head_forward K m h = Inr r"
      unfolding QwenForCausalLM_forward_def and_then_eq_Inr by blast
    from lh obtain p where p: "permute [0, 2, 1] h = Inr p"
      and sp: "split_head_forward m head16_names (map_tensor (to_dtype K) (unsqueeze 2 p)) = Inr r"
      unfolding lm_head_forward_16 and_then_eq_Inr by blast
    let ?x = "map_tensor (to_dtype K) (unsqueeze 2 p)"
    from sp nc have "and_then (collect (head_logits (lm_heads m) ?x) head16_names)
             (\<lambda>ls. and_then (cat ls 2) (\<lambda>logits. Inr (Logits logits))) = Inr r"
      by (simp add: split_head_forward_def)
    then obtain outs where
      co: "collect (head_logits (lm_heads m) ?x) head16_names = Inr outs"
      and c2: "and_then (cat outs 2) (\<lambda>logits. Inr (Logits logits)) = Inr r"
      unfolding and_then_eq_Inr by blast
    from c2 obtain t where ct: "cat outs 2 = Inr t" and r: "r = Logits t"
      unfolding and_then_eq_Inr by auto
    from collect_Inr [OF co] have "length outs = 16"
      "\<forall>i<16. head_logits (lm_heads m) ?x (head16_names ! i) = Inr (outs ! i)"
      by (simp_all add: 2)
    then show ?thesis using h0 h p ct r by blast
  qed
  have 8: "\<exists>t. lm_head_forward K (fst (QwenForCausalLM_init config False model g)) hs
                = Inr (Logits t)
              \<and> shape t = [B, S, vocab_size config]"
    if V: "16 \<le> vocab_size config" and H: "0 < hidden_size config" and S: "0 < S"
      and shs: "shape hs = [B, S, hidden_size config]"
  proof -
    let ?m = "fst (QwenForCausalLM_init config False model g)"
    let ?sizes = "split_sizes 16 (vocab_size config)"
    let ?w = "\<lambda>i. the (lm_heads ?m (head16_names ! i))"
    have hd: "lm_heads ?m (head16_names ! i) = Some (?w i)
               \<and> shape (?w i) = [?sizes ! i, hidden_size config, 1, 1]" if "i < 16" for i
      using init_lm_heads_shapes [OF that, of config g] that
      by (auto simp: lm_heads_init split_sizes_nth)
    have ps: "0 < ?sizes ! i" if "i < 16" for i
      using that V by (intro split_sizes_pos) simp_all
    have nc: "\<not> enable_coreml ?m" by (simp add: lm_heads_init)
    have sum: "sum_list ?sizes = vocab_size config" by (rule sum_list_split_sizes) simp
    from split_head_forward_formula [where n = 16 and names = head16_names and sizes = ?sizes
        and m = ?m and w = ?w and cast = "to_dtype K", OF _ 2 _ hd ps H S shs nc]
    have "\<exists>t. split_head_forward ?m head16_names
           (map_tensor (to_dtype K) (unsqueeze 2
              (tabulate [B, hidden_size config, S] (\<lambda>idx. item hs [idx ! 0, idx ! 2, idx ! 1]))))
           = Inr (Logits t) \<and> shape t = [B, S, vocab_size config]"
      by (simp add: sum)
    then show ?thesis
      unfolding lm_head_forward_16 by (simp only: permute021 [OF shs] and_then_Inr)
  qed
  show ?thesis
    using 1 2 distinct_head16_names init_lm_heads_shapes [of _ config g] lm_head_forward_16 4 5 6 7 8
    by blast
qed

text \<open>
  With fewer than sixteen tokens the statement fails: for a vocabulary of three tokens
  the constructor creates thirteen shards without output rows, the loader fills all
  sixteen, and the projection raises in the first empty shard, while the single unsplit
  projection of the same weight returns logits.
\<close>

theorem partitioned_head_raises_below_sixteen:
  "(case load_lm_head toy_kernels toy_lm (Tensor [3, 2] [1, 2, 3, 4, 5, 6]) of
      Inr (heads, out) \<Rightarrow>
        Some (lm_head_forward toy_kernels (toy_lm\<lparr>lm_heads := heads\<rparr>)
                (Tensor [1, 2, 2] [1, 0, 0, 1]))
    | Inl e \<Rightarrow> None) = Some (Inl RuntimeError)
   \<and> unsplit_projection toy_kernels (\<lambda>idx. 0) 2 3 (Tensor [3, 2] [1, 2, 3, 4, 5, 6])
        (Tensor [1, 2, 2] [1, 0, 0, 1])
      = Inr (Logits (Tensor [1, 2, 3] [1, 3, 5, 2, 4, 6]))"
  by code_simp

lemma vocab17_fields:
  "vocab_size vocab17_config = 17" "hidden_size vocab17_config = 2"
  "vocab_size (lm_config vocab17_empty) = 17" "\<not> enable_coreml vocab17_empty"
  "lm_heads vocab17_empty = fst (init_lm_heads vocab17_config (\<lambda>name idx. 0))"
  by (simp_all add: vocab17_empty_def lm_heads_init vocab17_config_def toy_config_def)

theorem partitioned_head_equals_unsplit_witness:
  "\<exists>heads out.
     load_lm_head coarse_kernels vocab17_empty vocab17_head = Inr (heads, out)
     \<and> lm_head_forward coarse_kernels (vocab17_empty\<lparr>lm_heads := heads\<rparr>)
         (Tensor [1, 2, 2] [3, 0, 1, 2])
         = Inr (Logits (Tensor [1, 2, 17] [0, 4, 8, 12, 16, 20, 24, 28, 32, 36, 40, 44, 48, 52, 56, 60, 64, 4, 8, 12, 16, 20, 24, 28, 32, 36, 40, 44, 48, 52, 56, 60, 64, 68]))
     \<and> unsplit_projection coarse_kernels (\<lambda>idx. 0) 2 17 vocab17_head (Tensor [1, 2, 2] [3, 0, 1, 2])
         = Inr (Logits (Tensor [1, 2, 17] [0, 4, 8, 12, 16, 20, 24, 28, 32, 36, 40, 44, 48, 52, 56, 60, 64, 4, 8, 12, 16, 20, 24, 28, 32, 36, 40, 44, 48, 52, 56, 60, 64, 68]))
     \<and> (\<exists>w. heads (head16_names ! 1) = Some w \<and> shape w = [1, 2, 1, 1]
           \<and> item w [0, 0, 0, 0] = 4 \<and> item vocab17_head [2, 0] = 5)"
proof -
  let ?hs = "Tensor [1, 2, 2] [3, 0, 1, 2 :: int]"
  have shW: "shape vocab17_head = [17, 2]" by (simp add: vocab17_head_def)
  have shs: "shape ?hs = [1, 2, 2]" by simp
  have heads: "\<forall>i<16. \<exists>d. lm_heads vocab17_empty (head16_names ! i) = Some d
                  \<and> shape d = [17 div 16 + (if i < 17 mod 16 then 1 else 0), 2, 1, 1]"
    using init_lm_heads_shapes [of _ vocab17_config "\<lambda>name idx. 0"]
    unfolding vocab17_fields by blast
  have ev: "tabulate [1, 2, 17]
              (\<lambda>idx. sum_upto 2 (\<lambda>c. to_dtype coarse_kernels (item vocab17_head [idx ! 2, c])
                                     * to_dtype coarse_kernels (item ?hs [idx ! 0, idx ! 1, c])))
            = Tensor [1, 2, 17] [0, 4, 8, 12, 16, 20, 24, 28, 32, 36, 40, 44, 48, 52, 56, 60, 64, 4, 8, 12, 16, 20, 24, 28, 32, 36, 40, 44, 48, 52, 56, 60, 64, 68]"
    by code_simp
  have e2: "to_dtype coarse_kernels
              (item vocab17_head [sum_list (take 1 (split_sizes 16 17)) + 0, 0]) = 4"
    "item vocab17_head [2, 0] = 5"
    "(17::nat) div 16 + (if (1::nat) < 17 mod 16 then 1 else 0) = 1"
    by code_simp+
  from partitioned_head_equals_unsplit [where K = coarse_kernels and g = "\<lambda>idx. 0",
      OF shW vocab17_fields(3) heads shs vocab17_fields(4)]
  obtain hs' out where
    l: "load_lm_head coarse_kernels vocab17_empty vocab17_head = Inr (hs', out)"
    and f: "lm_head_forward coarse_kernels (vocab17_empty\<lparr>lm_heads := hs'\<rparr>) ?hs
              = Inr (Logits (Tensor [1, 2, 17] [0, 4, 8, 12, 16, 20, 24, 28, 32, 36, 40, 44, 48, 52, 56, 60, 64, 4, 8, 12, 16, 20, 24, 28, 32, 36, 40, 44, 48, 52, 56, 60, 64, 68]))"
    and u: "lm_head_forward coarse_kernels (vocab17_empty\<lparr>lm_heads := hs'\<rparr>) ?hs
              = unsplit_projection coarse_kernels (\<lambda>idx. 0) 2 17 vocab17_head ?hs"
    and b: "\<forall>i<16. \<exists>w. hs' (head16_names ! i) = Some w
                  \<and> shape w = [17 div 16 + (if i < 17 mod 16 then 1 else 0), 2, 1, 1]
                  \<and> (\<forall>u < 17 div 16 + (if i < 17 mod 16 then 1 else 0). \<forall>c<2.
                        item w [u, c, 0, 0]
                          = to_dtype coarse_kernels
                              (item vocab17_head [sum_list (take i (split_sizes 16 17)) + u, c]))"
    unfolding ev by auto
  from b [rule_format, of 1] obtain w where
    w: "hs' (head16_names ! 1) = Some w" "shape w = [1, 2, 1, 1]"
    and wi: "\<forall>u < 1. \<forall>c<2. item w [u, c, 0, 0]
               = to_dtype coarse_kernels
                   (item vocab17_head [sum_list (take 1 (split_sizes 16 17)) + u, c])"
    unfolding e2(3) by auto
  have "item w [0, 0, 0, 0] = 4" using wi [rule_format, of 0 0] e2(1) by simp
  then have "\<exists>w. hs' (head16_names ! 1) = Some w \<and> shape w = [1, 2, 1, 1]
           \<and> item w [0, 0, 0, 0] = 4 \<and> item vocab17_head [2, 0] = 5"
    using w e2(2) by blast
  moreover have "unsplit_projection coarse_kernels (\<lambda>idx. 0) 2 17 vocab17_head ?hs
         = Inr (Logits (Tensor [1, 2, 17] [0, 4, 8, 12, 16, 20, 24, 28, 32, 36, 40, 44, 48, 52, 56, 60, 64, 4, 8, 12, 16, 20, 24, 28, 32, 36, 40, 44, 48, 52, 56, 60, 64, 68]))"
    using f u by simp
  ultimately show ?thesis using l f by blast
qed

theorem sixteen_way_head_only_witness:
  "dom (fst (init_lm_heads vocab17_config (\<lambda>name idx. 0))) = set head16_names
   \<and> lm_head_forward toy_kernels
       (vocab17_lm\<lparr>lm_heads := (lm_heads vocab17_lm) (''lm_head8_1'' \<mapsto> Tensor [1, 2, 1, 1] [7, 7])\<rparr>)
       (Tensor [1, 2, 2] [1, 0, 0, 1])
     = lm_head_forward toy_kernels vocab17_lm (Tensor [1, 2, 2] [1, 0, 0, 1])
   \<and> QwenForCausalLM_forward toy_kernels vocab17_lm (Tensor [1, 2] [0, 2]) None
         (Some (Tensor [2] [0, 1])) (Some (Tensor [1, 1, 3, 3] [0, - 9, - 9, 0, 0, - 9, 0, 0, 0]))
         (Some (PosInt 1)) False
       = Inr (Logits (Tensor [1, 1, 17] [2, 4, 6, 8, 10, 12, 14, 16, 18, 20, 22, 24, 26, 28, 30, 32, 34]))
   \<and> (\<exists>outs. length outs = 16
         \<and> cat outs 2 = Inr (Tensor [1, 1, 17]
               [2, 4, 6, 8, 10, 12, 14, 16, 18, 20, 22, 24, 26, 28, 30, 32, 34 :: int]))
   \<and> (\<exists>t. lm_head_forward toy_kernels vocab17_empty (Tensor [1, 2, 2] [1, 0, 0, 1])
             = Inr (Logits t)
           \<and> shape t = [1, 2, 17])"
proof -
  let ?hs = "Tensor [1, 2, 2] [1, 0, 0, 1 :: int]"
  let ?m' = "vocab17_lm\<lparr>lm_heads := (lm_heads vocab17_lm) (''lm_head8_1'' \<mapsto> Tensor [1, 2, 1, 1] [7, 7])\<rparr>"
  let ?ids = "Tensor [1, 2] [0, 2 :: int]"
  let ?cm = "Some (Tensor [1, 1, 3, 3] [0, - 9, - 9, 0, 0, - 9, 0, 0, 0 :: int])"
  let ?T = "Tensor [1, 1, 17] [2, 4, 6, 8, 10, 12, 14, 16, 18, 20, 22, 24, 26, 28, 30, 32, 34] :: int tensor"
  note th = sixteen_way_head_only [where config = vocab17_config and g = "\<lambda>name idx. 0"
      and K = toy_kernels and m = vocab17_lm and m' = ?m' and hs = ?hs and ids = ?ids
      and um = None and pos = "Some (Tensor [2] [0, 1])" and cm = ?cm
      and cur = "Some (PosInt 1)" and pf = False and model = vocab17_model and B = 1 and S = 2]
  have notin: "''lm_head8_1'' \<notin> set head16_names" by code_simp
  have same: "\<forall>n\<in>set head16_names. lm_heads ?m' n = lm_heads vocab17_lm n"
    using notin by auto
  have core: "enable_coreml ?m' = enable_coreml vocab17_lm" by simp
  have nc: "\<not> enable_coreml vocab17_lm" by code_simp
  have ev: "QwenForCausalLM_forward toy_kernels vocab17_lm ?ids None (Some (Tensor [2] [0, 1])) ?cm
              (Some (PosInt 1)) False = Inr (Logits ?T)"
    by code_simp
  have hyp: "16 \<le> vocab_size vocab17_config \<and> 0 < hidden_size vocab17_config \<and> 0 < (2::nat)
               \<and> shape ?hs = [1, 2, hidden_size vocab17_config]"
    by (simp add: vocab17_fields)
  have a: "dom (fst (init_lm_heads vocab17_config (\<lambda>name idx. 0))) = set head16_names"
    using th by blast
  have b: "lm_head_forward toy_kernels ?m' ?hs = lm_head_forward toy_kernels vocab17_lm ?hs"
    using th same core by blast
  have "\<exists>h0 h p outs t. QwenModel_forward toy_kernels (lm_model vocab17_lm) ?ids ?cm
              (Some (Tensor [2] [0, 1])) (Some (PosInt 1)) False = Inr h0
              \<and> select_current_pos h0 False (Some (PosInt 1)) = Inr h
              \<and> permute [0, 2, 1] h = Inr p
              \<and> length outs = 16
              \<and> (\<forall>i<16. head_logits (lm_heads vocab17_lm)
                           (map_tensor (to_dtype toy_kernels) (unsqueeze 2 p))
                           (head16_names ! i) = Inr (outs ! i))
              \<and> cat outs 2 = Inr t \<and> Logits ?T = Logits t"
    using th nc ev by blast
  then have c: "\<exists>outs. length outs = 16 \<and> cat outs 2 = Inr ?T" by auto
  have d: "\<exists>t. lm_head_forward toy_kernels vocab17_empty ?hs = Inr (Logits t)
           \<and> shape t = [1, 2, 17]"
    using th hyp unfolding vocab17_empty_def [symmetric] vocab17_fields by blast
  show ?thesis using a b ev c d by blast
qed

section \<open>The rotary tables\<close>

lemma map_tensor_tabulate: "map_tensor f (tabulate sh g) = tabulate sh (\<lambda>idx. f (g idx))"
  by (simp add: tabulate_def comp_def)

lemma item_unsqueeze0: "item (unsqueeze 0 t) (0 # idx) = item t idx"
  by (simp add: item_def unsqueeze_def)

lemma shape_unsqueeze0 [simp]: "shape (unsqueeze 0 t) = 1 # shape t"
  by (simp add: unsqueeze_def)

lemma length_arange_step2: "length (arange_step2 n) = (n + 1) div 2"
  by (simp add: arange_step2_def)

lemma nth_arange_step2: "i < (n + 1) div 2 \<Longrightarrow> arange_step2 n ! i = 2 * i"
  by (simp add: arange_step2_def)

lemma valid_index2:
  "valid_index [a, b] idx \<Longrightarrow> \<exists>i j. idx = [i, j] \<and> i < a \<and> j < b"
  by (cases idx) (auto simp: valid_index_def list_all2_Cons2)

lemma cat_self_last:
  assumes "shape f = [P, h]"
  shows "cat [f, f] 1 = Inr (tabulate [P, h + h]
           (\<lambda>idx. item f [idx ! 0, if idx ! 1 < h then idx ! 1 else idx ! 1 - h]))"
proof -
  have "tabulate [P, h + h]
          (\<lambda>idx. case locate [h, h] (idx ! 1) of (i, u) \<Rightarrow> item ([f, f] ! i) (idx [1 := u]))
        = tabulate [P, h + h]
           (\<lambda>idx. item f [idx ! 0, if idx ! 1 < h then idx ! 1 else idx ! 1 - h])"
  proof (rule tabulate_cong)
    fix idx assume "valid_index [P, h + h] idx"
    then obtain p d where idx: "idx = [p, d]" and "p < P" "d < h + h"
      using valid_index2 [of P "h + h" idx] by auto
    then show "(case locate [h, h] (idx ! 1) of (i, u) \<Rightarrow> item ([f, f] ! i) (idx [1 := u]))
        = item f [idx ! 0, if idx ! 1 < h then idx ! 1 else idx ! 1 - h]"
      by (auto simp: idx)
  qed
  then show ?thesis using assms by (simp add: cat_def Let_def)
qed

lemma rotary_init_result:
  fixes F :: "'a float_ops" and config :: "'a QwenConfig"
  assumes heads: "0 < num_attention_heads config"
  defines "D \<equiv> head_dim config" and "P \<equiv> max_position_embeddings config"
    and "th \<equiv> rope_theta config" and "n \<equiv> (head_dim config + 1) div 2"
  shows "\<exists>r. QwenRotaryEmbedding_init F config = Inr r
           \<and> rot_dim r = D
           \<and> shape (inv_freq r) = [n]
           \<and> (\<forall>i<n. item (inv_freq r) [i]
                  = fdiv F (from_nat F 1)
                      (fpow F th (fdiv F (from_nat F (2 * i)) (from_nat F D))))
           \<and> shape (cos_cached r) = [1, P, n + n] \<and> shape (sin_cached r) = [1, P, n + n]
           \<and> (\<forall>p<P. \<forall>d<n + n.
                 item (cos_cached r) [0, p, d]
                   = fcos F (fmul F (from_nat F p) (item (inv_freq r) [d mod n]))
               \<and> item (sin_cached r) [0, p, d]
                   = fsin F (fmul F (from_nat F p) (item (inv_freq r) [d mod n])))"
proof -
  define freq where "freq = map (\<lambda>j. fdiv F (from_nat F 1)
                               (fpow F th (fdiv F (from_nat F j) (from_nat F D))))
                     (arange_step2 D)"
  let ?inv = "Tensor [length freq] freq"
  let ?t = "Tensor [P] (map (from_nat F) [0..<P])"
  let ?freqs = "tabulate [P, length freq]
                  (\<lambda>idx. fmul F (item ?t [idx ! 0]) (item ?inv [idx ! 1]))"
  have len: "length freq = n" by (simp add: freq_def length_arange_step2 n_def D_def)
  let ?emb = "tabulate [P, n + n]
           (\<lambda>idx. item ?freqs [idx ! 0, if idx ! 1 < n then idx ! 1 else idx ! 1 - n])"
  have shf: "shape ?freqs = [P, n]" by (simp only: shape_tabulate len)
  have cat: "cat [?freqs, ?freqs] 1 = Inr ?emb"
    using cat_self_last [OF shf] .
  let ?r = "\<lparr>rot_dim = D, inv_freq = ?inv,
            cos_cached = unsqueeze 0 (map_tensor (fcos F) ?emb),
            sin_cached = unsqueeze 0 (map_tensor (fsin F) ?emb)\<rparr>"
  have nz: "num_attention_heads config \<noteq> 0" using heads by simp
  have init: "QwenRotaryEmbedding_init F config = Inr ?r"
    unfolding QwenRotaryEmbedding_init_def Let_def D_def [symmetric] P_def [symmetric]
      th_def [symmetric] freq_def [symmetric]
    by (simp only: nz if_False cat and_then_Inr)
  have inv: "item ?inv [i]
               = fdiv F (from_nat F 1) (fpow F th (fdiv F (from_nat F (2 * i)) (from_nat F D)))"
    if "i < n" for i
  proof -
    have "i < (D + 1) div 2" using that by (simp add: n_def D_def)
    then have "arange_step2 D ! i = 2 * i" by (rule nth_arange_step2)
    moreover have "i < length (arange_step2 D)"
      using that by (simp add: length_arange_step2 n_def D_def)
    ultimately show ?thesis by (simp add: item_def freq_def)
  qed
  have mod_lt: "d mod n < n" if "d < n + n" for d
    using that by (cases "n = 0") auto
  have emb: "item ?emb [p, d] = fmul F (from_nat F p) (item ?inv [d mod n])"
    if p: "p < P" and d: "d < n + n" for p d
  proof -
    let ?e = "if d < n then d else d - n"
    have e: "?e = d mod n" using d
      by (cases "d < n") (simp_all add: le_mod_geq)
    have elt: "?e < n" using mod_lt [OF d] e by simp
    have "item ?emb [p, d] = item ?freqs [p, ?e]" using p d by (simp add: item_tabulate)
    also have "\<dots> = fmul F (item ?t [p]) (item ?inv [?e])"
      using p elt by (simp add: item_tabulate len)
    also have "item ?t [p] = from_nat F p" using p by (simp add: item_def)
    finally show ?thesis by (simp only: e)
  qed
  have cosv: "item (unsqueeze 0 (map_tensor f ?emb)) [0, p, d] = f (item ?emb [p, d])"
    if "p < P" "d < n + n" for p d and f :: "'a \<Rightarrow> 'a"
    using that by (simp add: item_unsqueeze0 map_tensor_tabulate item_tabulate)
  have "rot_dim ?r = D" "shape (inv_freq ?r) = [n]" by (simp_all add: len)
  moreover have "\<forall>i<n. item (inv_freq ?r) [i]
                  = fdiv F (from_nat F 1)
                      (fpow F th (fdiv F (from_nat F (2 * i)) (from_nat F D)))"
    using inv by simp
  moreover have "shape (cos_cached ?r) = [1, P, n + n]" "shape (sin_cached ?r) = [1, P, n + n]"
    by (simp_all add: map_tensor_tabulate)
  moreover have "\<forall>p<P. \<forall>d<n + n.
                 item (cos_cached ?r) [0, p, d]
                   = fcos F (fmul F (from_nat F p) (item (inv_freq ?r) [d mod n]))
               \<and> item (sin_cached ?r) [0, p, d]
                   = fsin F (fmul F (from_nat F p) (item (inv_freq ?r) [d mod n]))"
    using cosv emb by simp
  ultimately show ?thesis using init by blast
qed

lemma rotary_lookup:
  assumes shc: "shape (cos_cached m) = [1, P, D]" and shsn: "shape (sin_cached m) = [1, P, D]"
    and sh: "sh = [S] \<or> sh = [1, S]" and len: "length ps = S"
    and rng: "\<forall>q\<in>set ps. 0 \<le> q \<and> q < int P"
  shows "QwenRotaryEmbedding_forward K m x (Some (Tensor sh ps))
           = Inr (tabulate [1, S, D]
                    (\<lambda>idx. to_dtype K (item (cos_cached m) [0, nat (ps ! (idx ! 1)), idx ! 2])),
                  tabulate [1, S, D]
                    (\<lambda>idx. to_dtype K (item (sin_cached m) [0, nat (ps ! (idx ! 1)), idx ! 2])))"
proof -
  let ?ids = "Tensor [S] ps"
  have pos: "(if length (shape (Tensor sh ps)) = 1 then Tensor sh ps else squeeze 0 (Tensor sh ps))
               = ?ids"
    using sh by (auto simp: squeeze_def)
  have ok: "list_all (\<lambda>p. - int P \<le> p \<and> p < int P) (elems ?ids)"
    using rng by (auto simp: list_all_iff)
  have g: "gather_rows t ?ids
             = Inr (tabulate [1, S, D] (\<lambda>idx. item t [0, nat (ps ! (idx ! 1)), idx ! 2]))"
    if st: "shape t = [1, P, D]" for t :: "'a tensor"
  proof -
    have "tabulate [1, S, D]
            (\<lambda>idx. let r = length (shape ?ids); p = item ?ids (take r (tl idx));
                        q = (if p < 0 then nat (int P + p) else nat p)
                    in item t (hd idx # q # drop (Suc r) idx))
          = tabulate [1, S, D] (\<lambda>idx. item t [0, nat (ps ! (idx ! 1)), idx ! 2])"
    proof (rule tabulate_cong)
      fix idx assume "valid_index [1, S, D] idx"
      then obtain i j d where idx: "idx = [i, j, d]" and i: "i < 1" and j: "j < S" and d: "d < D"
        using valid_index3 [of 1 S D idx] by auto
      have "ps ! j \<in> set ps" using j len by simp
      then have "0 \<le> ps ! j" using rng by blast
      then show "(let r = length (shape ?ids); p = item ?ids (take r (tl idx));
                        q = (if p < 0 then nat (int P + p) else nat p)
                    in item t (hd idx # q # drop (Suc r) idx))
                 = item t [0, nat (ps ! (idx ! 1)), idx ! 2]"
        using i by (simp add: idx item_def Let_def)
    qed
    then show ?thesis using st ok by (simp add: gather_rows_def)
  qed
  show ?thesis
    unfolding QwenRotaryEmbedding_forward_def option.case Let_def pos
    by (simp only: g [OF shc] g [OF shsn] and_then_Inr map_tensor_tabulate)
qed

lemma rotary_fallback:
  assumes shc: "shape (cos_cached m) = [1, P, D]" and shsn: "shape (sin_cached m) = [1, P, D]"
    and shx: "shape x = [B, S, H]"
  shows "QwenRotaryEmbedding_forward K m x None
           = Inr (tabulate [1, min P S, D]
                    (\<lambda>idx. to_dtype K (item (cos_cached m) [0, idx ! 1, idx ! 2])),
                  tabulate [1, min P S, D]
                    (\<lambda>idx. to_dtype K (item (sin_cached m) [0, idx ! 1, idx ! 2])))"
proof -
  have s: "slice 1 0 (int S) t = tabulate [1, min P S, D] (\<lambda>idx. item t [0, idx ! 1, idx ! 2])"
    if st: "shape t = [1, P, D]" for t :: "'a tensor"
  proof -
    have "tabulate [1, min P S, D] (\<lambda>idx. item t (idx [1 := 0 + idx ! 1]))
            = tabulate [1, min P S, D] (\<lambda>idx. item t [0, idx ! 1, idx ! 2])"
    proof (rule tabulate_cong)
      fix idx assume "valid_index [1, min P S, D] idx"
      then obtain i j d where "idx = [i, j, d]" "i < 1"
        using valid_index3 [of 1 "min P S" D idx] by auto
      then show "item t (idx [1 := 0 + idx ! 1]) = item t [0, idx ! 1, idx ! 2]" by simp
    qed
    then show ?thesis using st by (simp add: slice_def narrow_def slice_bound_def Let_def)
  qed
  have "QwenRotaryEmbedding_forward K m x None
          = Inr (map_tensor (to_dtype K) (slice 1 0 (int S) (cos_cached m)),
                 map_tensor (to_dtype K) (slice 1 0 (int S) (sin_cached m)))"
    using shx by (simp add: QwenRotaryEmbedding_forward_def)
  then show ?thesis by (simp only: s [OF shc] s [OF shsn] map_tensor_tabulate)
qed

text \<open>
  Claim C9.  The constructor raises \<open>ZeroDivisionError\<close> for a configuration without
  attention heads.  Otherwise it computes, once, \<open>n = (D + 1) div 2\<close> inverse frequencies
  \<open>1 / theta ** (2 i / D)\<close>, which over the reals and for a positive base are
  \<open>theta powr (- 2 i / D)\<close>, and tables of shape \<open>[1, P, n + n]\<close> for the positions
  \<open>0 .. P - 1\<close> whose second half repeats the first: \<open>cos[p, d + n] = cos[p, d]\<close> and
  likewise for \<open>sin\<close>; for an even head dimension \<open>n = D div 2\<close> and the tables have shape
  \<open>[1, P, D]\<close>.  A lookup reads the tables stored in the module, of width \<open>W\<close>: with
  position ids of length \<open>S\<close> (rank 1, or rank 2 with a leading axis of size 1) inside
  \<open>0 .. P - 1\<close> it returns the rows at those positions as two \<open>[1, S, W]\<close> tensors, and
  with no position ids the first \<open>min P S'\<close> rows, for a sequence of length \<open>S'\<close>; both
  are converted to the caller's precision.  The first part holds for any floating-point
  operations.
\<close>

theorem rotary_tables_and_lookup:
  fixes F :: "'a float_ops" and config :: "'a QwenConfig" and rconfig :: "real QwenConfig"
    and K :: "'b kernels" and m :: "'b QwenRotaryEmbedding"
  assumes "shape (cos_cached m) = [1, P, W]" and "shape (sin_cached m) = [1, P, W]"
    and "sh = [S] \<or> sh = [1, S]" and "length ps = S"
    and "\<forall>q\<in>set ps. 0 \<le> q \<and> q < int P"
    and "shape x = [B, S', H]"
  shows "(num_attention_heads config = 0 \<longrightarrow>
            QwenRotaryEmbedding_init F config = Inl ZeroDivisionError)
         \<and> (0 < num_attention_heads config \<longrightarrow>
            (\<exists>r. QwenRotaryEmbedding_init F config = Inr r
               \<and> shape (inv_freq r) = [(head_dim config + 1) div 2]
               \<and> (\<forall>i < (head_dim config + 1) div 2.
                     item (inv_freq r) [i]
                       = fdiv F (from_nat F 1)
                           (fpow F (rope_theta config)
                              (fdiv F (from_nat F (2 * i)) (from_nat F (head_dim config)))))
               \<and> shape (cos_cached r)
                   = [1, max_position_embeddings config,
                      (head_dim config + 1) div 2 + (head_dim config + 1) div 2]
               \<and> shape (sin_cached r) = shape (cos_cached r)
               \<and> (\<forall>p < max_position_embeddings config.
                   \<forall>d < (head_dim config + 1) div 2 + (head_dim config + 1) div 2.
                     item (cos_cached r) [0, p, d]
                       = fcos F (fmul F (from_nat F p)
                                   (item (inv_freq r) [d mod ((head_dim config + 1) div 2)]))
                     \<and> item (sin_cached r) [0, p, d]
                       = fsin F (fmul F (from_nat F p)
                                   (item (inv_freq r) [d mod ((head_dim config + 1) div 2)])))
               \<and> (\<forall>p < max_position_embeddings config. \<forall>d < (head_dim config + 1) div 2.
                     item (cos_cached r) [0, p, d + (head_dim config + 1) div 2]
                       = item (cos_cached r) [0, p, d]
                     \<and> item (sin_cached r) [0, p, d + (head_dim config + 1) div 2]
                       = item (sin_cached r) [0, p, d])
               \<and> (even (head_dim config) \<longrightarrow>
                     shape (inv_freq r) = [head_dim config div 2]
                     \<and> shape (cos_cached r)
                         = [1, max_position_embeddings config, head_dim config]
                     \<and> shape (sin_cached r)
                         = [1, max_position_embeddings config, head_dim config]
                     \<and> (\<forall>p < max_position_embeddings config. \<forall>d < head_dim config div 2.
                           item (cos_cached r) [0, p, d + head_dim config div 2]
                             = item (cos_cached r) [0, p, d]
                           \<and> item (sin_cached r) [0, p, d + head_dim config div 2]
                             = item (sin_cached r) [0, p, d]))))
         \<and> (0 < num_attention_heads rconfig \<and> 0 < rope_theta rconfig \<longrightarrow>
            (\<exists>r. QwenRotaryEmbedding_init real_float_ops rconfig = Inr r
               \<and> (\<forall>i < (head_dim rconfig + 1) div 2.
                     item (inv_freq r) [i]
                       = rope_theta rconfig
                           powr (- (real (2 * i) / real (head_dim rconfig))))))
         \<and> QwenRotaryEmbedding_forward K m x (Some (Tensor sh ps))
             = Inr (tabulate [1, S, W]
                      (\<lambda>idx. to_dtype K (item (cos_cached m) [0, nat (ps ! (idx ! 1)), idx ! 2])),
                    tabulate [1, S, W]
                      (\<lambda>idx. to_dtype K (item (sin_cached m) [0, nat (ps ! (idx ! 1)), idx ! 2])))
         \<and> QwenRotaryEmbedding_forward K m x None
             = Inr (tabulate [1, min P S', W]
                      (\<lambda>idx. to_dtype K (item (cos_cached m) [0, idx ! 1, idx ! 2])),
                    tabulate [1, min P S', W]
                      (\<lambda>idx. to_dtype K (item (sin_cached m) [0, idx ! 1, idx ! 2])))"
proof -
  let ?D = "head_dim config" and ?P = "max_position_embeddings config"
  let ?n = "(head_dim config + 1) div 2"
  have Z: "QwenRotaryEmbedding_init F config = Inl ZeroDivisionError"
    if "num_attention_heads config = 0"
    using that by (simp add: QwenRotaryEmbedding_init_def)
  have A: "\<exists>r. QwenRotaryEmbedding_init F config = Inr r
               \<and> shape (inv_freq r) = [?n]
               \<and> (\<forall>i < ?n.
                     item (inv_freq r) [i]
                       = fdiv F (from_nat F 1)
                           (fpow F (rope_theta config)
                              (fdiv F (from_nat F (2 * i)) (from_nat F ?D))))
               \<and> shape (cos_cached r) = [1, ?P, ?n + ?n]
               \<and> shape (sin_cached r) = shape (cos_cached r)
               \<and> (\<forall>p < ?P. \<forall>d < ?n + ?n.
                     item (cos_cached r) [0, p, d]
                       = fcos F (fmul F (from_nat F p) (item (inv_freq r) [d mod ?n]))
                     \<and> item (sin_cached r) [0, p, d]
                       = fsin F (fmul F (from_nat F p) (item (inv_freq r) [d mod ?n])))
               \<and> (\<forall>p < ?P. \<forall>d < ?n.
                     item (cos_cached r) [0, p, d + ?n] = item (cos_cached r) [0, p, d]
                     \<and> item (sin_cached r) [0, p, d + ?n] = item (sin_cached r) [0, p, d])
               \<and> (even ?D \<longrightarrow>
                     shape (inv_freq r) = [?D div 2]
                     \<and> shape (cos_cached r) = [1, ?P, ?D]
                     \<and> shape (sin_cached r) = [1, ?P, ?D]
                     \<and> (\<forall>p < ?P. \<forall>d < ?D div 2.
                           item (cos_cached r) [0, p, d + ?D div 2] = item (cos_cached r) [0, p, d]
                           \<and> item (sin_cached r) [0, p, d + ?D div 2]
                             = item (sin_cached r) [0, p, d]))"
    if heads: "0 < num_attention_heads config"
  proof -
    from rotary_init_result [OF heads, of F]
    obtain r where init: "QwenRotaryEmbedding_init F config = Inr r"
      and shi: "shape (inv_freq r) = [?n]"
      and inv: "\<forall>i < ?n. item (inv_freq r) [i]
                  = fdiv F (from_nat F 1)
                      (fpow F (rope_theta config) (fdiv F (from_nat F (2 * i)) (from_nat F ?D)))"
      and shc: "shape (cos_cached r) = [1, ?P, ?n + ?n]"
      and shs: "shape (sin_cached r) = [1, ?P, ?n + ?n]"
      and tab: "\<forall>p<?P. \<forall>d<?n + ?n.
                 item (cos_cached r) [0, p, d]
                   = fcos F (fmul F (from_nat F p) (item (inv_freq r) [d mod ?n]))
               \<and> item (sin_cached r) [0, p, d]
                   = fsin F (fmul F (from_nat F p) (item (inv_freq r) [d mod ?n]))"
      by blast
    have dup: "item (cos_cached r) [0, p, d + ?n] = item (cos_cached r) [0, p, d]
              \<and> item (sin_cached r) [0, p, d + ?n] = item (sin_cached r) [0, p, d]"
      if p: "p < ?P" and d: "d < ?n" for p d
    proof -
      have "d + ?n < ?n + ?n" "d < ?n + ?n" using d by linarith+
      moreover have "(d + ?n) mod ?n = d mod ?n" by simp
      ultimately show ?thesis using tab p by simp
    qed
    have evn: "?n = ?D div 2" "?D div 2 + ?D div 2 = ?D" if "even ?D"
      using that by (auto elim: evenE)
    have E: "shape (inv_freq r) = [?D div 2]
                     \<and> shape (cos_cached r) = [1, ?P, ?D]
                     \<and> shape (sin_cached r) = [1, ?P, ?D]
                     \<and> (\<forall>p < ?P. \<forall>d < ?D div 2.
                           item (cos_cached r) [0, p, d + ?D div 2] = item (cos_cached r) [0, p, d]
                           \<and> item (sin_cached r) [0, p, d + ?D div 2]
                             = item (sin_cached r) [0, p, d])"
      if ev: "even ?D"
      using shi shc shs dup unfolding evn [OF ev] by blast
    have "shape (sin_cached r) = shape (cos_cached r)" using shc shs by simp
    then show ?thesis using init shi inv shc tab dup E by blast
  qed
  have R: "\<exists>r. QwenRotaryEmbedding_init real_float_ops rconfig = Inr r
               \<and> (\<forall>i < (head_dim rconfig + 1) div 2.
                     item (inv_freq r) [i]
                       = rope_theta rconfig
                           powr (- (real (2 * i) / real (head_dim rconfig))))"
    if heads: "0 < num_attention_heads rconfig"
  proof -
    from rotary_init_result [OF heads, of real_float_ops]
    obtain r where init: "QwenRotaryEmbedding_init real_float_ops rconfig = Inr r"
      and inv: "\<forall>i < (head_dim rconfig + 1) div 2. item (inv_freq r) [i]
                  = fdiv real_float_ops (from_nat real_float_ops 1)
                      (fpow real_float_ops (rope_theta rconfig)
                         (fdiv real_float_ops (from_nat real_float_ops (2 * i))
                            (from_nat real_float_ops (head_dim rconfig))))"
      by blast
    have "item (inv_freq r) [i]
            = rope_theta rconfig powr (- (real (2 * i) / real (head_dim rconfig)))"
      if "i < (head_dim rconfig + 1) div 2" for i
      using inv that by (simp add: real_float_ops_def powr_minus_divide)
    then show ?thesis using init by blast
  qed
  show ?thesis
    using Z A R rotary_lookup [OF assms(1,2,3,4,5), of K x] rotary_fallback [OF assms(1,2,6), of K]
    by blast
qed

theorem rotary_tables_and_lookup_witness:
  "QwenRotaryEmbedding_init real_float_ops (toy_rotary_config\<lparr>num_attention_heads := 0\<rparr>)
     = Inl ZeroDivisionError
   \<and> (\<exists>r. QwenRotaryEmbedding_init real_float_ops toy_rotary_config = Inr r
        \<and> shape (cos_cached r) = [1, 2, 2]
        \<and> item (cos_cached r) [0, 1, 0 + 1] = item (cos_cached r) [0, 1, 0]
        \<and> item (cos_cached r) [0, 1, 0] = cos (real 1 * item (inv_freq r) [0])
        \<and> item (inv_freq r) [0] = 1)
   \<and> QwenRotaryEmbedding_forward toy_kernels (rotary_emb (self_attn toy_layer))
        (Tensor [1, 2, 2] [1, 0, 0, 1]) (Some (Tensor [2] [3, 1]))
      = Inr (Tensor [1, 2, 2] [4, 4, 2, 2], Tensor [1, 2, 2] [3, 3, 1, 1])
   \<and> QwenRotaryEmbedding_forward toy_kernels (rotary_emb (self_attn toy_layer))
        (Tensor [1, 2, 2] [1, 0, 0, 1]) None
      = Inr (Tensor [1, 2, 2] [1, 1, 2, 2], Tensor [1, 2, 2] [0, 0, 1, 1])"
proof -
  let ?m = "rotary_emb (self_attn toy_layer)"
  let ?x = "Tensor [1, 2, 2] [1, 0, 0, 1 :: int]"
  let ?c0 = "toy_rotary_config\<lparr>num_attention_heads := 0\<rparr>"
  have cfg: "0 < num_attention_heads toy_rotary_config" "0 < rope_theta toy_rotary_config"
      "head_dim toy_rotary_config = 2" "max_position_embeddings toy_rotary_config = 2"
      "even (head_dim toy_rotary_config)" "rope_theta toy_rotary_config = 4"
    by (simp_all add: toy_rotary_config_def)
  have shc: "shape (cos_cached ?m) = [1, 4, 2]" and shs: "shape (sin_cached ?m) = [1, 4, 2]"
    by (simp_all add: toy_layer_def)
  have sh: "[2] = [2] \<or> [2] = [1, 2 :: nat]" by simp
  have len: "length [3, 1 :: int] = 2" by simp
  have rng: "\<forall>q\<in>set [3, 1 :: int]. 0 \<le> q \<and> q < int 4" by simp
  have shx: "shape ?x = [1, 2, 2]" by simp
  note th = rotary_tables_and_lookup [where K = toy_kernels and F = real_float_ops
      and config = toy_rotary_config and rconfig = toy_rotary_config, OF shc shs sh len rng shx]
  note th0 = rotary_tables_and_lookup [where K = toy_kernels and F = real_float_ops
      and config = ?c0 and rconfig = toy_rotary_config, OF shc shs sh len rng shx]
  have Z: "QwenRotaryEmbedding_init real_float_ops ?c0 = Inl ZeroDivisionError"
    using th0 [THEN conjunct1] by simp
  have e1: "tabulate [1, 2, 2]
              (\<lambda>idx. to_dtype toy_kernels (item (cos_cached ?m) [0, nat ([3, 1] ! (idx ! 1)), idx ! 2]))
            = Tensor [1, 2, 2] [4, 4, 2, 2]" by code_simp
  have e2: "tabulate [1, 2, 2]
              (\<lambda>idx. to_dtype toy_kernels (item (sin_cached ?m) [0, nat ([3, 1] ! (idx ! 1)), idx ! 2]))
            = Tensor [1, 2, 2] [3, 3, 1, 1]" by code_simp
  have e3: "tabulate [1, min 4 2, 2]
              (\<lambda>idx. to_dtype toy_kernels (item (cos_cached ?m) [0, idx ! 1, idx ! 2]))
            = Tensor [1, 2, 2] [1, 1, 2, 2]" by code_simp
  have e4: "tabulate [1, min 4 2, 2]
              (\<lambda>idx. to_dtype toy_kernels (item (sin_cached ?m) [0, idx ! 1, idx ! 2]))
            = Tensor [1, 2, 2] [0, 0, 1, 1]" by code_simp
  from th [THEN conjunct2, THEN conjunct1] cfg(1) obtain r where
    r: "QwenRotaryEmbedding_init real_float_ops toy_rotary_config = Inr r"
    and t: "\<forall>p < max_position_embeddings toy_rotary_config.
            \<forall>d < (head_dim toy_rotary_config + 1) div 2 + (head_dim toy_rotary_config + 1) div 2.
                  item (cos_cached r) [0, p, d]
                    = fcos real_float_ops (fmul real_float_ops (from_nat real_float_ops p)
                        (item (inv_freq r) [d mod ((head_dim toy_rotary_config + 1) div 2)]))
                  \<and> item (sin_cached r) [0, p, d]
                    = fsin real_float_ops (fmul real_float_ops (from_nat real_float_ops p)
                        (item (inv_freq r) [d mod ((head_dim toy_rotary_config + 1) div 2)]))"
    and e: "even (head_dim toy_rotary_config) \<longrightarrow>
                     shape (inv_freq r) = [head_dim toy_rotary_config div 2]
                     \<and> shape (cos_cached r)
                         = [1, max_position_embeddings toy_rotary_config,
                            head_dim toy_rotary_config]
                     \<and> shape (sin_cached r)
                         = [1, max_position_embeddings toy_rotary_config,
                            head_dim toy_rotary_config]
                     \<and> (\<forall>p < max_position_embeddings toy_rotary_config.
                         \<forall>d < head_dim toy_rotary_config div 2.
                           item (cos_cached r) [0, p, d + head_dim toy_rotary_config div 2]
                             = item (cos_cached r) [0, p, d]
                           \<and> item (sin_cached r) [0, p, d + head_dim toy_rotary_config div 2]
                             = item (sin_cached r) [0, p, d])"
    by blast
  from th [THEN conjunct2, THEN conjunct2, THEN conjunct1] cfg(1,2) obtain r' where
    r': "QwenRotaryEmbedding_init real_float_ops toy_rotary_config = Inr r'"
    and iv: "\<forall>i < (head_dim toy_rotary_config + 1) div 2.
               item (inv_freq r') [i]
                 = rope_theta toy_rotary_config
                     powr (- (real (2 * i) / real (head_dim toy_rotary_config)))"
    by blast
  have rr: "r' = r" using r r' by simp
  have a1: "shape (cos_cached r) = [1, 2, 2]" using e cfg(5) by (simp add: cfg(3,4))
  have a2: "item (cos_cached r) [0, 1, 0 + 1] = item (cos_cached r) [0, 1, 0]"
    using e cfg(5) by (simp add: cfg(3,4))
  have a3: "item (cos_cached r) [0, 1, 0] = cos (real 1 * item (inv_freq r) [0])"
    using t [rule_format, of 1 0] by (simp add: cfg(3,4) real_float_ops_def)
  have a4: "item (inv_freq r) [0] = 1"
    using iv [rule_format, of 0] unfolding rr by (simp add: cfg(3,6))
  have A: "\<exists>r. QwenRotaryEmbedding_init real_float_ops toy_rotary_config = Inr r
        \<and> shape (cos_cached r) = [1, 2, 2]
        \<and> item (cos_cached r) [0, 1, 0 + 1] = item (cos_cached r) [0, 1, 0]
        \<and> item (cos_cached r) [0, 1, 0] = cos (real 1 * item (inv_freq r) [0])
        \<and> item (inv_freq r) [0] = 1"
    using r a1 a2 a3 a4 by blast
  have B: "QwenRotaryEmbedding_forward toy_kernels ?m ?x (Some (Tensor [2] [3, 1]))
      = Inr (Tensor [1, 2, 2] [4, 4, 2, 2], Tensor [1, 2, 2] [3, 3, 1, 1])"
    using th [THEN conjunct2, THEN conjunct2, THEN conjunct2, THEN conjunct1] unfolding e1 e2 .
  have C: "QwenRotaryEmbedding_forward toy_kernels ?m ?x None
      = Inr (Tensor [1, 2, 2] [1, 1, 2, 2], Tensor [1, 2, 2] [0, 0, 1, 1])"
    using th [THEN conjunct2, THEN conjunct2, THEN conjunct2, THEN conjunct2] unfolding e3 e4 .
  show ?thesis using Z A B C by blast
qed

lemma cos_inv_neq: "cos (1 / (4 powr (2 / 3)) :: real) \<noteq> cos 1"
proof -
  let ?x = "1 / (4 powr (2 / 3)) :: real"
  have "1 < (4::real) powr (2 / 3)" by (rule gr_one_powr) simp_all
  then have x: "0 \<le> ?x" "?x < 1" by simp_all
  have "(1::real) \<le> pi" using pi_ge_two by linarith
  from cos_monotone_0_pi [OF x this] show ?thesis by simp
qed

text \<open>
  As the claim has it (\<open>D / 2\<close> frequencies, tables and lookups of width \<open>D\<close> whose entry
  at \<open>d + D / 2\<close> repeats the entry at \<open>d\<close>, the first \<open>S\<close> rows without position ids) the
  statement fails for an odd head dimension and for a sequence longer than the table:
  with \<open>D = 3\<close>, \<open>P = 2\<close> and \<open>theta = 4\<close> the constructor returns two inverse frequencies
  and tables of width 4 in which \<open>cos[1, 0 + 3 div 2]\<close> differs from \<open>cos[1, 0]\<close>, and a
  lookup without position ids for a sequence of length 3 returns two rows of width 4.
\<close>

theorem rotary_tables_odd_head_dim:
  "\<exists>r c s. QwenRotaryEmbedding_init real_float_ops (toy_rotary_config\<lparr>head_dim := 3\<rparr>) = Inr r
      \<and> shape (inv_freq r) = [2] \<and> shape (cos_cached r) = [1, 2, 4]
      \<and> shape (sin_cached r) = [1, 2, 4]
      \<and> item (cos_cached r) [0, 1, 0 + 3 div 2] \<noteq> item (cos_cached r) [0, 1, 0]
      \<and> QwenRotaryEmbedding_forward (real_kernels (\<lambda>v. v)) r
           (Tensor [1, 3, 2] [0, 0, 0, 0, 0, 0]) None = Inr (c, s)
      \<and> shape c = [1, 2, 4] \<and> shape s = [1, 2, 4]"
proof -
  let ?c = "toy_rotary_config\<lparr>head_dim := 3\<rparr>"
  let ?x = "Tensor [1, 3, 2] [0, 0, 0, 0, 0, 0 :: real]"
  have h: "0 < num_attention_heads ?c" by (simp add: toy_rotary_config_def)
  have n: "(head_dim ?c + 1) div 2 = 2" "max_position_embeddings ?c = 2"
    "head_dim ?c = 3" "rope_theta ?c = 4" "(3 + 1) div 2 = (2::nat)"
    by (simp_all add: toy_rotary_config_def)
  from rotary_init_result [OF h, of real_float_ops]
  obtain r where r: "QwenRotaryEmbedding_init real_float_ops ?c = Inr r"
    and i: "shape (inv_freq r) = [2]"
    and iv: "\<forall>i<2. item (inv_freq r) [i]
                  = fdiv real_float_ops (from_nat real_float_ops 1)
                      (fpow real_float_ops 4
                         (fdiv real_float_ops (from_nat real_float_ops (2 * i))
                            (from_nat real_float_ops 3)))"
    and c: "shape (cos_cached r) = [1, 2, 2 + 2]" and s: "shape (sin_cached r) = [1, 2, 2 + 2]"
    and t: "\<forall>p<2. \<forall>d<2 + 2.
                 item (cos_cached r) [0, p, d]
                   = fcos real_float_ops (fmul real_float_ops (from_nat real_float_ops p)
                       (item (inv_freq r) [d mod 2]))
               \<and> item (sin_cached r) [0, p, d]
                   = fsin real_float_ops (fmul real_float_ops (from_nat real_float_ops p)
                       (item (inv_freq r) [d mod 2]))"
    unfolding n by blast
  have i0: "item (inv_freq r) [0] = 1" using iv [rule_format, of 0]
    by (simp add: real_float_ops_def)
  have i1: "item (inv_freq r) [1] = 1 / (4 powr (2 / 3))" using iv [rule_format, of 1]
    by (simp add: real_float_ops_def)
  have c0: "item (cos_cached r) [0, 1, 0] = cos 1"
    using t [rule_format, of 1 0] i0 by (simp add: real_float_ops_def)
  have c1: "item (cos_cached r) [0, 1, 1] = cos (1 / (4 powr (2 / 3)))"
    using t [rule_format, of 1 1] i1 by (simp add: real_float_ops_def)
  have ne: "item (cos_cached r) [0, 1, 0 + 3 div 2] \<noteq> item (cos_cached r) [0, 1, 0]"
    using c0 c1 cos_inv_neq by simp
  have shx: "shape ?x = [1, 3, 2]" by simp
  from rotary_fallback [OF c s shx, of "real_kernels (\<lambda>v. v)"]
  obtain c' s' where f: "QwenRotaryEmbedding_forward (real_kernels (\<lambda>v. v)) r ?x None = Inr (c', s')"
    and "shape c' = [1, min 2 3, 2 + 2]" "shape s' = [1, min 2 3, 2 + 2]"
    by simp
  then show ?thesis using r i c s ne by auto
qed

section \<open>The normalisation layers\<close>

lemma seq_assign_Inr:
  "f st = Inr st' \<Longrightarrow> seq (assign_stmt f) rest st = rest st'"
  by (simp add: seq_def assign_stmt_def)

lemma seq_return: "seq (return_stmt f) rest st = f st"
  by (cases "f st") (simp_all add: seq_def return_stmt_def)

lemma norm_body_tail_irrelevant: "norm_body K w eps rest st = norm_body K w eps rest' st"
  by (simp add: norm_body_def seq_def assign_stmt_def return_stmt_def and_then_def
      split: sum.splits flow.splits)

lemma broadcast_shape_keepdim:
  assumes "sh \<noteq> []"
  shows "broadcast_shape sh (butlast sh @ [1]) = Some sh"
proof -
  obtain xs y where sh: "sh = xs @ [y]" using assms by (cases sh rule: rev_cases) auto
  have "broadcast_rev (y # rev xs) (1 # rev xs) = Some (y # rev xs)"
    by (simp add: broadcast_rev_same)
  then show ?thesis by (simp add: broadcast_shape_def sh)
qed

lemma valid_index_butlast:
  "valid_index sh idx \<Longrightarrow> valid_index (butlast sh) (butlast idx)"
  unfolding valid_index_def
  by (simp add: list_all2_conv_all_nth nth_butlast)

lemma valid_index_snoc:
  "valid_index (sh @ [n]) (idx @ [j]) = (valid_index sh idx \<and> j < n)"
proof (cases "length idx = length sh")
  case True
  then show ?thesis unfolding valid_index_def by (simp add: list_all2_append)
next
  case False
  then have "\<not> valid_index sh idx" "\<not> valid_index (sh @ [n]) (idx @ [j])"
    unfolding valid_index_def by (auto dest: list_all2_lengthD)
  then show ?thesis by simp
qed

lemma broadcast_index_keepdim:
  assumes v: "valid_index sh idx" and ne: "sh \<noteq> []"
  shows "broadcast_index (butlast sh @ [1]) idx = butlast idx @ [0]"
proof -
  have len: "length idx = length sh" using v by (rule valid_index_length)
  then have ine: "idx \<noteq> []" using ne by auto
  have vb: "valid_index (butlast sh) (butlast idx)" using v by (rule valid_index_butlast)
  have lb: "length (butlast idx) = length (butlast sh)" using len by simp
  have "map2 (\<lambda>i n. if n = 1 then 0 else i) (butlast idx @ [last idx]) (butlast sh @ [1])
          = map2 (\<lambda>i n. if n = 1 then 0 else i) (butlast idx) (butlast sh) @ [0]"
    using lb by simp
  moreover have "map2 (\<lambda>i n. if n = 1 then 0 else i) (butlast idx) (butlast sh) = butlast idx"
    using broadcast_index_same [OF vb] lb by (simp add: broadcast_index_def)
  ultimately show ?thesis using len ine by (simp add: broadcast_index_def)
qed

lemma row_of_butlast: "row_of t (butlast idx @ [j]) = row_of t idx"
  by (simp add: row_of_def)

lemma norm_forward_rows:
  fixes K :: "'a::minus kernels"
  assumes shx: "shape x = sh" and ne: "sh \<noteq> []" and d: "last sh = d" and shw: "shape w = [d]"
  shows "norm_body K w eps rest (norm_locals_init x)
           = Inr (tabulate sh
               (\<lambda>idx. to_dtype K
                  (layer_norm_row K eps (elems w)
                     (map (\<lambda>v. v - mean_row K (row_of x idx)) (row_of x idx)) ! last idx)))"
proof -
  let ?mean = "mean_keepdim K x"
  let ?xc = "tabulate sh (\<lambda>idx. item x idx - mean_row K (row_of x idx))"
  have shm: "shape ?mean = butlast sh @ [1]" using shx ne by (simp add: mean_keepdim_def)
  have sub: "elementwise (-) x ?mean = Inr ?xc"
  proof -
    have E: "tabulate sh (\<lambda>idx. item x (broadcast_index sh idx)
                               - item ?mean (broadcast_index (butlast sh @ [1]) idx)) = ?xc"
    proof (rule tabulate_cong)
      fix idx assume v: "valid_index sh idx"
      have "valid_index (butlast sh @ [1]) (butlast idx @ [0])"
        using valid_index_butlast [OF v] by (simp add: valid_index_snoc)
      then have "item ?mean (butlast idx @ [0]) = mean_row K (row_of x (butlast idx @ [0]))"
        using shx ne by (simp add: mean_keepdim_def item_tabulate)
      then show "item x (broadcast_index sh idx)
                   - item ?mean (broadcast_index (butlast sh @ [1]) idx)
                 = item x idx - mean_row K (row_of x idx)"
        by (simp only: broadcast_index_same [OF v] broadcast_index_keepdim [OF v ne]
            row_of_butlast)
    qed
    show ?thesis
      unfolding elementwise_def shx shm broadcast_shape_keepdim [OF ne] option.case
      by (simp only: E)
  qed
  have ln: "layer_norm K ?xc (shape w) w eps
              = Inr (along_last (layer_norm_row K eps (elems w)) ?xc)"
    using ne d shw by (simp add: layer_norm_def)
  have rows: "row_of ?xc idx = map (\<lambda>v. v - mean_row K (row_of x idx)) (row_of x idx)"
    if v: "valid_index sh idx" for idx
  proof -
    have "item ?xc (butlast idx @ [j]) = item x (butlast idx @ [j]) - mean_row K (row_of x idx)"
      if "j < last sh" for j
    proof -
      have "valid_index (butlast sh @ [last sh]) (butlast idx @ [j])"
        using valid_index_butlast [OF v] that by (simp add: valid_index_snoc)
      then have "valid_index sh (butlast idx @ [j])" using ne by simp
      then show ?thesis by (simp add: item_tabulate row_of_butlast)
    qed
    then show ?thesis by (simp add: row_of_def shx)
  qed
  have al: "map_tensor (to_dtype K) (along_last (layer_norm_row K eps (elems w)) ?xc)
              = tabulate sh
               (\<lambda>idx. to_dtype K
                  (layer_norm_row K eps (elems w)
                     (map (\<lambda>v. v - mean_row K (row_of x idx)) (row_of x idx)) ! last idx))"
    unfolding along_last_def shape_tabulate map_tensor_tabulate
    by (rule tabulate_cong) (simp add: rows)
  have s1: "seq (assign_stmt (\<lambda>st. Inr (st\<lparr>nl_mean := mean_keepdim K (nl_x st)\<rparr>))) r
              (norm_locals_init x)
            = r ((norm_locals_init x)\<lparr>nl_mean := ?mean\<rparr>)" for r :: "'a norm_locals \<Rightarrow> error + 'a tensor"
    by (rule seq_assign_Inr) (simp add: norm_locals_init_def)
  have s2: "seq (assign_stmt (\<lambda>st.
            and_then (elementwise (-) (nl_x st) (nl_mean st)) (\<lambda>x. Inr (st\<lparr>nl_x := x\<rparr>)))) r
              ((norm_locals_init x)\<lparr>nl_mean := ?mean\<rparr>)
            = r ((norm_locals_init x)\<lparr>nl_mean := ?mean, nl_x := ?xc\<rparr>)"
    for r :: "'a norm_locals \<Rightarrow> error + 'a tensor"
    by (rule seq_assign_Inr) (simp add: norm_locals_init_def sub)
  show ?thesis
    unfolding norm_body_def s1 s2 seq_return
    by (simp add: ln al)
qed

lemma real_mean_centered:
  assumes "row \<noteq> []"
  shows "real_mean (map (\<lambda>v. v - real_mean row) row) = 0"
proof -
  have n: "real (length row) \<noteq> 0" using assms by simp
  have g: "sum_list (map (\<lambda>v. v - c) xs) = sum_list xs - real (length xs) * c"
    for c :: real and xs
    by (induction xs) (simp_all add: algebra_simps)
  have "sum_list (map (\<lambda>v. v - real_mean row) row)
          = sum_list row - real (length row) * real_mean row"
    by (rule g)
  also have "\<dots> = 0" using n by (simp add: real_mean_def)
  finally show ?thesis by (simp add: real_mean_def)
qed

lemma real_layer_norm_centered:
  assumes j: "j < length row" and lw: "length w = length row"
  shows "real_layer_norm_row eps w (map (\<lambda>v. v - real_mean row) row) ! j
           = (row ! j - real_mean row)
               / sqrt (real_mean (map (\<lambda>v. (v - real_mean row)\<^sup>2) row) + eps) * w ! j"
proof -
  have ne: "row \<noteq> []" using j by auto
  let ?c = "map (\<lambda>v. v - real_mean row) row"
  have m0: "real_mean ?c = 0" using ne by (rule real_mean_centered)
  have "real_layer_norm_row eps w ?c ! j
          = (?c ! j - real_mean ?c)
              / sqrt (real_mean (map (\<lambda>x. (x - real_mean ?c)\<^sup>2) ?c) + eps) * w ! j"
    using j lw by (simp add: real_layer_norm_row_def Let_def)
  also have "\<dots> = (row ! j - real_mean row)
               / sqrt (real_mean (map (\<lambda>v. (v - real_mean row)\<^sup>2) row) + eps) * w ! j"
    using j by (simp add: m0 comp_def)
  finally show ?thesis .
qed

lemma valid_index_last:
  assumes "valid_index sh idx" "sh \<noteq> []"
  shows "idx \<noteq> []" "last idx < last sh"
proof -
  have len: "length idx = length sh" using assms(1) by (rule valid_index_length)
  then show ne: "idx \<noteq> []" using assms(2) by auto
  have "idx ! (length sh - 1) < sh ! (length sh - 1)"
    using assms by (intro valid_index_nth) simp_all
  then show "last idx < last sh" using ne assms(2) len by (simp add: last_conv_nth)
qed

lemma row_of_nth_last:
  assumes "valid_index (shape x) idx" "shape x \<noteq> []"
  shows "length (row_of x idx) = last (shape x)" "row_of x idx ! last idx = item x idx"
proof -
  show "length (row_of x idx) = last (shape x)" by (simp add: row_of_def)
  have "idx \<noteq> []" "last idx < last (shape x)" using valid_index_last [OF assms] by simp_all
  then show "row_of x idx ! last idx = item x idx" by (simp add: row_of_def)
qed

text \<open>
  Claim C5.  For an input of shape \<open>sh = [..., d]\<close> and a scale of shape \<open>[d]\<close>, both
  \<open>QwenRMSNorm.forward\<close> and \<open>QwenHeadNorm.forward\<close> return the same tensor, of the shape
  of the input: each row along the last axis has its mean subtracted and is then handed to
  the layer-norm kernel with the learned scale and the module's epsilon, and the result is
  converted to the model's precision.  Over the reals, with the layer-norm kernel written
  out, the entry at \<open>idx\<close> is \<open>(x - mean) / sqrt (var + eps) * weight\<close>, where mean and
  variance are those of the row of \<open>idx\<close>, the epsilon sits under the root, and no bias is
  added.  The statements after the \<open>return\<close> (the formula without mean-centring) have no
  influence on the result: replacing them by any other continuation gives the same value.
\<close>
theorem norms_mean_centered:
  fixes K :: "'a::{plus,minus,times} kernels" and x :: "'a tensor"
    and cast :: "real \<Rightarrow> real" and xr :: "real tensor"
  assumes "shape x = sh" and "shape xr = sh" and "sh \<noteq> []" and "last sh = d"
    and "shape w = [d]" and "shape wr = [d]" and "wf_tensor wr"
  shows "QwenRMSNorm_forward K \<lparr>rms_weight = w, rms_eps = eps\<rparr> x
           = Inr (tabulate sh
               (\<lambda>idx. to_dtype K
                  (layer_norm_row K eps (elems w)
                     (map (\<lambda>v. v - mean_row K (row_of x idx)) (row_of x idx)) ! last idx)))
         \<and> QwenHeadNorm_forward K \<lparr>hn_weight = w, hn_eps = eps\<rparr> x
           = QwenRMSNorm_forward K \<lparr>rms_weight = w, rms_eps = eps\<rparr> x
         \<and> (\<exists>y. QwenRMSNorm_forward (real_kernels cast) \<lparr>rms_weight = wr, rms_eps = e\<rparr> xr = Inr y
                \<and> QwenHeadNorm_forward (real_kernels cast) \<lparr>hn_weight = wr, hn_eps = e\<rparr> xr = Inr y
                \<and> shape y = shape xr
                \<and> (\<forall>idx. valid_index sh idx \<longrightarrow>
                      item y idx
                        = cast ((item xr idx - real_mean (row_of xr idx))
                                / sqrt (real_mean (map (\<lambda>v. (v - real_mean (row_of xr idx))\<^sup>2)
                                                     (row_of xr idx)) + e)
                                * item wr [last idx])))
         \<and> (\<forall>rest. QwenRMSNorm_forward K \<lparr>rms_weight = w, rms_eps = eps\<rparr> x
                      = norm_body K w eps rest (norm_locals_init x))
         \<and> (\<forall>rest. QwenHeadNorm_forward K \<lparr>hn_weight = w, hn_eps = eps\<rparr> x
                      = norm_body K w eps rest (norm_locals_init x))"
proof -
  have A: "QwenRMSNorm_forward K \<lparr>rms_weight = w, rms_eps = eps\<rparr> x
           = Inr (tabulate sh
               (\<lambda>idx. to_dtype K
                  (layer_norm_row K eps (elems w)
                     (map (\<lambda>v. v - mean_row K (row_of x idx)) (row_of x idx)) ! last idx)))"
    using norm_forward_rows [OF assms(1,3,4,5)] by (simp add: QwenRMSNorm_forward_def)
  have B: "QwenHeadNorm_forward K \<lparr>hn_weight = w, hn_eps = eps\<rparr> x
           = QwenRMSNorm_forward K \<lparr>rms_weight = w, rms_eps = eps\<rparr> x"
    by (simp add: QwenRMSNorm_forward_def QwenHeadNorm_forward_def)
  let ?y = "tabulate sh
               (\<lambda>idx. cast
                  (real_layer_norm_row e (elems wr)
                     (map (\<lambda>v. v - real_mean (row_of xr idx)) (row_of xr idx)) ! last idx))"
  have C1: "QwenRMSNorm_forward (real_kernels cast) \<lparr>rms_weight = wr, rms_eps = e\<rparr> xr = Inr ?y"
    using norm_forward_rows [OF assms(2,3,4,6), of "real_kernels cast" e]
    by (simp add: QwenRMSNorm_forward_def real_kernels_def)
  have C2: "QwenHeadNorm_forward (real_kernels cast) \<lparr>hn_weight = wr, hn_eps = e\<rparr> xr = Inr ?y"
    using norm_forward_rows [OF assms(2,3,4,6), of "real_kernels cast" e]
    by (simp add: QwenHeadNorm_forward_def real_kernels_def)
  have lw: "length (elems wr) = d" using assms(6,7) by (simp add: wf_tensor_def)
  have C3: "item ?y idx
              = cast ((item xr idx - real_mean (row_of xr idx))
                      / sqrt (real_mean (map (\<lambda>v. (v - real_mean (row_of xr idx))\<^sup>2)
                                           (row_of xr idx)) + e)
                      * item wr [last idx])"
    if v: "valid_index sh idx" for idx
  proof -
    have v': "valid_index (shape xr) idx" and ne': "shape xr \<noteq> []"
      using v assms(2,3) by simp_all
    have len: "length (row_of xr idx) = d"
      using row_of_nth_last(1) [OF v' ne'] assms(2,4) by simp
    have li: "last idx < d" using valid_index_last(2) [OF v assms(3)] assms(4) by simp
    have nth: "row_of xr idx ! last idx = item xr idx" by (rule row_of_nth_last(2) [OF v' ne'])
    have iw: "item wr [last idx] = elems wr ! last idx" using assms(6) by (simp add: item_def)
    have "real_layer_norm_row e (elems wr)
            (map (\<lambda>v. v - real_mean (row_of xr idx)) (row_of xr idx)) ! last idx
          = (row_of xr idx ! last idx - real_mean (row_of xr idx))
               / sqrt (real_mean (map (\<lambda>v. (v - real_mean (row_of xr idx))\<^sup>2)
                                    (row_of xr idx)) + e)
               * elems wr ! last idx"
      by (rule real_layer_norm_centered) (simp_all add: len li lw)
    then show ?thesis using v by (simp add: item_tabulate nth iw)
  qed
  have C: "\<exists>y. QwenRMSNorm_forward (real_kernels cast) \<lparr>rms_weight = wr, rms_eps = e\<rparr> xr = Inr y
                \<and> QwenHeadNorm_forward (real_kernels cast) \<lparr>hn_weight = wr, hn_eps = e\<rparr> xr = Inr y
                \<and> shape y = shape xr
                \<and> (\<forall>idx. valid_index sh idx \<longrightarrow>
                      item y idx
                        = cast ((item xr idx - real_mean (row_of xr idx))
                                / sqrt (real_mean (map (\<lambda>v. (v - real_mean (row_of xr idx))\<^sup>2)
                                                     (row_of xr idx)) + e)
                                * item wr [last idx]))"
    using C1 C2 C3 assms(2) by (intro exI [of _ ?y]) simp
  have D: "QwenRMSNorm_forward K \<lparr>rms_weight = w, rms_eps = eps\<rparr> x
                      = norm_body K w eps rest (norm_locals_init x)" for rest
    using norm_body_tail_irrelevant [of K w eps _ "norm_locals_init x" rest]
    by (simp add: QwenRMSNorm_forward_def)
  have E: "QwenHeadNorm_forward K \<lparr>hn_weight = w, hn_eps = eps\<rparr> x
                      = norm_body K w eps rest (norm_locals_init x)" for rest
    using norm_body_tail_irrelevant [of K w eps _ "norm_locals_init x" rest]
    by (simp add: QwenHeadNorm_forward_def)
  show ?thesis using A B C D E by blast
qed

theorem norms_mean_centered_witness:
  "QwenRMSNorm_forward toy_kernels \<lparr>rms_weight = Tensor [2] [1, 1], rms_eps = 0\<rparr>
       (Tensor [1, 2] [1, 3])
     = Inr (Tensor [1, 2] [- 1, 1])
   \<and> QwenHeadNorm_forward toy_kernels \<lparr>hn_weight = Tensor [2] [1, 1], hn_eps = 0\<rparr>
       (Tensor [1, 2] [1, 3])
     = Inr (Tensor [1, 2] [- 1, 1])
   \<and> (\<exists>y. QwenRMSNorm_forward (real_kernels (\<lambda>v. v))
               \<lparr>rms_weight = Tensor [2] [2, 5], rms_eps = 0\<rparr> (Tensor [1, 2] [1, 3]) = Inr y
          \<and> QwenHeadNorm_forward (real_kernels (\<lambda>v. v))
               \<lparr>hn_weight = Tensor [2] [2, 5], hn_eps = 0\<rparr> (Tensor [1, 2] [1, 3]) = Inr y
          \<and> shape y = [1, 2] \<and> item y [0, 0] = - 2 \<and> item y [0, 1] = 5)"
proof -
  let ?x = "Tensor [1, 2] [1, 3 :: int]" and ?w = "Tensor [2] [1, 1 :: int]"
  let ?xr = "Tensor [1, 2] [1, 3 :: real]" and ?wr = "Tensor [2] [2, 5 :: real]"
  have h: "shape ?x = [1, 2]" "shape ?xr = [1, 2]" "[1, 2 :: nat] \<noteq> []" "last [1, 2 :: nat] = 2"
    "shape ?w = [2]" "shape ?wr = [2]" "wf_tensor ?wr"
    by (simp_all add: wf_tensor_def)
  note th = norms_mean_centered [where K = toy_kernels and eps = 0 and e = 0
      and cast = "\<lambda>v. v", OF h]
  have ev: "tabulate [1, 2]
               (\<lambda>idx. to_dtype toy_kernels
                  (layer_norm_row toy_kernels 0 (elems ?w)
                     (map (\<lambda>v. v - mean_row toy_kernels (row_of ?x idx)) (row_of ?x idx)) ! last idx))
            = Tensor [1, 2] [- 1, 1]"
    by code_simp
  have a: "QwenRMSNorm_forward toy_kernels \<lparr>rms_weight = ?w, rms_eps = 0\<rparr> ?x
             = Inr (Tensor [1, 2] [- 1, 1])"
    using th [THEN conjunct1] unfolding ev .
  have b: "QwenHeadNorm_forward toy_kernels \<lparr>hn_weight = ?w, hn_eps = 0\<rparr> ?x
             = Inr (Tensor [1, 2] [- 1, 1])"
    using th [THEN conjunct2, THEN conjunct1] a by simp
  from th [THEN conjunct2, THEN conjunct2, THEN conjunct1]
  obtain y where y1: "QwenRMSNorm_forward (real_kernels (\<lambda>v. v))
               \<lparr>rms_weight = ?wr, rms_eps = 0\<rparr> ?xr = Inr y"
    and y2: "QwenHeadNorm_forward (real_kernels (\<lambda>v. v))
               \<lparr>hn_weight = ?wr, hn_eps = 0\<rparr> ?xr = Inr y"
    and ysh: "shape y = shape ?xr"
    and yit: "\<forall>idx. valid_index [1, 2] idx \<longrightarrow>
                      item y idx
                        = (item ?xr idx - real_mean (row_of ?xr idx))
                                / sqrt (real_mean (map (\<lambda>v. (v - real_mean (row_of ?xr idx))\<^sup>2)
                                                     (row_of ?xr idx)) + 0)
                                * item ?wr [last idx]"
    by blast
  have val: "valid_index [1, 2] [0, 0]" "valid_index [1, 2] [0, 1]"
    by (simp_all add: valid_index_def)
  have row: "row_of ?xr [0, j] = [1, 3]" for j
    by (simp add: row_of_def item_def upt_rec numeral_2_eq_2)
  have mean: "real_mean [1, 3] = 2" by (simp add: real_mean_def)
  have sq: "real_mean (map (\<lambda>v. (v - 2)\<^sup>2) [1, 3]) + 0 = 1"
    by (simp add: real_mean_def)
  have i0: "item ?xr [0, 0] = 1" "item ?xr [0, 1] = 3"
    "item ?wr [last [0, 0]] = 2" "item ?wr [last [0, 1 :: nat]] = 5"
    by (simp_all add: item_def)
  have c0: "item y [0, 0] = - 2"
    unfolding yit [rule_format, OF val(1)] row mean sq i0 by simp
  have c1: "item y [0, 1] = 5"
    unfolding yit [rule_format, OF val(2)] row mean sq i0 by simp
  have "shape y = [1, 2]" using ysh by simp
  then show ?thesis using a b y1 y2 c0 c1 by blast
qed

end
